theory Spec2Isabelle
  imports Complex_Main "HOL-Library.Sublist" "HOL-Library.Multiset"
begin

section \<open>JavaScript values\<close>

text \<open>
  The program is JavaScript.  Strings are modelled as \<open>string\<close> (lists of code units; the
  model covers the code units below 256).  A JavaScript number that may be fractional or
  non-finite is a \<open>jsnum\<close>.  A finite number is a rational; it stands for the double
  nearest to it.  The quotient of two counters, the comparisons with a threshold, and the
  two thresholds that \<open>inferProfile\<close> lowers by a subtraction are taken on the rationals.
  Where the program adds a fraction to a stored confidence (\<open>shouldReplace\<close>) the operands
  and the sum are rounded as the machine rounds them.
  Counters of observations are natural numbers: they start at zero and are only
  incremented.
\<close>

datatype jsnum = Finite rat | NaN | PosInfinity | NegInfinity

subsection \<open>Double precision\<close>

text \<open>
  The number of binary digits of a natural number, the powers of two with an integer
  exponent, and the exponent \<open>e\<close> with \<open>2 ^ e \<le> q < 2 ^ (e + 1)\<close> of a positive rational \<open>q\<close>.
\<close>

fun bits :: "nat \<Rightarrow> nat" where
  "bits n = (if n = 0 then 0 else Suc (bits (n div 2)))"

declare bits.simps [simp del]

definition pow2 :: "int \<Rightarrow> rat" where
  "pow2 e = (if e \<ge> 0 then 2 ^ nat e else 1 / 2 ^ nat (- e))"

definition binade :: "rat \<Rightarrow> int" where
  "binade q =
     (if q \<ge> 1 then int (bits (nat \<lfloor>q\<rfloor>)) - 1
      else let n = bits (nat \<lfloor>1 / q\<rfloor>)
           in if 1 / q = 2 ^ (n - 1) then - (int n - 1) else - int n)"

text \<open>The nearest integer, a tie going to the even one.\<close>

definition roundEven :: "rat \<Rightarrow> int" where
  "roundEven r =
     (let f = \<lfloor>r\<rfloor>; d = r - of_int f
      in if d < 1 / 2 then f else if d > 1 / 2 then f + 1 else if even f then f else f + 1)"

text \<open>
  The value of the IEEE 754 double (binary64) nearest to a rational, a tie going to the
  even significand: the rational is rounded to a multiple of the unit in the last place
  of its binade, 52 binary places below the leading digit and never below \<open>2 ^ -1074\<close>.
  A literal such as \<open>0.05\<close> is read in this way, and so is the result of an addition.
  Overflow to infinity (from \<open>2 ^ 1024\<close> on) is not modelled: a confidence lies between 0
  and 1.
\<close>

definition double :: "rat \<Rightarrow> rat" where
  "double q =
     (if q = 0 then 0
      else let u = pow2 (max (binade \<bar>q\<bar> - 52) (- 1074))
           in of_int (roundEven (q / u)) * u)"

text \<open>
  A JavaScript value as far as the program inspects it: primitives, arrays and plain
  objects (an object is the list of its own enumerable properties in iteration order).
  The type of number leaves is a parameter.
\<close>

datatype 'n jv =
    JUndefined
  | JNull
  | JBool bool
  | JNum 'n
  | JStr string
  | JArr "'n jv list"
  | JObj "(string \<times> 'n jv) list"

type_synonym jsval = "jsnum jv"

section \<open>Rule inference (src/core/infer.js)\<close>

datatype status = Enforced | Undetermined

datatype provenance = Deterministic | LlmAugmented

text \<open>\<open>InferredRule<T>\<close> of src/types.js; \<open>value: null\<close> is \<open>None\<close>.\<close>

record 'a InferredRule =
  rvalue :: "'a option"
  rstatus :: status
  confidence :: rat
  evidenceCount :: nat
  provenance :: provenance
  autoFixSafe :: bool

text \<open>
  \<open>binaryRule(options)\<close>.  The fields of the options object are the arguments, in the
  order of the destructuring in the source.
\<close>

definition binaryRule ::
  "nat \<Rightarrow> nat \<Rightarrow> 'a \<Rightarrow> 'a \<Rightarrow> nat \<Rightarrow> rat \<Rightarrow> bool \<Rightarrow> provenance \<Rightarrow> 'a InferredRule" where
  "binaryRule yes no yesValue noValue minEvidence minConfidence autoFix prov =
     (let total = yes + no in
      if total = 0 then
        \<lparr>rvalue = None, rstatus = Undetermined, confidence = 0, evidenceCount = 0,
         provenance = prov, autoFixSafe = autoFix\<rparr>
      else
        let winner = (if yes \<ge> no then yes else no);
            v = (if yes \<ge> no then yesValue else noValue);
            conf = of_nat winner / of_nat total;
            st = (if winner \<ge> minEvidence \<and> conf \<ge> minConfidence
                  then Enforced else Undetermined)
        in \<lparr>rvalue = (if st = Enforced then Some v else None), rstatus = st,
            confidence = conf, evidenceCount = winner,
            provenance = prov, autoFixSafe = autoFix\<rparr>)"

text \<open>\<open>gcd(a, b)\<close>: the loop \<open>while (y) { temp = y; y = x % y; x = temp }\<close>.\<close>

function gcd_loop :: "nat \<Rightarrow> nat \<Rightarrow> nat" where
  "gcd_loop x y = (if y = 0 then x else gcd_loop y (x mod y))"
  by pat_completeness auto
termination
  by (relation "measure (\<lambda>(x, y). y)") auto

definition gcd_js :: "int \<Rightarrow> int \<Rightarrow> int" where
  "gcd_js a b = (let x = gcd_loop (nat \<bar>a\<bar>) (nat \<bar>b\<bar>) in if x = 0 then 1 else int x)"

text \<open>
  \<open>inferIndentUnit(entries)\<close>.  An entry is a pair (width, count); the width is the
  integer that \<open>Number.parseInt\<close> reads from the property name (the names are written by
  \<open>String(size)\<close> in the extractor).
\<close>

definition candidateScore :: "(int \<times> int) list \<Rightarrow> int \<Rightarrow> int" where
  "candidateScore vs candidate =
     foldl (\<lambda>s e. s + snd e) 0 (filter (\<lambda>e. fst e mod candidate = 0) vs)"

definition bestCandidate :: "(int \<times> int) list \<Rightarrow> int \<times> int" where
  "bestCandidate vs =
     foldl (\<lambda>best candidate.
              let score = candidateScore vs candidate
              in if score > snd best then (candidate, score) else best)
           (2, -1) [2, 4, 8]"

definition inferIndentUnit :: "(int \<times> int) list \<Rightarrow> int" where
  "inferIndentUnit entries =
     (let vs = filter (\<lambda>e. fst e > 0 \<and> snd e > 0) entries in
      case vs of
        [] \<Rightarrow> 2
      | v # rest \<Rightarrow>
          let unit = foldl (\<lambda>u e. gcd_js u (fst e)) (fst v) rest in
          if unit \<ge> 2 \<and> unit \<le> 8 then unit
          else let best = bestCandidate vs in
            if snd best > 0 then fst best
            else fst (hd (sort_key fst vs)))"

text \<open>\<open>densityRule(blankLines, totalLines, minEvidence, minConfidence)\<close>.\<close>

definition densityRule :: "nat \<Rightarrow> nat \<Rightarrow> nat \<Rightarrow> rat \<Rightarrow> jsval InferredRule" where
  "densityRule blankLines totalLines minEvidence minConfidence =
     (if totalLines = 0 then
        \<lparr>rvalue = None, rstatus = Undetermined, confidence = 0, evidenceCount = 0,
         provenance = Deterministic, autoFixSafe = False\<rparr>
      else
        let density = (of_nat blankLines :: rat) / of_nat totalLines;
            v = (if density \<le> 15 / 100 then JStr ''compact'' else JStr ''spacious'');
            conf = 1 - min \<bar>density - (if v = JStr ''compact'' then 12 / 100 else 25 / 100)\<bar> (2 / 10);
            st = (if totalLines \<ge> minEvidence \<and> conf \<ge> minConfidence
                  then Enforced else Undetermined)
        in \<lparr>rvalue = (if st = Enforced then Some v else None), rstatus = st,
            confidence = conf, evidenceCount = totalLines,
            provenance = Deterministic, autoFixSafe = False\<rparr>)"

text \<open>\<open>inferLineWidth(maxLineLength, nonBlankLines, minEvidence, minConfidence)\<close>.\<close>

definition inferLineWidth :: "nat \<Rightarrow> int \<Rightarrow> nat \<Rightarrow> rat \<Rightarrow> jsval InferredRule" where
  "inferLineWidth maxLineLength nonBlankLines minEvidence minConfidence =
     (let evidence = nat (max 0 nonBlankLines) in
      if maxLineLength \<le> 0 \<or> evidence = 0 then
        \<lparr>rvalue = None, rstatus = Undetermined, confidence = 0, evidenceCount = evidence,
         provenance = Deterministic, autoFixSafe = False\<rparr>
      else
        let candidates = [80, 90, 100, 110, 120, 140, 160];
            target = max 80 (min maxLineLength 160);
            v = (case List.find (\<lambda>candidate. candidate \<ge> target) candidates of
                   Some c \<Rightarrow> c | None \<Rightarrow> 160);
            conf = max (1 / 2) (min 1 ((of_nat maxLineLength :: rat) / of_nat v));
            st = (if evidence \<ge> minEvidence \<and> conf \<ge> minConfidence
                  then Enforced else Undetermined)
        in \<lparr>rvalue = (if st = Enforced then Some (JNum (Finite (of_nat v))) else None),
            rstatus = st, confidence = conf, evidenceCount = evidence,
            provenance = Deterministic, autoFixSafe = False\<rparr>)"

subsection \<open>Signals and the profile's rules\<close>

text \<open>\<open>FileSignals\<close> (src/core/extractors/signals.js): the counters and the histogram of
  indentation widths.  The aggregate of several files has the same shape.\<close>

record FileSignals =
  lineCommentSpace :: nat
  lineCommentTight :: nat
  functionsTotal :: nat
  functionsWithJsdoc :: nat
  functionNamesSingle :: nat
  functionNamesMulti :: nat
  functionExprNamed :: nat
  functionExprAnonymous :: nat
  ifWithBraces :: nat
  ifWithoutBraces :: nat
  quotesSingle :: nat
  quotesDouble :: nat
  semicolonsYes :: nat
  semicolonsNo :: nat
  trailingCommaYes :: nat
  trailingCommaNo :: nat
  variableDeclarationCommaLeading :: nat
  variableDeclarationCommaTrailing :: nat
  indentSpaceLines :: nat
  indentTabLines :: nat
  switchCaseIndented :: nat
  switchCaseFlat :: nat
  switchCaseBreakMatchCase :: nat
  switchCaseBreakIndented :: nat
  memberExprAligned :: nat
  memberExprIndented :: nat
  memberExprAlignedFiles :: nat
  memberExprIndentedFiles :: nat
  yodaConditionsYes :: nat
  yodaConditionsNo :: nat
  ternaryMultilineLeading :: nat
  ternaryMultilineTrailing :: nat
  guardClauseFunctions :: nat
  nonGuardClauseFunctions :: nat
  blankLineBeforeReturnYes :: nat
  blankLineBeforeReturnNo :: nat
  blankLineBeforeIfYes :: nat
  blankLineBeforeIfNo :: nat
  commentFramedBlocks :: nat
  commentPlainBlocks :: nat
  trailingInlineCommentAlignedPairs :: nat
  trailingInlineCommentUnalignedPairs :: nat
  multilineCallArgumentCompact :: nat
  multilineCallArgumentExpanded :: nat
  lineLengthMax :: nat
  blankLines :: nat
  totalLines :: nat
  importSortedGroups :: nat
  importUnsortedGroups :: nat
  indentSpaceSizes :: "(int \<times> int) list"

text \<open>
  The thresholds of \<open>inferProfile\<close>.  \<open>minEvidence\<close> is a positive integer
  (\<open>learnStyle\<close> rejects anything else), so \<open>Math.floor(minEvidence / k)\<close> is \<open>div\<close>.
  The floor of the multiline-ternary rule is the expression written at that rule.
\<close>

definition sparseEvidence :: "nat \<Rightarrow> nat" where
  "sparseEvidence minEvidence = max 2 (minEvidence div 3)"

definition ultraSparseEvidence :: "nat \<Rightarrow> nat" where
  "ultraSparseEvidence minEvidence = max 2 (minEvidence div 5)"

definition ternaryEvidence :: "nat \<Rightarrow> nat" where
  "ternaryEvidence minEvidence = max 2 (minEvidence div 10)"

text \<open>The rules of \<open>inferProfile\<close>, one definition per \<open>const\<close> of the source.\<close>

definition commentsLine :: "FileSignals \<Rightarrow> nat \<Rightarrow> rat \<Rightarrow> jsval InferredRule" where
  "commentsLine aggregate minEvidence minConfidence =
     binaryRule (lineCommentSpace aggregate) (lineCommentTight aggregate)
       (JStr ''space-after-slashes'') (JStr ''tight'')
       (minEvidence) (minConfidence) True Deterministic"

definition jsdoc :: "FileSignals \<Rightarrow> nat \<Rightarrow> rat \<Rightarrow> jsval InferredRule" where
  "jsdoc aggregate minEvidence minConfidence =
     binaryRule (functionsWithJsdoc aggregate) (nat (max (int (functionsTotal aggregate) - int (functionsWithJsdoc aggregate)) 0))
       (JBool True) (JBool False)
       (sparseEvidence minEvidence) (minConfidence) False Deterministic"

definition commentBlockFraming :: "FileSignals \<Rightarrow> nat \<Rightarrow> rat \<Rightarrow> jsval InferredRule" where
  "commentBlockFraming aggregate minEvidence minConfidence =
     binaryRule (commentFramedBlocks aggregate) (commentPlainBlocks aggregate)
       (JStr ''framed'') (JStr ''plain'')
       (sparseEvidence minEvidence) (minConfidence) False Deterministic"

definition trailingInlineCommentAlignment :: "FileSignals \<Rightarrow> nat \<Rightarrow> rat \<Rightarrow> jsval InferredRule" where
  "trailingInlineCommentAlignment aggregate minEvidence minConfidence =
     binaryRule (trailingInlineCommentAlignedPairs aggregate) (trailingInlineCommentUnalignedPairs aggregate)
       (JStr ''aligned'') (JStr ''single-space'')
       (ultraSparseEvidence minEvidence) (minConfidence) False Deterministic"

definition fnWords :: "FileSignals \<Rightarrow> nat \<Rightarrow> rat \<Rightarrow> jsval InferredRule" where
  "fnWords aggregate minEvidence minConfidence =
     binaryRule (functionNamesSingle aggregate) (functionNamesMulti aggregate)
       (JStr ''single-word'') (JStr ''multi-word'')
       (minEvidence) (minConfidence) False Deterministic"

definition fnExpressionNaming :: "FileSignals \<Rightarrow> nat \<Rightarrow> rat \<Rightarrow> jsval InferredRule" where
  "fnExpressionNaming aggregate minEvidence minConfidence =
     binaryRule (functionExprNamed aggregate) (functionExprAnonymous aggregate)
       (JStr ''named'') (JStr ''allow-anonymous'')
       (sparseEvidence minEvidence) (minConfidence) False Deterministic"

definition braces :: "FileSignals \<Rightarrow> nat \<Rightarrow> rat \<Rightarrow> jsval InferredRule" where
  "braces aggregate minEvidence minConfidence =
     binaryRule (ifWithoutBraces aggregate) (ifWithBraces aggregate)
       (JStr ''omit'') (JStr ''require'')
       (minEvidence) (minConfidence) False Deterministic"

definition guardClauses :: "FileSignals \<Rightarrow> nat \<Rightarrow> rat \<Rightarrow> jsval InferredRule" where
  "guardClauses aggregate minEvidence minConfidence =
     binaryRule (guardClauseFunctions aggregate) (nonGuardClauseFunctions aggregate)
       (JStr ''prefer'') (JStr ''neutral'')
       (sparseEvidence minEvidence) (minConfidence) False Deterministic"

definition quotes :: "FileSignals \<Rightarrow> nat \<Rightarrow> rat \<Rightarrow> jsval InferredRule" where
  "quotes aggregate minEvidence minConfidence =
     binaryRule (quotesSingle aggregate) (quotesDouble aggregate)
       (JStr ''single'') (JStr ''double'')
       (minEvidence) (minConfidence) False Deterministic"

definition semicolons :: "FileSignals \<Rightarrow> nat \<Rightarrow> rat \<Rightarrow> jsval InferredRule" where
  "semicolons aggregate minEvidence minConfidence =
     binaryRule (semicolonsYes aggregate) (semicolonsNo aggregate)
       (JStr ''always'') (JStr ''never'')
       (minEvidence) (minConfidence) False Deterministic"

definition trailingCommas :: "FileSignals \<Rightarrow> nat \<Rightarrow> rat \<Rightarrow> jsval InferredRule" where
  "trailingCommas aggregate minEvidence minConfidence =
     binaryRule (trailingCommaYes aggregate) (trailingCommaNo aggregate)
       (JStr ''always-multiline'') (JStr ''never'')
       (minEvidence) (minConfidence) False Deterministic"

definition variableDeclarationCommaPlacement :: "FileSignals \<Rightarrow> nat \<Rightarrow> rat \<Rightarrow> jsval InferredRule" where
  "variableDeclarationCommaPlacement aggregate minEvidence minConfidence =
     binaryRule (variableDeclarationCommaLeading aggregate) (variableDeclarationCommaTrailing aggregate)
       (JStr ''leading'') (JStr ''trailing'')
       (sparseEvidence minEvidence) (minConfidence) False Deterministic"

definition yodaConditions :: "FileSignals \<Rightarrow> nat \<Rightarrow> rat \<Rightarrow> jsval InferredRule" where
  "yodaConditions aggregate minEvidence minConfidence =
     binaryRule (yodaConditionsYes aggregate) (yodaConditionsNo aggregate)
       (JStr ''always'') (JStr ''never'')
       (sparseEvidence minEvidence) (minConfidence) False Deterministic"

definition multilineTernaryOperatorPlacement :: "FileSignals \<Rightarrow> nat \<Rightarrow> rat \<Rightarrow> jsval InferredRule" where
  "multilineTernaryOperatorPlacement aggregate minEvidence minConfidence =
     binaryRule (ternaryMultilineLeading aggregate) (ternaryMultilineTrailing aggregate)
       (JStr ''leading'') (JStr ''trailing'')
       (ternaryEvidence minEvidence) (minConfidence) False Deterministic"

definition indentationKind :: "FileSignals \<Rightarrow> nat \<Rightarrow> rat \<Rightarrow> jsval InferredRule" where
  "indentationKind aggregate minEvidence minConfidence =
     binaryRule (indentSpaceLines aggregate) (indentTabLines aggregate)
       (JStr ''space'') (JStr ''tab'')
       (minEvidence) (minConfidence) True Deterministic"

definition switchCaseIndentation :: "FileSignals \<Rightarrow> nat \<Rightarrow> rat \<Rightarrow> jsval InferredRule" where
  "switchCaseIndentation aggregate minEvidence minConfidence =
     binaryRule (switchCaseIndented aggregate) (switchCaseFlat aggregate)
       (JStr ''indent'') (JStr ''flat'')
       (max 2 (minEvidence div 4)) (minConfidence) True Deterministic"

definition switchCaseBreakIndentation :: "FileSignals \<Rightarrow> nat \<Rightarrow> rat \<Rightarrow> jsval InferredRule" where
  "switchCaseBreakIndentation aggregate minEvidence minConfidence =
     binaryRule (switchCaseBreakMatchCase aggregate) (switchCaseBreakIndented aggregate)
       (JStr ''match-case'') (JStr ''indent'')
       (max 2 (minEvidence div 4)) (max (55 / 100) (minConfidence - 2 / 10)) True Deterministic"

definition multilineCallArgumentLayout :: "FileSignals \<Rightarrow> nat \<Rightarrow> rat \<Rightarrow> jsval InferredRule" where
  "multilineCallArgumentLayout aggregate minEvidence minConfidence =
     binaryRule (multilineCallArgumentCompact aggregate) (multilineCallArgumentExpanded aggregate)
       (JStr ''compact'') (JStr ''expanded'')
       (sparseEvidence minEvidence) (minConfidence) False Deterministic"

definition blankLineBeforeReturn :: "FileSignals \<Rightarrow> nat \<Rightarrow> rat \<Rightarrow> jsval InferredRule" where
  "blankLineBeforeReturn aggregate minEvidence minConfidence =
     binaryRule (blankLineBeforeReturnYes aggregate) (blankLineBeforeReturnNo aggregate)
       (JStr ''always'') (JStr ''never'')
       (sparseEvidence minEvidence) (minConfidence) False Deterministic"

definition blankLineBeforeIf :: "FileSignals \<Rightarrow> nat \<Rightarrow> rat \<Rightarrow> jsval InferredRule" where
  "blankLineBeforeIf aggregate minEvidence minConfidence =
     binaryRule (blankLineBeforeIfYes aggregate) (blankLineBeforeIfNo aggregate)
       (JStr ''always'') (JStr ''never'')
       (sparseEvidence minEvidence) (minConfidence) False Deterministic"

definition importsOrdering :: "FileSignals \<Rightarrow> nat \<Rightarrow> rat \<Rightarrow> jsval InferredRule" where
  "importsOrdering aggregate minEvidence minConfidence =
     binaryRule (importSortedGroups aggregate) (importUnsortedGroups aggregate)
       (JStr ''alphabetical'') (JStr ''none'')
       (max 2 (minEvidence div 4)) (minConfidence) False Deterministic"

definition indentationSize :: "FileSignals \<Rightarrow> nat \<Rightarrow> rat \<Rightarrow> jsval InferredRule" where
  "indentationSize aggregate minEvidence minConfidence =
     (let kind = indentationKind aggregate minEvidence minConfidence;
          spaces = (rstatus kind = Enforced \<and> rvalue kind = Some (JStr ''space''))
      in \<lparr>rvalue = (if spaces
                     then Some (JNum (Finite (of_int (inferIndentUnit (indentSpaceSizes aggregate)))))
                     else None),
          rstatus = (if spaces then Enforced else Undetermined),
          confidence = confidence kind,
          evidenceCount = indentSpaceLines aggregate,
          provenance = Deterministic, autoFixSafe = True\<rparr>)"

definition memberExpressionIndentation :: "FileSignals \<Rightarrow> nat \<Rightarrow> rat \<Rightarrow> jsval InferredRule" where
  "memberExpressionIndentation aggregate minEvidence minConfidence =
     (let memberExpressionFileVotes = memberExprAlignedFiles aggregate + memberExprIndentedFiles aggregate;
          memberExpressionFileMinEvidence = (if minEvidence \<le> 2 then 1 else 2);
          memberAlignedEvidence = (if memberExpressionFileVotes > 0
             then memberExprAlignedFiles aggregate else memberExprAligned aggregate);
          memberIndentedEvidence = (if memberExpressionFileVotes > 0
             then memberExprIndentedFiles aggregate else memberExprIndented aggregate)
      in binaryRule memberAlignedEvidence memberIndentedEvidence
           (JStr ''aligned'') (JStr ''indented'')
           (if memberExpressionFileVotes > 0 then memberExpressionFileMinEvidence
            else max 2 (minEvidence div 4))
           (if memberExpressionFileVotes > 0 then max (6 / 10) (minConfidence - 15 / 100)
            else minConfidence)
           False Deterministic)"

definition blankLineDensity :: "FileSignals \<Rightarrow> nat \<Rightarrow> rat \<Rightarrow> jsval InferredRule" where
  "blankLineDensity aggregate minEvidence minConfidence =
     densityRule (blankLines aggregate) (totalLines aggregate) minEvidence minConfidence"

definition lineWidth :: "FileSignals \<Rightarrow> nat \<Rightarrow> rat \<Rightarrow> jsval InferredRule" where
  "lineWidth aggregate minEvidence minConfidence =
     inferLineWidth (lineLengthMax aggregate)
       (int (totalLines aggregate) - int (blankLines aggregate)) minEvidence minConfidence"

text \<open>
  \<open>profile.rules\<close> as \<open>inferProfile\<close> builds it: an object of sections, each an object of
  rules, in the order of the object literal.
\<close>

type_synonym rules = "(string \<times> (string \<times> jsval InferredRule) list) list"

definition inferProfile_rules :: "FileSignals \<Rightarrow> nat \<Rightarrow> rat \<Rightarrow> rules" where
  "inferProfile_rules aggregate minEvidence minConfidence =
     [(''comments'',
        [(''lineCommentSpacing'', commentsLine aggregate minEvidence minConfidence),
         (''preferJsdocForFunctions'', jsdoc aggregate minEvidence minConfidence),
         (''commentBlockFraming'', commentBlockFraming aggregate minEvidence minConfidence),
         (''trailingInlineCommentAlignment'',
            trailingInlineCommentAlignment aggregate minEvidence minConfidence)]),
      (''naming'',
        [(''functionWordCountPreference'', fnWords aggregate minEvidence minConfidence),
         (''functionExpressionNamingPreference'',
            fnExpressionNaming aggregate minEvidence minConfidence)]),
      (''controlFlow'',
        [(''singleLineIfBraces'', braces aggregate minEvidence minConfidence),
         (''guardClauses'', guardClauses aggregate minEvidence minConfidence)]),
      (''syntax'',
        [(''quotes'', quotes aggregate minEvidence minConfidence),
         (''semicolons'', semicolons aggregate minEvidence minConfidence),
         (''trailingCommas'', trailingCommas aggregate minEvidence minConfidence),
         (''variableDeclarationCommaPlacement'',
            variableDeclarationCommaPlacement aggregate minEvidence minConfidence),
         (''yodaConditions'', yodaConditions aggregate minEvidence minConfidence),
         (''multilineTernaryOperatorPlacement'',
            multilineTernaryOperatorPlacement aggregate minEvidence minConfidence),
         (''lineWidth'', lineWidth aggregate minEvidence minConfidence)]),
      (''whitespace'',
        [(''indentationKind'', indentationKind aggregate minEvidence minConfidence),
         (''indentationSize'', indentationSize aggregate minEvidence minConfidence),
         (''switchCaseIndentation'', switchCaseIndentation aggregate minEvidence minConfidence),
         (''switchCaseBreakIndentation'',
            switchCaseBreakIndentation aggregate minEvidence minConfidence),
         (''memberExpressionIndentation'',
            memberExpressionIndentation aggregate minEvidence minConfidence),
         (''multilineCallArgumentLayout'',
            multilineCallArgumentLayout aggregate minEvidence minConfidence),
         (''blankLineDensity'', blankLineDensity aggregate minEvidence minConfidence),
         (''blankLineBeforeReturn'', blankLineBeforeReturn aggregate minEvidence minConfidence),
         (''blankLineBeforeIf'', blankLineBeforeIf aggregate minEvidence minConfidence)]),
      (''imports'',
        [(''ordering'', importsOrdering aggregate minEvidence minConfidence)])]"


text \<open>\<open>createSignals()\<close>: every counter zero, an empty histogram.\<close>

definition createSignals :: FileSignals where
  "createSignals =
     \<lparr>lineCommentSpace = 0, lineCommentTight = 0, functionsTotal = 0, functionsWithJsdoc = 0,
      functionNamesSingle = 0, functionNamesMulti = 0, functionExprNamed = 0,
      functionExprAnonymous = 0, ifWithBraces = 0, ifWithoutBraces = 0, quotesSingle = 0,
      quotesDouble = 0, semicolonsYes = 0, semicolonsNo = 0, trailingCommaYes = 0,
      trailingCommaNo = 0, variableDeclarationCommaLeading = 0,
      variableDeclarationCommaTrailing = 0, indentSpaceLines = 0, indentTabLines = 0,
      switchCaseIndented = 0, switchCaseFlat = 0, switchCaseBreakMatchCase = 0,
      switchCaseBreakIndented = 0, memberExprAligned = 0, memberExprIndented = 0,
      memberExprAlignedFiles = 0, memberExprIndentedFiles = 0, yodaConditionsYes = 0,
      yodaConditionsNo = 0, ternaryMultilineLeading = 0, ternaryMultilineTrailing = 0,
      guardClauseFunctions = 0, nonGuardClauseFunctions = 0, blankLineBeforeReturnYes = 0,
      blankLineBeforeReturnNo = 0, blankLineBeforeIfYes = 0, blankLineBeforeIfNo = 0,
      commentFramedBlocks = 0, commentPlainBlocks = 0, trailingInlineCommentAlignedPairs = 0,
      trailingInlineCommentUnalignedPairs = 0, multilineCallArgumentCompact = 0,
      multilineCallArgumentExpanded = 0, lineLengthMax = 0, blankLines = 0, totalLines = 0,
      importSortedGroups = 0, importUnsortedGroups = 0, indentSpaceSizes = []\<rparr>"

text \<open>The invariant of \<open>InferredRule\<close>: the value is null exactly when the rule is undetermined.\<close>

definition rule_inv :: "'a InferredRule \<Rightarrow> bool" where
  "rule_inv r = ((rvalue r = None) = (rstatus r = Undetermined))"

definition rules_inv :: "rules \<Rightarrow> bool" where
  "rules_inv rs = list_all (\<lambda>section. list_all (\<lambda>entry. rule_inv (snd entry)) (snd section)) rs"

section \<open>External augmentation (src/core/llm-augment.js)\<close>

record descriptor =
  dvalues :: "jsval list"
  dautoFixSafe :: bool

definition KNOWN_RULES :: "(string \<times> descriptor) list" where
  "KNOWN_RULES =
     [(''comments.lineCommentSpacing'',
         \<lparr>dvalues = [JStr ''space-after-slashes'', JStr ''tight''], dautoFixSafe = True\<rparr>),
      (''comments.preferJsdocForFunctions'',
         \<lparr>dvalues = [JBool True, JBool False], dautoFixSafe = False\<rparr>),
      (''comments.commentBlockFraming'',
         \<lparr>dvalues = [JStr ''framed'', JStr ''plain''], dautoFixSafe = False\<rparr>),
      (''comments.trailingInlineCommentAlignment'',
         \<lparr>dvalues = [JStr ''aligned'', JStr ''single-space''], dautoFixSafe = False\<rparr>),
      (''naming.functionWordCountPreference'',
         \<lparr>dvalues = [JStr ''single-word'', JStr ''multi-word''], dautoFixSafe = False\<rparr>),
      (''naming.functionExpressionNamingPreference'',
         \<lparr>dvalues = [JStr ''named'', JStr ''allow-anonymous''], dautoFixSafe = False\<rparr>),
      (''controlFlow.singleLineIfBraces'',
         \<lparr>dvalues = [JStr ''omit'', JStr ''require''], dautoFixSafe = False\<rparr>),
      (''controlFlow.guardClauses'',
         \<lparr>dvalues = [JStr ''prefer'', JStr ''neutral''], dautoFixSafe = False\<rparr>),
      (''syntax.quotes'',
         \<lparr>dvalues = [JStr ''single'', JStr ''double''], dautoFixSafe = False\<rparr>),
      (''syntax.semicolons'',
         \<lparr>dvalues = [JStr ''always'', JStr ''never''], dautoFixSafe = False\<rparr>),
      (''syntax.trailingCommas'',
         \<lparr>dvalues = [JStr ''always-multiline'', JStr ''never''], dautoFixSafe = False\<rparr>),
      (''syntax.variableDeclarationCommaPlacement'',
         \<lparr>dvalues = [JStr ''leading'', JStr ''trailing''], dautoFixSafe = False\<rparr>),
      (''syntax.yodaConditions'',
         \<lparr>dvalues = [JStr ''always'', JStr ''never''], dautoFixSafe = True\<rparr>),
      (''syntax.multilineTernaryOperatorPlacement'',
         \<lparr>dvalues = [JStr ''leading'', JStr ''trailing''], dautoFixSafe = False\<rparr>),
      (''syntax.lineWidth'', \<lparr>dvalues = [], dautoFixSafe = False\<rparr>),
      (''whitespace.indentationKind'',
         \<lparr>dvalues = [JStr ''space'', JStr ''tab''], dautoFixSafe = True\<rparr>),
      (''whitespace.indentationSize'', \<lparr>dvalues = [], dautoFixSafe = True\<rparr>),
      (''whitespace.switchCaseIndentation'',
         \<lparr>dvalues = [JStr ''indent'', JStr ''flat''], dautoFixSafe = True\<rparr>),
      (''whitespace.switchCaseBreakIndentation'',
         \<lparr>dvalues = [JStr ''match-case'', JStr ''indent''], dautoFixSafe = True\<rparr>),
      (''whitespace.memberExpressionIndentation'',
         \<lparr>dvalues = [JStr ''aligned'', JStr ''indented''], dautoFixSafe = False\<rparr>),
      (''whitespace.multilineCallArgumentLayout'',
         \<lparr>dvalues = [JStr ''compact'', JStr ''expanded''], dautoFixSafe = False\<rparr>),
      (''whitespace.blankLineDensity'',
         \<lparr>dvalues = [JStr ''compact'', JStr ''spacious''], dautoFixSafe = False\<rparr>),
      (''whitespace.blankLineBeforeReturn'',
         \<lparr>dvalues = [JStr ''always'', JStr ''never''], dautoFixSafe = False\<rparr>),
      (''whitespace.blankLineBeforeIf'',
         \<lparr>dvalues = [JStr ''always'', JStr ''never''], dautoFixSafe = False\<rparr>),
      (''imports.ordering'',
         \<lparr>dvalues = [JStr ''alphabetical'', JStr ''none''], dautoFixSafe = False\<rparr>)]"

text \<open>
  \<open>KNOWN_RULES[rulePath]\<close> is a property read on an object literal.  Besides the own
  properties above it finds what every object inherits from \<open>Object.prototype\<close>; such a
  value is truthy but has no \<open>values\<close>, and \<open>normalizeValue\<close> then fails on
  \<open>descriptor.values.length\<close>.  The three outcomes of the read are kept apart.
\<close>

definition inheritedNames :: "string list" where
  "inheritedNames =
     [''constructor'', ''toString'', ''toLocaleString'', ''valueOf'', ''hasOwnProperty'',
      ''isPrototypeOf'', ''propertyIsEnumerable'', ''__proto__'', ''__defineGetter__'',
      ''__defineSetter__'', ''__lookupGetter__'', ''__lookupSetter__'']"

datatype known = Known descriptor | Inherited | Unknown

definition knownRule :: "string \<Rightarrow> known" where
  "knownRule rulePath =
     (case map_of KNOWN_RULES rulePath of
        Some d \<Rightarrow> Known d
      | None \<Rightarrow> if rulePath \<in> set inheritedNames then Inherited else Unknown)"

datatype error = TypeError

text \<open>\<open>clamp01(value)\<close>.\<close>

definition clamp01 :: "jsnum \<Rightarrow> rat" where
  "clamp01 v =
     (case v of
        Finite r \<Rightarrow> if r < 0 then 0 else if r > 1 then 1 else r
      | _ \<Rightarrow> 0)"

text \<open>\<open>path.split('.')\<close>.\<close>

fun split_dot :: "string \<Rightarrow> string list" where
  "split_dot [] = [[]]"
| "split_dot (c # cs) =
     (if c = CHR ''.'' then [] # split_dot cs
      else case split_dot cs of
             [] \<Rightarrow> [[c]]
           | w # ws \<Rightarrow> (c # w) # ws)"

text \<open>
  The destructuring \<open>const [section, name] = path.split('.')\<close> followed by
  \<open>if (!section || !name) return\<close>: the first two pieces, both non-empty.
\<close>

definition sectionAndName :: "string \<Rightarrow> (string \<times> string) option" where
  "sectionAndName path =
     (case split_dot path of
        s # n # _ \<Rightarrow> if s = [] \<or> n = [] then None else Some (s, n)
      | _ \<Rightarrow> None)"

text \<open>\<open>readRule(path, profile)\<close>, on \<open>profile.rules\<close>.\<close>

definition readRule :: "string \<Rightarrow> rules \<Rightarrow> jsval InferredRule option" where
  "readRule path rs =
     (case sectionAndName path of
        None \<Rightarrow> None
      | Some (s, n) \<Rightarrow>
          (case map_of rs s of
             None \<Rightarrow> None
           | Some sectionValue \<Rightarrow> map_of sectionValue n))"

text \<open>
  Assignment to a property of an object (or to a key of a \<open>Map\<close>): in place if the key
  exists, appended otherwise.
\<close>

fun obj_set :: "'k \<Rightarrow> 'v \<Rightarrow> ('k \<times> 'v) list \<Rightarrow> ('k \<times> 'v) list" where
  "obj_set k v [] = [(k, v)]"
| "obj_set k v (p # ps) = (if fst p = k then (k, v) # ps else p # obj_set k v ps)"

text \<open>\<open>writeRule(path, profile, rule)\<close>.\<close>

definition writeRule :: "string \<Rightarrow> rules \<Rightarrow> jsval InferredRule \<Rightarrow> rules" where
  "writeRule path rs rule =
     (case sectionAndName path of
        None \<Rightarrow> rs
      | Some (s, n) \<Rightarrow>
          (case map_of rs s of
             None \<Rightarrow> rs
           | Some sectionValue \<Rightarrow> obj_set s (obj_set n rule sectionValue) rs))"

text \<open>
  \<open>shouldReplace(existing, next)\<close>.  The two confidences are doubles, \<open>0.05\<close> is the double
  nearest to 5/100, and \<open>existing.confidence + 0.05\<close> is the double nearest to the sum of
  the two doubles.
\<close>

definition shouldReplace :: "'a InferredRule option \<Rightarrow> 'a InferredRule \<Rightarrow> bool" where
  "shouldReplace existing next =
     (case existing of
        None \<Rightarrow> True
      | Some e \<Rightarrow>
          if rstatus e \<noteq> Enforced \<and> rstatus next = Enforced then True
          else if rstatus e = rstatus next
                  \<and> double (confidence next) \<ge> double (double (confidence e) + double (5 / 100))
               then True
          else False)"

text \<open>\<open>Math.round\<close> on a finite number: the nearest integer, a half going up.\<close>

definition js_round :: "rat \<Rightarrow> int" where
  "js_round r = \<lfloor>r + 1 / 2\<rfloor>"

text \<open>\<open>normalizeValue(value, descriptor)\<close>; the result \<open>null\<close> is \<open>None\<close>.\<close>

definition normalizeValue :: "jsval \<Rightarrow> descriptor \<Rightarrow> jsval option" where
  "normalizeValue v d =
     (if dvalues d = [] then
        (case v of
           JNum (Finite r) \<Rightarrow> Some (JNum (Finite (of_int (max 0 (js_round r)))))
         | _ \<Rightarrow> None)
      else if v \<in> set (dvalues d) then Some v else None)"

text \<open>
  \<open>LlmRuleSuggestion\<close>: \<open>{ value?: unknown, confidence?: number, evidenceCount?: number }\<close>.
  An absent \<open>value\<close> is \<open>JUndefined\<close>; an absent number is \<open>None\<close>.
\<close>

record LlmRuleSuggestion =
  svalue :: jsval
  sconfidence :: "jsnum option"
  sevidenceCount :: "jsnum option"

text \<open>\<open>Number.isInteger(x) ? Math.max(0, Number(x)) : sampledFiles.length\<close>.\<close>

definition suggestedEvidence :: "jsnum option \<Rightarrow> nat \<Rightarrow> nat" where
  "suggestedEvidence e sampled =
     (case e of
        Some (Finite r) \<Rightarrow> if r = of_int \<lfloor>r\<rfloor> then nat (max 0 \<lfloor>r\<rfloor>) else sampled
      | _ \<Rightarrow> sampled)"

text \<open>The rule \<open>nextRule\<close> built from a suggestion whose value was accepted.\<close>

definition nextRule ::
  "LlmRuleSuggestion \<Rightarrow> jsval \<Rightarrow> descriptor \<Rightarrow> nat \<Rightarrow> nat \<Rightarrow> rat \<Rightarrow> jsval InferredRule" where
  "nextRule suggestion normalizedValue d sampled minEvidence minConfidence =
     (let conf = clamp01 (case sconfidence suggestion of None \<Rightarrow> Finite 0 | Some c \<Rightarrow> c);
          evidence = suggestedEvidence (sevidenceCount suggestion) sampled;
          st = (if evidence \<ge> minEvidence \<and> conf \<ge> minConfidence
                then Enforced else Undetermined)
      in \<lparr>rvalue = (if st = Enforced then Some normalizedValue else None), rstatus = st,
          confidence = conf, evidenceCount = evidence,
          provenance = LlmAugmented, autoFixSafe = dautoFixSafe d\<rparr>)"

text \<open>
  One turn of the loop over \<open>Object.entries(suggestions)\<close> in
  \<open>maybeAugmentProfileWithLlm\<close>.  The state is \<open>profile.rules\<close> and the counter
  \<open>applied\<close>.  A raw suggestion that is not an object is \<open>None\<close>.
\<close>

definition augmentEntry ::
  "nat \<Rightarrow> nat \<Rightarrow> rat \<Rightarrow> rules \<times> nat \<Rightarrow> string \<times> LlmRuleSuggestion option
     \<Rightarrow> error + rules \<times> nat" where
  "augmentEntry sampled minEvidence minConfidence state entry =
     (case knownRule (fst entry) of
        Unknown \<Rightarrow> Inr state
      | Inherited \<Rightarrow>
          (case snd entry of None \<Rightarrow> Inr state | Some _ \<Rightarrow> Inl TypeError)
      | Known d \<Rightarrow>
          (case snd entry of
             None \<Rightarrow> Inr state
           | Some suggestion \<Rightarrow>
               (case normalizeValue (svalue suggestion) d of
                  None \<Rightarrow> Inr state
                | Some normalizedValue \<Rightarrow>
                    let next = nextRule suggestion normalizedValue d sampled minEvidence minConfidence;
                        current = readRule (fst entry) (fst state)
                    in if \<not> shouldReplace current next then Inr state
                       else Inr (writeRule (fst entry) (fst state) next, snd state + 1))))"

fun augmentLoop ::
  "nat \<Rightarrow> nat \<Rightarrow> rat \<Rightarrow> rules \<times> nat \<Rightarrow> (string \<times> LlmRuleSuggestion option) list
     \<Rightarrow> error + rules \<times> nat" where
  "augmentLoop sampled minEvidence minConfidence state [] = Inr state"
| "augmentLoop sampled minEvidence minConfidence state (entry # entries) =
     (case augmentEntry sampled minEvidence minConfidence state entry of
        Inl e \<Rightarrow> Inl e
      | Inr state' \<Rightarrow> augmentLoop sampled minEvidence minConfidence state' entries)"

text \<open>
  \<open>maybeAugmentProfileWithLlm(input)\<close>.  The augmenter is an external collaborator: its
  answer, after \<open>normalizeRulesMap\<close>, is the argument \<open>suggestions\<close> (\<open>None\<close> when there is no
  usable answer).  \<open>sampled\<close> is \<open>sampledFiles.length\<close>.  The result is \<open>profile.rules\<close> and
  the number of suggestions applied.
\<close>

definition maybeAugmentProfileWithLlm ::
  "rules \<Rightarrow> nat \<Rightarrow> nat \<Rightarrow> rat \<Rightarrow> (string \<times> LlmRuleSuggestion option) list option
     \<Rightarrow> error + rules \<times> nat" where
  "maybeAugmentProfileWithLlm profileRules sampled minEvidence minConfidence suggestions =
     (if sampled = 0 then Inr (profileRules, 0)
      else case suggestions of
             None \<Rightarrow> Inr (profileRules, 0)
           | Some entries \<Rightarrow> augmentLoop sampled minEvidence minConfidence (profileRules, 0) entries)"


text \<open>A suggestion used in the examples below: too little evidence to be enforced.\<close>

definition demoSuggestion :: LlmRuleSuggestion where
  "demoSuggestion = \<lparr>svalue = JStr ''single'', sconfidence = Some (Finite (1 / 2)),
      sevidenceCount = Some (Finite 1)\<rparr>"

text \<open>
  Nine strings in single quotes and one in double quotes, and a suggestion with the
  confidence \<open>0.95\<close>, also with too little evidence to be enforced.
\<close>

definition nineOfTen :: FileSignals where
  "nineOfTen = createSignals\<lparr>quotesSingle := 9, quotesDouble := 1\<rparr>"

definition nearSuggestion :: LlmRuleSuggestion where
  "nearSuggestion = \<lparr>svalue = JStr ''single'', sconfidence = Some (Finite (95 / 100)),
      sevidenceCount = Some (Finite 1)\<rparr>"


section \<open>Strings of the source text\<close>

text \<open>
  \<open>\s\<close> of a JavaScript regular expression, on the code units below 256: tab, line feed,
  vertical tab, form feed, carriage return, space and no-break space.
\<close>

definition js_space :: "char \<Rightarrow> bool" where
  "js_space c = (c \<in> {CHR 0x09, CHR 0x0A, CHR 0x0B, CHR 0x0C, CHR 0x0D, CHR 0x20, CHR 0xA0})"

text \<open>\<open>source.split('\n')\<close>: never empty, the last piece is what follows the last line feed.\<close>

fun split_lines :: "string \<Rightarrow> string list" where
  "split_lines [] = [[]]"
| "split_lines (c # cs) =
     (if c = CHR 0x0A then [] # split_lines cs
      else case split_lines cs of
             [] \<Rightarrow> [[c]]
           | l # ls \<Rightarrow> (c # l) # ls)"

text \<open>\<open>s.slice(a, b)\<close> for offsets that are natural numbers.\<close>

definition slice :: "string \<Rightarrow> nat \<Rightarrow> nat \<Rightarrow> string" where
  "slice s a b = take (b - a) (drop a s)"

text \<open>\<open>s.includes(p)\<close>.\<close>

fun str_includes :: "string \<Rightarrow> string \<Rightarrow> bool" where
  "str_includes [] p = (p = [])"
| "str_includes (c # cs) p = (prefix p (c # cs) \<or> str_includes cs p)"

text \<open>\<open>line.match(/^\s*/)[0].length\<close>: the number of leading white-space characters.\<close>

definition leadingSpace :: "string \<Rightarrow> nat" where
  "leadingSpace line = length (takeWhile js_space line)"

text \<open>\<open>lines[i]\<close>: \<open>undefined\<close> beyond the end.\<close>

definition line_at :: "string list \<Rightarrow> nat \<Rightarrow> string option" where
  "line_at ls i = (if i < length ls then Some (ls ! i) else None)"

section \<open>Signal extraction: member chains (src/core/extractors/syntax.js)\<close>

text \<open>
  What the \<open>MemberExpression\<close> visitors read from a node: \<open>object.loc?.start.line\<close>,
  \<open>object.loc?.start.column\<close> and \<open>property.loc?.start.line\<close>; \<open>None\<close> stands for a value
  that is not a number.  Lines count from 1, columns from 0.
\<close>

record memberLoc =
  objectStartLine :: "nat option"
  objectStartColumn :: "nat option"
  memberLine :: "nat option"

text \<open>
  The \<open>MemberExpression\<close> visitor of \<open>extractFileSignals\<close>; \<open>lines\<close> is
  \<open>source.split('\n')\<close>.  The test \<open>/^\s*\./\<close> asks for a dot after the leading white space.
\<close>

definition visitMemberExpression :: "string list \<Rightarrow> FileSignals \<Rightarrow> memberLoc \<Rightarrow> FileSignals" where
  "visitMemberExpression lines signals node =
     (case (objectStartLine node, objectStartColumn node, memberLine node) of
        (Some oLine, Some oColumn, Some mLine) \<Rightarrow>
          if mLine \<le> oLine then signals
          else (case line_at lines (mLine - 1) of
                  None \<Rightarrow> signals
                | Some continuation \<Rightarrow>
                    if continuation = [] then signals
                    else if \<not> prefix ''.'' (dropWhile js_space continuation) then signals
                    else if leadingSpace continuation \<le> oColumn
                      then signals\<lparr>memberExprAligned := memberExprAligned signals + 1\<rparr>
                      else signals\<lparr>memberExprIndented := memberExprIndented signals + 1\<rparr>)
      | _ \<Rightarrow> signals)"

section \<open>Applying replacements (src/apply/style-normalization.js)\<close>

text \<open>\<open>{ start, end, text }\<close>; the offsets are JavaScript numbers holding integers.\<close>

record TextReplacement =
  rstart :: int
  rend :: int
  rtext :: string

text \<open>\<open>lineOffsets(source)\<close>: the offset at which each line begins.\<close>

fun lineOffsetsFrom :: "nat \<Rightarrow> string \<Rightarrow> nat list" where
  "lineOffsetsFrom i [] = []"
| "lineOffsetsFrom i (c # cs) =
     (if c = CHR 0x0A then (i + 1) # lineOffsetsFrom (i + 1) cs else lineOffsetsFrom (i + 1) cs)"

definition lineOffsets :: "string \<Rightarrow> nat list" where
  "lineOffsets source = 0 # lineOffsetsFrom 0 source"

datatype indentKind = SpaceIndent | TabIndent

text \<open>
  \<open>indentForColumn(column, indentKind, indentSize)\<close> for a column that is a natural
  number; \<open>indentSize || 2\<close> turns 0 into 2.
\<close>

definition indentForColumn :: "nat \<Rightarrow> indentKind \<Rightarrow> nat \<Rightarrow> string" where
  "indentForColumn column kind indentSize =
     (if kind \<noteq> TabIndent then replicate column CHR '' ''
      else let size = max 1 (if indentSize = 0 then 2 else indentSize)
           in replicate (column div size) CHR 0x09 @ replicate (column mod size) CHR '' '')"

text \<open>
  \<open>applyReplacements(source, replacements)\<close>.  \<open>Array.prototype.sort\<close> is stable, and so is
  \<open>sort_key\<close>; the comparator \<open>b.start - a.start\<close> orders by descending start.
\<close>

definition skipped :: "TextReplacement \<Rightarrow> bool" where
  "skipped r = (rstart r < 0 \<or> rend r < rstart r)"

definition applyOne :: "string \<Rightarrow> TextReplacement \<Rightarrow> string" where
  "applyOne next r =
     (if skipped r then next
      else take (nat (rstart r)) next @ rtext r @ drop (nat (rend r)) next)"

definition applyReplacements :: "string \<Rightarrow> TextReplacement list \<Rightarrow> string" where
  "applyReplacements source replacements =
     (if replacements = [] then source
      else foldl applyOne source (sort_key (\<lambda>r. - rstart r) replacements))"

text \<open>
  The specification's reading of the applier, for comparison: the result is assembled
  from the original string alone, going through the replacements by ascending start.
  \<open>spliceFrom source pos rs\<close> is the text from offset \<open>pos\<close> on.
\<close>

fun spliceFrom :: "string \<Rightarrow> nat \<Rightarrow> TextReplacement list \<Rightarrow> string" where
  "spliceFrom source pos [] = drop pos source"
| "spliceFrom source pos (r # rs) =
     slice source pos (nat (rstart r)) @ rtext r @ spliceFrom source (nat (rend r)) rs"

definition applyAgainstOriginal :: "string \<Rightarrow> TextReplacement list \<Rightarrow> string" where
  "applyAgainstOriginal source replacements =
     spliceFrom source 0 (sort_key rstart (filter (\<lambda>r. \<not> skipped r) replacements))"

text \<open>
  Two replacements are apart when they start at different offsets and one ends no later
  than the other starts.  A list is separated when its replacements that are not skipped
  are pairwise apart, and in bounds when none of them ends beyond it.
\<close>

definition apart :: "TextReplacement \<Rightarrow> TextReplacement \<Rightarrow> bool" where
  "apart a b = (rstart a \<noteq> rstart b \<and> (rend a \<le> rstart b \<or> rend b \<le> rstart a))"

definition separated :: "TextReplacement list \<Rightarrow> bool" where
  "separated rs = sorted_wrt apart (filter (\<lambda>r. \<not> skipped r) rs)"

definition inBounds :: "string \<Rightarrow> TextReplacement list \<Rightarrow> bool" where
  "inBounds source rs = list_all (\<lambda>r. skipped r \<or> rend r \<le> int (length source)) rs"


text \<open>A replacement that is applied and lies inside the source.\<close>

definition fits :: "string \<Rightarrow> TextReplacement \<Rightarrow> bool" where
  "fits s r = (0 \<le> rstart r \<and> rstart r \<le> rend r \<and> rend r \<le> int (length s))"


section \<open>Node signatures (src/apply/style-normalization.js)\<close>

text \<open>Reading a property: \<open>undefined\<close> when the value is not an object or has no such key.\<close>

fun field :: "string \<Rightarrow> 'n jv \<Rightarrow> 'n jv" where
  "field k (JObj fs) = (case map_of fs k of Some v \<Rightarrow> v | None \<Rightarrow> JUndefined)"
| "field k _ = JUndefined"

text \<open>The keys that \<open>sanitizeForSignature\<close> leaves out.\<close>

definition droppedKey :: "string \<Rightarrow> bool" where
  "droppedKey key =
     (key = ''start'' \<or> key = ''end'' \<or> key = ''range'' \<or> key = ''loc'' \<or> key = ''extra'' \<or>
      key = ''leadingComments'' \<or> key = ''trailingComments'' \<or> key = ''innerComments'')"

text \<open>
  \<open>sanitizeForSignature(value)\<close>: arrays are mapped, primitives returned as they are, and an
  object is rebuilt from its entries without the dropped keys.
\<close>

fun sanitizeForSignature :: "'n jv \<Rightarrow> 'n jv"
  and sanitizeElems :: "'n jv list \<Rightarrow> 'n jv list"
  and sanitizeEntries :: "(string \<times> 'n jv) list \<Rightarrow> (string \<times> 'n jv) list" where
  "sanitizeForSignature (JArr xs) = JArr (sanitizeElems xs)"
| "sanitizeForSignature (JObj fs) = JObj (sanitizeEntries fs)"
| "sanitizeForSignature JUndefined = JUndefined"
| "sanitizeForSignature JNull = JNull"
| "sanitizeForSignature (JBool b) = JBool b"
| "sanitizeForSignature (JNum n) = JNum n"
| "sanitizeForSignature (JStr s) = JStr s"
| "sanitizeElems [] = []"
| "sanitizeElems (x # xs) = sanitizeForSignature x # sanitizeElems xs"
| "sanitizeEntries [] = []"
| "sanitizeEntries (e # es) =
     (if droppedKey (fst e) then sanitizeEntries es
      else (fst e, sanitizeForSignature (snd e)) # sanitizeEntries es)"

subsection \<open>\<open>JSON.stringify\<close>\<close>

text \<open>
  \<open>JSON.stringify\<close> belongs to the language, not to the repository; this is its
  definition in ECMAScript (\<open>SerializeJSONProperty\<close>, \<open>QuoteJSONString\<close>) on the values
  above.  How a number is printed is the parameter \<open>num\<close>.
\<close>

definition hexDigit :: "nat \<Rightarrow> char" where
  "hexDigit d = (''0123456789abcdef'' ! (d mod 16))"

definition escapeChar :: "char \<Rightarrow> string" where
  "escapeChar c =
     (if c = CHR 0x08 then [CHR 0x5C, CHR ''b'']
      else if c = CHR 0x09 then [CHR 0x5C, CHR ''t'']
      else if c = CHR 0x0A then [CHR 0x5C, CHR ''n'']
      else if c = CHR 0x0C then [CHR 0x5C, CHR ''f'']
      else if c = CHR 0x0D then [CHR 0x5C, CHR ''r'']
      else if c = CHR 0x22 then [CHR 0x5C, CHR 0x22]
      else if c = CHR 0x5C then [CHR 0x5C, CHR 0x5C]
      else if of_char c < (32 :: nat) then
        [CHR 0x5C, CHR ''u'', CHR ''0'', CHR ''0'',
         hexDigit (of_char c div 16), hexDigit (of_char c mod 16)]
      else [c])"

definition quoteJSONString :: "string \<Rightarrow> string" where
  "quoteJSONString s = CHR 0x22 # concat (map escapeChar s) @ [CHR 0x22]"

fun joinComma :: "string list \<Rightarrow> string" where
  "joinComma [] = []"
| "joinComma [x] = x"
| "joinComma (x # y # ys) = x @ '','' @ joinComma (y # ys)"

fun stringify :: "('n \<Rightarrow> string) \<Rightarrow> 'n jv \<Rightarrow> string option"
  and stringifyElems :: "('n \<Rightarrow> string) \<Rightarrow> 'n jv list \<Rightarrow> string list"
  and stringifyEntries :: "('n \<Rightarrow> string) \<Rightarrow> (string \<times> 'n jv) list \<Rightarrow> string list" where
  "stringify num JUndefined = None"
| "stringify num JNull = Some ''null''"
| "stringify num (JBool b) = Some (if b then ''true'' else ''false'')"
| "stringify num (JNum n) = Some (num n)"
| "stringify num (JStr s) = Some (quoteJSONString s)"
| "stringify num (JArr xs) = Some (''['' @ joinComma (stringifyElems num xs) @ '']'')"
| "stringify num (JObj fs) = Some (''{'' @ joinComma (stringifyEntries num fs) @ ''}'')"
| "stringifyElems num [] = []"
| "stringifyElems num (x # xs) =
     (case stringify num x of None \<Rightarrow> ''null'' | Some t \<Rightarrow> t) # stringifyElems num xs"
| "stringifyEntries num [] = []"
| "stringifyEntries num (e # es) =
     (case stringify num (snd e) of
        None \<Rightarrow> stringifyEntries num es
      | Some t \<Rightarrow> (quoteJSONString (fst e) @ '':'' @ t) # stringifyEntries num es)"

text \<open>\<open>nodeSignature(node)\<close>.\<close>

definition nodeSignature :: "('n \<Rightarrow> string) \<Rightarrow> 'n jv \<Rightarrow> string option" where
  "nodeSignature num node = stringify num (sanitizeForSignature node)"

text \<open>Natural numbers are printed in decimal.\<close>

fun natText :: "nat \<Rightarrow> string" where
  "natText n = (if n < 10 then [hexDigit n] else natText (n div 10) @ [hexDigit (n mod 10)])"


declare natText.simps [simp del]

section \<open>Syntax trees and the external parser\<close>

text \<open>
  A syntax-tree node is the plain object that \<open>@babel/parser\<close> builds: a \<open>type\<close>, the
  offsets \<open>start\<close> and \<open>end\<close>, \<open>loc\<close> with the line (from 1) and column (from 0) of both
  ends, and the children under their names.  The numbers are natural numbers.
\<close>

type_synonym node = "nat jv"

text \<open>
  The parser and the tree walker are libraries outside the repository.  \<open>babelParse\<close> is
  \<open>parse\<close> with the options of \<open>parseAst\<close>, \<open>None\<close> when it throws.  With \<open>errorRecovery\<close>
  the parser also returns a tree for some texts that are not programs, such as one that
  declares a name twice with \<open>let\<close>.  \<open>babelTraverse\<close> lists the nodes that \<open>traverse\<close>
  visits, in visiting order, each with its parent node (\<open>JUndefined\<close> when there is none);
  it is \<open>None\<close> when the walker throws, as it does with a \<open>TypeError\<close> on a tree that
  declares a name twice.  The visitors of this program only collect into local arrays and
  maps, so a walk that throws leaves nothing behind.
\<close>

record babel =
  babelParse :: "string \<Rightarrow> node option"
  babelTraverse :: "node \<Rightarrow> (node \<times> node) list option"

text \<open>\<open>parseAst(source)\<close>: the \<open>try\<close>/\<open>catch\<close> turns a throwing parser into \<open>null\<close>.\<close>

definition parseAst :: "babel \<Rightarrow> string \<Rightarrow> node option" where
  "parseAst b source = babelParse b source"

definition nodeType :: "'n jv \<Rightarrow> string" where
  "nodeType n = (case field ''type'' n of JStr s \<Rightarrow> s | _ \<Rightarrow> [])"

text \<open>
  \<open>traverse.default(ast, { T(path) {...}, ... })\<close>: the visited nodes whose type is listed,
  or the exception of the walker.  No function of the program catches that exception, so
  every function that walks a tree returns either a result or the exception.
\<close>

definition visit :: "babel \<Rightarrow> node \<Rightarrow> string list \<Rightarrow> error + (node \<times> node) list" where
  "visit b ast types =
     (case babelTraverse b ast of
        None \<Rightarrow> Inl TypeError
      | Some visited \<Rightarrow> Inr (filter (\<lambda>p. nodeType (fst p) \<in> set types) visited))"


text \<open>
  A chain of property reads such as \<open>node.object.loc?.start.line\<close>, and the test
  \<open>typeof x === 'number'\<close> on its result.
\<close>

definition pathGet :: "'n jv \<Rightarrow> string list \<Rightarrow> 'n jv" where
  "pathGet n ks = foldl (\<lambda>v k. field k v) n ks"

definition numAt :: "'n jv \<Rightarrow> string list \<Rightarrow> 'n option" where
  "numAt n ks = (case pathGet n ks of JNum x \<Rightarrow> Some x | _ \<Rightarrow> None)"

text \<open>Truthiness of a value, as in \<open>if (node.alternate)\<close>.\<close>

fun truthy :: "nat jv \<Rightarrow> bool" where
  "truthy JUndefined = False"
| "truthy JNull = False"
| "truthy (JBool b) = b"
| "truthy (JNum n) = (n \<noteq> 0)"
| "truthy (JStr s) = (s \<noteq> [])"
| "truthy (JArr xs) = True"
| "truthy (JObj fs) = True"

subsection \<open>More string operations\<close>





text \<open>The pair of tests \<open>/\/\//.test(s) || /\/\*/.test(s)\<close>.\<close>

definition hasComment :: "string \<Rightarrow> bool" where
  "hasComment s = (str_includes s ''//'' \<or> str_includes s ''/*'')"

definition hasNewline :: "string \<Rightarrow> bool" where
  "hasNewline s = (CHR 0x0A \<in> set s)"

text \<open>\<open>Math.max(1, Math.floor(indentSize || 2))\<close> for an indentation size that is a natural number.\<close>

definition indentStepOf :: "nat \<Rightarrow> nat" where
  "indentStepOf indentSize = max 1 (if indentSize = 0 then 2 else indentSize)"

section \<open>Member-chain indentation\<close>

datatype memberStyle = Aligned | Indented

text \<open>What the visitors read from a \<open>MemberExpression\<close> node.\<close>

definition memberLocOf :: "node \<Rightarrow> memberLoc" where
  "memberLocOf n =
     \<lparr>objectStartLine = numAt n [''object'', ''loc'', ''start'', ''line''],
      objectStartColumn = numAt n [''object'', ''loc'', ''start'', ''column''],
      memberLine = numAt n [''property'', ''loc'', ''start'', ''line'']\<rparr>"

text \<open>
  The \<open>MemberExpression\<close> visitor of \<open>applyMemberChainIndentation\<close>: the replacements it
  pushes for one node (none or one).  The test \<open>/^\s*(?:\?\.|\.)/\<close> asks for \<open>?.\<close> or a dot
  after the leading white space.
\<close>

definition chainReplacement ::
  "string list \<Rightarrow> nat list \<Rightarrow> memberStyle \<Rightarrow> indentKind \<Rightarrow> nat \<Rightarrow> memberLoc \<Rightarrow> TextReplacement list" where
  "chainReplacement lines offsets style kind indentSize loc =
     (case (objectStartLine loc, objectStartColumn loc, memberLine loc) of
        (Some oLine, Some oColumn, Some mLine) \<Rightarrow>
          if mLine \<le> oLine then []
          else (case line_at lines (mLine - 1) of
                  None \<Rightarrow> []
                | Some continuation \<Rightarrow>
                    if continuation = [] then []
                    else if \<not> (prefix ''?.'' (dropWhile js_space continuation)
                               \<or> prefix ''.'' (dropWhile js_space continuation)) then []
                    else
                      let continuationColumn = leadingSpace continuation;
                          desiredColumn = (if style = Aligned then oColumn
                                           else oColumn + indentStepOf indentSize)
                      in if continuationColumn = desiredColumn then []
                         else if \<not> mLine - 1 < length offsets then []
                         else [\<lparr>rstart = int (offsets ! (mLine - 1)),
                                 rend = int (offsets ! (mLine - 1) + continuationColumn),
                                 rtext = indentForColumn desiredColumn kind indentSize\<rparr>])
      | _ \<Rightarrow> [])"

text \<open>\<open>applyMemberChainIndentation(source, style, indentKind, indentSize)\<close>.\<close>

definition applyMemberChainIndentation ::
  "babel \<Rightarrow> string \<Rightarrow> memberStyle \<Rightarrow> indentKind \<Rightarrow> nat \<Rightarrow> error + string" where
  "applyMemberChainIndentation b source style kind indentSize =
     (case parseAst b source of
        None \<Rightarrow> Inr source
      | Some ast \<Rightarrow>
          (case visit b ast [''MemberExpression''] of
             Inl e \<Rightarrow> Inl e
           | Inr visited \<Rightarrow>
               Inr (applyReplacements source
                      (concat (map (\<lambda>p. chainReplacement (split_lines source) (lineOffsets source)
                                           style kind indentSize (memberLocOf (fst p)))
                                   visited)))))"


section \<open>Member-chain layout replayed from a reference\<close>

text \<open>
  \<open>collectCalleeMembers(callee)\<close>: the \<open>MemberExpression\<close> nodes along the callee, innermost
  first.  \<open>walk\<close> descends through \<open>callee\<close> of a call and \<open>object\<close> of a member expression.
\<close>

lemma size_map_of: "map_of fs k = Some v \<Longrightarrow> size v < size_list (size_prod (\<lambda>_. 0) size) fs"
  by (induction fs) (auto split: if_splits)

lemma size_field: "nodeType n \<noteq> [] \<Longrightarrow> size (field k n) < size n"
proof (cases n)
  case (JObj fs)
  assume "nodeType n \<noteq> []"
  with JObj obtain t where "map_of fs ''type'' = Some t"
    by (auto simp: nodeType_def split: option.splits)
  then have "0 < size_list (size_prod (\<lambda>_. 0) size) fs"
    using size_map_of by fastforce
  with JObj show ?thesis
    by (auto dest: size_map_of split: option.splits)
qed (auto simp: nodeType_def)

function collectCalleeMembers :: "node \<Rightarrow> node list" where
  "collectCalleeMembers n =
     (if nodeType n = ''CallExpression'' then collectCalleeMembers (field ''callee'' n)
      else if nodeType n = ''OptionalCallExpression'' then collectCalleeMembers (field ''callee'' n)
      else if nodeType n = ''MemberExpression'' then collectCalleeMembers (field ''object'' n) @ [n]
      else [])"
  by pat_completeness auto
termination
  by (relation "measure size") (auto intro: size_field)

declare collectCalleeMembers.simps [simp del]

text \<open>\<open>memberSeparator(source, member)\<close>; \<open>null\<close> is \<open>None\<close>.\<close>

record separator =
  sepStart :: nat
  sepEnd :: nat
  between :: string
  delimiter :: string
  sepHasNewline :: bool

definition memberSeparator :: "string \<Rightarrow> node \<Rightarrow> separator option" where
  "memberSeparator source member =
     (case (numAt member [''object'', ''end''], numAt member [''property'', ''start'']) of
        (Some oEnd, Some pStart) \<Rightarrow>
          let btw = slice source oEnd pStart in
          if \<not> str_includes btw ''.'' \<and> \<not> str_includes btw ''?.'' then None
          else Some \<lparr>sepStart = oEnd, sepEnd = pStart, between = btw,
                      delimiter = (if str_includes btw ''?.'' then ''?.'' else ''.''),
                      sepHasNewline = hasNewline btw\<rparr>
      | _ \<Rightarrow> None)"

text \<open>
  A \<open>Map\<close> from signatures to queues.  The key is what \<open>nodeSignature\<close> returns, a string or
  \<open>undefined\<close>.
\<close>

type_synonym 'v queues = "(string option \<times> 'v list) list"

definition queueOf :: "'v queues \<Rightarrow> string option \<Rightarrow> 'v list" where
  "queueOf m k = (case map_of m k of None \<Rightarrow> [] | Some q \<Rightarrow> q)"

text \<open>\<open>queue = layouts.get(key) ?? []; queue.push(v); layouts.set(key, queue)\<close>.\<close>

definition enqueue :: "string option \<Rightarrow> 'v \<Rightarrow> 'v queues \<Rightarrow> 'v queues" where
  "enqueue k v m = obj_set k (queueOf m k @ [v]) m"

text \<open>The segments of a chain in the reference: broken or not, and the column if broken.\<close>

type_synonym segment = "bool \<times> nat option"

text \<open>
  The visitors for \<open>CallExpression\<close> and \<open>OptionalCallExpression\<close> leave out a call that is
  the \<open>object\<close> of a member expression.
\<close>

definition isObjectOfMember :: "node \<times> node \<Rightarrow> bool" where
  "isObjectOfMember p =
     (truthy (snd p)
      \<and> (nodeType (snd p) = ''MemberExpression'' \<or> nodeType (snd p) = ''OptionalMemberExpression'')
      \<and> field ''object'' (snd p) = fst p)"

definition chainCalls :: "babel \<Rightarrow> node \<Rightarrow> error + node list" where
  "chainCalls b ast =
     (case visit b ast [''CallExpression'', ''OptionalCallExpression''] of
        Inl e \<Rightarrow> Inl e
      | Inr visited \<Rightarrow> Inr (map fst (filter (\<lambda>p. \<not> isObjectOfMember p) visited)))"

text \<open>\<open>collectNode(node)\<close> inside \<open>collectReferenceMemberChainLayouts\<close>.\<close>

definition referenceSegment :: "string \<Rightarrow> node \<Rightarrow> segment list" where
  "referenceSegment referenceSource member =
     (case memberSeparator referenceSource member of
        None \<Rightarrow> []
      | Some sep \<Rightarrow>
          [(sepHasNewline sep,
            (case numAt member [''property'', ''loc'', ''start'', ''column''] of
               Some propertyColumn \<Rightarrow>
                 if sepHasNewline sep then Some (propertyColumn - length (delimiter sep)) else None
             | None \<Rightarrow> None))])"

definition collectNode :: "string \<Rightarrow> segment list queues \<Rightarrow> node \<Rightarrow> segment list queues" where
  "collectNode referenceSource layouts n =
     (let members = collectCalleeMembers (field ''callee'' n) in
      if length members < 2 then layouts
      else let segments = concat (map (referenceSegment referenceSource) members) in
        if segments = [] \<or> length (filter fst segments) = 0 then layouts
        else enqueue (nodeSignature natText n) segments layouts)"

text \<open>\<open>collectReferenceMemberChainLayouts(referenceSource)\<close>.\<close>

definition collectReferenceMemberChainLayouts ::
  "babel \<Rightarrow> string \<Rightarrow> error + segment list queues" where
  "collectReferenceMemberChainLayouts b referenceSource =
     (case parseAst b referenceSource of
        None \<Rightarrow> Inr []
      | Some ast \<Rightarrow>
          (case chainCalls b ast of
             Inl e \<Rightarrow> Inl e
           | Inr calls \<Rightarrow> Inr (foldl (collectNode referenceSource) [] calls)))"

text \<open>The loop over \<open>index < total\<close> in \<open>alignNode\<close>, for one pair of segments.\<close>

definition alignSegment ::
  "nat \<Rightarrow> indentKind \<Rightarrow> nat \<Rightarrow> segment \<times> separator \<Rightarrow> TextReplacement list" where
  "alignSegment fallbackColumn kind indentSize p =
     (let target = fst p; current = snd p in
      if hasComment (between current) then []
      else if fst target \<and> \<not> sepHasNewline current then
        [\<lparr>rstart = int (sepStart current), rend = int (sepEnd current),
          rtext = CHR 0x0A #
            indentForColumn (case snd target of Some c \<Rightarrow> c | None \<Rightarrow> fallbackColumn)
              kind indentSize @ delimiter current\<rparr>]
      else if \<not> fst target \<and> sepHasNewline current then
        [\<lparr>rstart = int (sepStart current), rend = int (sepEnd current),
          rtext = delimiter current\<rparr>]
      else [])"

text \<open>
  \<open>alignNode(node)\<close> inside \<open>applyReferenceMemberChainBreaks\<close>.  The state is the map of
  queues, from which \<open>queue.shift()\<close> removes a layout, and the replacements pushed so far.
\<close>

definition alignNode ::
  "string \<Rightarrow> memberStyle \<Rightarrow> indentKind \<Rightarrow> nat
     \<Rightarrow> segment list queues \<times> TextReplacement list \<Rightarrow> node
     \<Rightarrow> segment list queues \<times> TextReplacement list" where
  "alignNode source style kind indentSize state n =
     (let key = nodeSignature natText n in
      case queueOf (fst state) key of
        [] \<Rightarrow> state
      | layout # rest \<Rightarrow>
          let baseColumn = (case numAt n [''loc'', ''start'', ''column''] of
                              Some c \<Rightarrow> c | None \<Rightarrow> 0);
              fallbackColumn = (if style = Aligned then baseColumn
                                else baseColumn + indentStepOf indentSize);
              members = collectCalleeMembers (field ''callee'' n);
              currentSegments =
                concat (map (\<lambda>member. case memberSeparator source member of
                                          None \<Rightarrow> [] | Some sep \<Rightarrow> [sep]) members)
          in (obj_set key rest (fst state),
              snd state @
                concat (map (alignSegment fallbackColumn kind indentSize)
                          (zip layout currentSegments))))"

text \<open>\<open>applyReferenceMemberChainBreaks(source, style, indentKind, indentSize, referenceLayouts)\<close>.\<close>

definition applyReferenceMemberChainBreaks ::
  "babel \<Rightarrow> string \<Rightarrow> memberStyle \<Rightarrow> indentKind \<Rightarrow> nat \<Rightarrow> segment list queues
     \<Rightarrow> error + string" where
  "applyReferenceMemberChainBreaks b source style kind indentSize referenceLayouts =
     (if referenceLayouts = [] then Inr source
      else case parseAst b source of
             None \<Rightarrow> Inr source
           | Some ast \<Rightarrow>
               (case chainCalls b ast of
                  Inl e \<Rightarrow> Inl e
                | Inr calls \<Rightarrow>
                    Inr (applyReplacements source
                           (snd (foldl (alignNode source style kind indentSize)
                                   (referenceLayouts, []) calls)))))"

text \<open>
  \<open>applyMemberExpressionIndentation(source, style, indentKind, indentSize, referenceSource)\<close>;
  a style or a reference that is \<open>null\<close> is \<open>None\<close>.  The reference is walked first, then
  the current source for the replay, then the result of the replay.
\<close>

definition applyMemberExpressionIndentation ::
  "babel \<Rightarrow> string \<Rightarrow> memberStyle option \<Rightarrow> indentKind \<Rightarrow> nat \<Rightarrow> string option
     \<Rightarrow> error + string" where
  "applyMemberExpressionIndentation b source style kind indentSize referenceSource =
     (case style of
        None \<Rightarrow> Inr source
      | Some st \<Rightarrow>
          (case (case referenceSource of
                   None \<Rightarrow> Inr source
                 | Some reference \<Rightarrow>
                     if length reference > 0 then
                       (case collectReferenceMemberChainLayouts b reference of
                          Inl e \<Rightarrow> Inl e
                        | Inr referenceLayouts \<Rightarrow>
                            applyReferenceMemberChainBreaks b source st kind indentSize
                              referenceLayouts)
                     else Inr source) of
             Inl e \<Rightarrow> Inl e
           | Inr next \<Rightarrow> applyMemberChainIndentation b next st kind indentSize))"


section \<open>Ternary layout replayed from a reference\<close>











section \<open>Single-line conditionals\<close>

datatype braceStyle = Omit | Require



section \<open>Indentation of \<open>break\<close> in a \<open>switch\<close>\<close>

datatype breakStyle = MatchCase | IndentBreak






section \<open>Comma placement in declaration lists\<close>





section \<open>Compacting the arguments of a multiline call\<close>

datatype callLayout = Compact | Expanded









section \<open>Trailing inline comments (src/apply/comment-alignment.js)\<close>




















text \<open>\<open>parseCandidate(line, lineNumber)\<close>.\<close>

record candidate =
  lineNumber :: nat
  line :: string
  left :: string
  indent :: nat
  comment :: string









section \<open>A chain of two property reads on a continuation line\<close>

text \<open>
  The source text \<open>x\<close>, a line feed, \<open>w\<close> spaces and \<open>.a.b;\<close>, and the tree that the parser
  builds for it, abridged to the properties \<open>type\<close>, \<open>start\<close>, \<open>end\<close>, \<open>loc\<close> and the
  children.  Both member expressions start at line 1, column 0, and both properties are
  on line 2.
\<close>

definition chainSource :: "nat \<Rightarrow> string" where
  "chainSource w = ''x'' @ [CHR 0x0A] @ replicate w CHR '' '' @ ''.a.b;''"

definition locOf :: "nat \<Rightarrow> nat \<Rightarrow> nat \<Rightarrow> nat \<Rightarrow> node" where
  "locOf l1 c1 l2 c2 =
     JObj [(''start'', JObj [(''line'', JNum l1), (''column'', JNum c1)]),
           (''end'', JObj [(''line'', JNum l2), (''column'', JNum c2)])]"

definition identifierNode :: "string \<Rightarrow> nat \<Rightarrow> nat \<Rightarrow> node \<Rightarrow> node" where
  "identifierNode name s e l =
     JObj [(''type'', JStr ''Identifier''), (''start'', JNum s), (''end'', JNum e), (''loc'', l),
           (''name'', JStr name)]"

definition memberNode :: "nat \<Rightarrow> nat \<Rightarrow> node \<Rightarrow> node \<Rightarrow> node \<Rightarrow> node" where
  "memberNode s e l obj prop =
     JObj [(''type'', JStr ''MemberExpression''), (''start'', JNum s), (''end'', JNum e), (''loc'', l),
           (''object'', obj), (''computed'', JBool False), (''property'', prop)]"

definition chainX :: node where
  "chainX = identifierNode ''x'' 0 1 (locOf 1 0 1 1)"

definition chainA :: "nat \<Rightarrow> node" where
  "chainA w = identifierNode ''a'' (3 + w) (4 + w) (locOf 2 (w + 1) 2 (w + 2))"

definition chainB :: "nat \<Rightarrow> node" where
  "chainB w = identifierNode ''b'' (5 + w) (6 + w) (locOf 2 (w + 3) 2 (w + 4))"

definition chainInner :: "nat \<Rightarrow> node" where
  "chainInner w = memberNode 0 (4 + w) (locOf 1 0 2 (w + 2)) chainX (chainA w)"

definition chainOuter :: "nat \<Rightarrow> node" where
  "chainOuter w = memberNode 0 (6 + w) (locOf 1 0 2 (w + 4)) (chainInner w) (chainB w)"

definition chainStatement :: "nat \<Rightarrow> node" where
  "chainStatement w =
     JObj [(''type'', JStr ''ExpressionStatement''), (''start'', JNum 0), (''end'', JNum (7 + w)),
           (''loc'', locOf 1 0 2 (w + 5)), (''expression'', chainOuter w)]"

definition chainProgram :: "nat \<Rightarrow> node" where
  "chainProgram w =
     JObj [(''type'', JStr ''Program''), (''start'', JNum 0), (''end'', JNum (7 + w)),
           (''loc'', locOf 1 0 2 (w + 5)), (''sourceType'', JStr ''script''),
           (''body'', JArr [chainStatement w])]"

definition chainFile :: "nat \<Rightarrow> node" where
  "chainFile w =
     JObj [(''type'', JStr ''File''), (''start'', JNum 0), (''end'', JNum (7 + w)),
           (''loc'', locOf 1 0 2 (w + 5)), (''program'', chainProgram w)]"

text \<open>The nodes in the order the walker visits them, each with its parent.\<close>

definition chainVisits :: "nat \<Rightarrow> (node \<times> node) list" where
  "chainVisits w =
     [(chainProgram w, chainFile w), (chainStatement w, chainProgram w),
      (chainOuter w, chainStatement w), (chainInner w, chainOuter w),
      (chainX, chainInner w), (chainA w, chainInner w), (chainB w, chainOuter w)]"

text \<open>
  The text \<open>let a; let a;\<close> declares a name twice.  The recovering parser records the error
  and returns a tree, abridged here as the chain is; the walker throws a \<open>TypeError\<close>
  (duplicate declaration) when it builds the scope of the program.
\<close>

definition redeclaredSource :: string where
  "redeclaredSource = ''let a; let a;''"

definition declarationNode :: "nat \<Rightarrow> node" where
  "declarationNode s =
     JObj [(''type'', JStr ''VariableDeclaration''), (''start'', JNum s), (''end'', JNum (s + 6)),
           (''loc'', locOf 1 s 1 (s + 6)),
           (''declarations'',
              JArr [JObj [(''type'', JStr ''VariableDeclarator''), (''start'', JNum (s + 4)),
                          (''end'', JNum (s + 5)), (''loc'', locOf 1 (s + 4) 1 (s + 5)),
                          (''id'', identifierNode ''a'' (s + 4) (s + 5) (locOf 1 (s + 4) 1 (s + 5))),
                          (''init'', JNull)]]),
           (''kind'', JStr ''let'')]"

definition redeclaredFile :: node where
  "redeclaredFile =
     JObj [(''type'', JStr ''File''), (''start'', JNum 0), (''end'', JNum 13),
           (''loc'', locOf 1 0 1 13),
           (''program'',
              JObj [(''type'', JStr ''Program''), (''start'', JNum 0), (''end'', JNum 13),
                    (''loc'', locOf 1 0 1 13), (''sourceType'', JStr ''script''),
                    (''body'', JArr [declarationNode 0, declarationNode 7])])]"

text \<open>
  The parser and the walker on the sources used in the examples: the chain at
  indentation 0 and at indentation 4, and the double declaration.  Any other text is
  treated as one the parser rejects, as it does \<open>(\<close>.
\<close>

definition demoBabel :: babel where
  "demoBabel =
     \<lparr>babelParse = (\<lambda>s. if s = chainSource 0 then Some (chainFile 0)
                         else if s = chainSource 4 then Some (chainFile 4)
                         else if s = redeclaredSource then Some redeclaredFile
                         else None),
      babelTraverse = (\<lambda>ast. if ast = chainFile 0 then Some (chainVisits 0)
                              else if ast = chainFile 4 then Some (chainVisits 4)
                              else if ast = redeclaredFile then None
                              else Some [])\<rparr>"


section \<open>Shapes of syntax trees and the text of a signature\<close>

text \<open>
  Two values have the same shape when they agree on everything but the properties that
  carry positions, raw text and attached comments: equal primitives, arrays of the same
  length with elements of the same shape, and objects whose remaining properties have,
  in order, the same keys and values of the same shape.
\<close>

fun shapeEq :: "'n jv \<Rightarrow> 'n jv \<Rightarrow> bool"
  and shapeEqElems :: "'n jv list \<Rightarrow> 'n jv list \<Rightarrow> bool"
  and shapeEqEntries :: "(string \<times> 'n jv) list \<Rightarrow> (string \<times> 'n jv) list \<Rightarrow> bool" where
  "shapeEq (JArr xs) (JArr ys) = shapeEqElems xs ys"
| "shapeEq (JObj fs) (JObj gs) = shapeEqEntries fs gs"
| "shapeEq JUndefined w = (w = JUndefined)"
| "shapeEq JNull w = (w = JNull)"
| "shapeEq (JBool b) w = (w = JBool b)"
| "shapeEq (JNum n) w = (w = JNum n)"
| "shapeEq (JStr s) w = (w = JStr s)"
| "shapeEq (JArr xs) w = False"
| "shapeEq (JObj fs) w = False"
| "shapeEqElems [] ys = (ys = [])"
| "shapeEqElems (x # xs) [] = False"
| "shapeEqElems (x # xs) (y # ys) = (shapeEq x y \<and> shapeEqElems xs ys)"
| "shapeEqEntries [] [] = True"
| "shapeEqEntries (e # es) [] = (droppedKey (fst e) \<and> shapeEqEntries es [])"
| "shapeEqEntries [] (g # gs) = (droppedKey (fst g) \<and> shapeEqEntries [] gs)"
| "shapeEqEntries (e # es) (g # gs) =
     (if droppedKey (fst e) then shapeEqEntries es (g # gs)
      else if droppedKey (fst g) then shapeEqEntries (e # es) gs
      else fst e = fst g \<and> shapeEq (snd e) (snd g) \<and> shapeEqEntries es gs)"

text \<open>
  Data that \<open>JSON.stringify\<close> prints as it is: no \<open>undefined\<close> among the elements of an
  array or the values of an object.
\<close>

fun jsonData :: "'n jv \<Rightarrow> bool"
  and jsonDataElems :: "'n jv list \<Rightarrow> bool"
  and jsonDataEntries :: "(string \<times> 'n jv) list \<Rightarrow> bool" where
  "jsonData JUndefined = False"
| "jsonData JNull = True"
| "jsonData (JBool b) = True"
| "jsonData (JNum n) = True"
| "jsonData (JStr s) = True"
| "jsonData (JArr xs) = jsonDataElems xs"
| "jsonData (JObj fs) = jsonDataEntries fs"
| "jsonDataElems [] = True"
| "jsonDataElems (x # xs) = (jsonData x \<and> jsonDataElems xs)"
| "jsonDataEntries [] = True"
| "jsonDataEntries (e # es) = (jsonData (snd e) \<and> jsonDataEntries es)"

text \<open>
  The text of a finite number: not empty, and made of digits, signs, the decimal point
  and the exponent letter.
\<close>

definition numericText :: "string \<Rightarrow> bool" where
  "numericText s = (s \<noteq> [] \<and> set s \<subseteq> set ''0123456789+-.eE'')"

text \<open>
  The text that \<open>JSON.stringify\<close> puts in the place of a value inside an array or an
  object (\<open>null\<close> for \<open>undefined\<close>), the text of one property, and the places where
  the text of a value may end: the end of the text, a comma or a closing bracket.
\<close>

definition jsonText :: "('n \<Rightarrow> string) \<Rightarrow> 'n jv \<Rightarrow> string" where
  "jsonText num v = (case stringify num v of None \<Rightarrow> ''null'' | Some t \<Rightarrow> t)"

definition entryText :: "('n \<Rightarrow> string) \<Rightarrow> string \<times> 'n jv \<Rightarrow> string" where
  "entryText num e = quoteJSONString (fst e) @ '':'' @ jsonText num (snd e)"

definition atDelimiter :: "string \<Rightarrow> bool" where
  "atDelimiter r = (r = [] \<or> hd r \<in> {CHR '','', CHR '']'', CHR ''}''})"

text \<open>
  Two nodes of the kind the parser produces: a numeric literal at a position, and a binary
  expression over two literals, with or without a comment attached in front.
\<close>

definition literalNode :: "nat \<Rightarrow> nat \<Rightarrow> nat jv" where
  "literalNode pos v =
     JObj [(''type'', JStr ''NumericLiteral''), (''start'', JNum pos), (''end'', JNum (pos + 1)),
           (''value'', JNum v)]"

definition binaryNode :: "nat \<Rightarrow> string \<Rightarrow> nat \<Rightarrow> nat \<Rightarrow> bool \<Rightarrow> nat jv" where
  "binaryNode pos operator l r commented =
     JObj ([(''type'', JStr ''BinaryExpression''), (''start'', JNum pos)] @
           (if commented then [(''leadingComments'', JArr [JObj [(''type'', JStr ''CommentLine'')]])]
            else []) @
           [(''left'', literalNode pos l), (''operator'', JStr operator),
            (''right'', literalNode (pos + 4) r)])"



section \<open>Verified properties\<close>

subsection \<open>Binary rules\<close>

text \<open>
  C1.  For every binary rule computed by \<open>binaryRule\<close>: with no observation
  (\<open>yes + no = 0\<close>) the rule is undetermined with value null, confidence 0 and evidence
  count 0.  Otherwise the winner is the larger count, a tie going to the yes side; the
  confidence is winner / (yes + no); the evidence count is the winner's count; and the
  status is enforced exactly when the winner reaches \<open>minEvidence\<close> and the confidence
  reaches \<open>minConfidence\<close>.  An enforced rule carries the winner's value, any other
  rule is undetermined and carries null.
\<close>

theorem binaryRule_spec:
  "let r = binaryRule yes no yesValue noValue minEvidence minConfidence autoFix prov in
       (yes + no = 0 \<longrightarrow>
            rvalue r = None \<and> rstatus r = Undetermined \<and> confidence r = 0 \<and> evidenceCount r = 0)
       \<and> (yes + no \<noteq> 0 \<longrightarrow>
            evidenceCount r = max yes no
          \<and> confidence r = of_nat (max yes no) / of_nat (yes + no)
          \<and> (rstatus r = Enforced \<longleftrightarrow> max yes no \<ge> minEvidence \<and> confidence r \<ge> minConfidence)
          \<and> (rstatus r = Enforced \<longrightarrow> rvalue r = Some (if no > yes then noValue else yesValue))
          \<and> (rstatus r \<noteq> Enforced \<longrightarrow> rstatus r = Undetermined \<and> rvalue r = None))"
  unfolding binaryRule_def Let_def
  by (auto simp: max_def)

theorem binaryRule_spec_witness:
  "evidenceCount (binaryRule 3 1 ''single'' ''double'' 2 (3 / 4) False Deterministic) = 3
   \<and> confidence (binaryRule 3 1 ''single'' ''double'' 2 (3 / 4) False Deterministic) = 3 / 4
   \<and> rstatus (binaryRule 3 1 ''single'' ''double'' 2 (3 / 4) False Deterministic) = Enforced
   \<and> rvalue (binaryRule 3 1 ''single'' ''double'' 2 (3 / 4) False Deterministic) = Some ''single''"
  using binaryRule_spec [of 3 1 "''single''" "''double''" 2 "3 / 4" False Deterministic]
  by (simp add: Let_def)

text \<open>
  C10.  For every binary rule with at least one observation the confidence lies between
  1/2 and 1: the winner is the majority count.
\<close>

theorem binaryRule_confidence_range:
  fixes yes no :: nat
  assumes "yes + no > 0"
  shows "1 / 2 \<le> confidence (binaryRule yes no yesValue noValue minEvidence minConfidence autoFix prov)
       \<and> confidence (binaryRule yes no yesValue noValue minEvidence minConfidence autoFix prov) \<le> 1"
  using assms unfolding binaryRule_def Let_def
  by (auto simp: field_simps)

theorem binaryRule_confidence_range_witness:
  "(1::nat) + 1 > 0
   \<and> 1 / 2 \<le> confidence (binaryRule 1 1 ''a'' ''b'' 2 (3 / 4) False Deterministic)
   \<and> confidence (binaryRule 1 1 ''a'' ''b'' 2 (3 / 4) False Deterministic) \<le> 1"
  using binaryRule_confidence_range [of 1 1 "''a''" "''b''" 2 "3 / 4" False Deterministic]
  by simp

subsection \<open>The invariant of inferred rules\<close>

lemma gated_rule_inv:
  "rule_inv \<lparr>rvalue = (if st = Enforced then Some x else None), rstatus = st, confidence = c,
      evidenceCount = e, provenance = p, autoFixSafe = a\<rparr>"
  by (cases st) (simp_all add: rule_inv_def)

lemma null_rule_inv:
  "rule_inv \<lparr>rvalue = None, rstatus = Undetermined, confidence = c,
      evidenceCount = e, provenance = p, autoFixSafe = a\<rparr>"
  by (simp add: rule_inv_def)

lemma if_both: "P a \<Longrightarrow> P b \<Longrightarrow> P (if c then a else b)"
  by simp

lemma binaryRule_inv: "rule_inv (binaryRule y n yv nv m c a p)"
  unfolding binaryRule_def Let_def
  by (rule if_both) (rule null_rule_inv, rule gated_rule_inv)

lemma densityRule_inv: "rule_inv (densityRule b t m c)"
  unfolding densityRule_def Let_def
  by (rule if_both) (rule null_rule_inv, rule gated_rule_inv)

lemma inferLineWidth_inv: "rule_inv (inferLineWidth w n m c)"
  unfolding inferLineWidth_def Let_def
  by (rule if_both) (rule null_rule_inv, rule gated_rule_inv)

lemma indentationSize_inv: "rule_inv (indentationSize agg m c)"
  by (simp add: rule_inv_def indentationSize_def Let_def)

lemma nextRule_inv: "rule_inv (nextRule s v d n m c)"
  unfolding nextRule_def Let_def by (rule gated_rule_inv)

lemma memberExpressionIndentation_inv: "rule_inv (memberExpressionIndentation agg m c)"
  unfolding memberExpressionIndentation_def Let_def by (rule binaryRule_inv)

lemma inferProfile_rules_inv: "rules_inv (inferProfile_rules agg m c)"
  unfolding rules_inv_def inferProfile_rules_def
      commentsLine_def jsdoc_def commentBlockFraming_def trailingInlineCommentAlignment_def
      fnWords_def fnExpressionNaming_def braces_def guardClauses_def quotes_def semicolons_def
      trailingCommas_def variableDeclarationCommaPlacement_def yodaConditions_def
      multilineTernaryOperatorPlacement_def indentationKind_def switchCaseIndentation_def
      switchCaseBreakIndentation_def multilineCallArgumentLayout_def blankLineBeforeReturn_def
      blankLineBeforeIf_def importsOrdering_def 
      blankLineDensity_def lineWidth_def
  by (simp only: list.pred_inject snd_conv binaryRule_inv densityRule_inv inferLineWidth_inv
      indentationSize_inv memberExpressionIndentation_inv simp_thms)

lemma obj_set_list_all: "P (k, v) \<Longrightarrow> list_all P ps \<Longrightarrow> list_all P (obj_set k v ps)"
  by (induction ps) auto

lemma map_of_list_all: "list_all P ps \<Longrightarrow> map_of ps k = Some v \<Longrightarrow> P (k, v)"
  by (induction ps) (auto split: if_splits)

lemma writeRule_inv: "rule_inv r \<Longrightarrow> rules_inv rs \<Longrightarrow> rules_inv (writeRule path rs r)"
  unfolding writeRule_def rules_inv_def
  apply (auto split: option.splits)
  apply (rule obj_set_list_all)
   apply simp
   apply (rule obj_set_list_all)
    apply simp
   apply (drule (1) map_of_list_all)
   apply simp
  apply assumption
  done

lemma augmentEntry_inv:
  "rules_inv (fst st) \<Longrightarrow> augmentEntry n m c st e = Inr st' \<Longrightarrow> rules_inv (fst st')"
  unfolding augmentEntry_def
  by (auto simp: Let_def writeRule_inv nextRule_inv split: known.splits option.splits if_splits)

lemma augmentLoop_inv:
  "rules_inv (fst st) \<Longrightarrow> augmentLoop n m c st es = Inr st' \<Longrightarrow> rules_inv (fst st')"
proof (induction es arbitrary: st)
  case Nil
  then show ?case by simp
next
  case (Cons e es)
  then show ?case
    by (auto split: sum.splits dest: augmentEntry_inv)
qed

lemma maybeAugment_inv:
  "rules_inv rs \<Longrightarrow> maybeAugmentProfileWithLlm rs n m c sg = Inr st' \<Longrightarrow> rules_inv (fst st')"
  unfolding maybeAugmentProfileWithLlm_def
  using augmentLoop_inv [of "(rs, 0)" n m c _ st']
  by (auto split: if_splits option.splits)

subsection \<open>Double precision\<close>

text \<open>
  \<open>binade\<close> is the binary exponent of a positive rational, and \<open>double\<close> moves a number by
  at most half a unit in the last place.
\<close>

lemma bits_bounds: "0 < n \<Longrightarrow> 2 ^ (bits n - 1) \<le> n \<and> n < 2 ^ bits n"
proof (induction n rule: bits.induct)
  case (1 n)
  show ?case
  proof (cases "n div 2 = 0")
    case True
    with 1(2) have "n = 1" by (auto simp: div_eq_0_iff)
    then show ?thesis by (simp add: bits.simps)
  next
    case False
    then have h: "0 < n div 2" by simp
    from 1(1) [OF _ h] 1(2) have ih: "2 ^ (bits (n div 2) - 1) \<le> n div 2" "n div 2 < 2 ^ bits (n div 2)"
      by auto
    have pos: "0 < bits (n div 2)" using h by (subst bits.simps) simp
    have b: "bits n = Suc (bits (n div 2))" using 1(2) by (subst bits.simps) simp
    have "2 ^ (bits n - 1) = 2 * 2 ^ (bits (n div 2) - 1)"
      using pos b by (cases "bits (n div 2)") simp_all
    also have "\<dots> \<le> 2 * (n div 2)" using ih(1) by simp
    also have "\<dots> \<le> n" by simp
    finally have lo: "2 ^ (bits n - 1) \<le> n" .
    have "n < 2 * (n div 2) + 2" by presburger
    also have "\<dots> \<le> 2 * 2 ^ bits (n div 2)" using ih(2) by simp
    finally have "n < 2 ^ bits n" using b by simp
    with lo show ?thesis by simp
  qed
qed

lemma pow2_pos: "0 < pow2 e"
  by (simp add: pow2_def)

lemma pow2_Suc: "pow2 (e + 1) = 2 * pow2 e"
  by (cases "e \<ge> 0")
     (auto simp: pow2_def nat_add_distrib power_eq_if nat_diff_distrib' split: if_splits)

lemma pow2_of_nat: "pow2 (int k) = 2 ^ k"
  by (simp add: pow2_def)

lemma pow2_neg: "pow2 (- int k) = 1 / 2 ^ k"
  by (auto simp: pow2_def)

lemma binade_bounds:
  assumes "0 < q"
  shows "pow2 (binade q) \<le> q \<and> q < pow2 (binade q + 1)"
proof (cases "1 \<le> q")
  case True
  let ?n = "nat \<lfloor>q\<rfloor>"
  have fl: "1 \<le> \<lfloor>q\<rfloor>" using True by simp
  then have n: "0 < ?n" by simp
  from bits_bounds [OF n] have lo: "2 ^ (bits ?n - 1) \<le> ?n" and hi: "?n < 2 ^ bits ?n" by auto
  have bpos: "0 < bits ?n" using n by (subst bits.simps) simp
  have e: "binade q = int (bits ?n - 1)" using True bpos by (simp add: binade_def)
  have "(2::rat) ^ (bits ?n - 1) \<le> of_nat ?n"
    using lo by (metis of_nat_le_iff of_nat_numeral of_nat_power)
  also have "of_nat ?n = (of_int \<lfloor>q\<rfloor> :: rat)"
  proof -
    from fl have "0 \<le> \<lfloor>q\<rfloor>" by linarith
    then show ?thesis by (rule of_nat_nat)
  qed
  also have "\<dots> \<le> q" by simp
  finally have a: "pow2 (binade q) \<le> q" unfolding e pow2_of_nat .
  have "\<lfloor>q\<rfloor> < 2 ^ bits ?n"
    using hi fl by (metis nat_less_iff of_nat_numeral of_nat_power zero_le_one order_trans)
  then have "\<lfloor>q\<rfloor> + 1 \<le> 2 ^ bits ?n" by simp
  then have "(of_int (\<lfloor>q\<rfloor> + 1) :: rat) \<le> of_int (2 ^ bits ?n)" by (simp only: of_int_le_iff)
  then have "q < 2 ^ bits ?n"
    using floor_correct [of q] by simp
  moreover have "binade q + 1 = int (bits ?n)" using e bpos by simp
  ultimately have "q < pow2 (binade q + 1)" by (simp add: pow2_of_nat)
  with a show ?thesis by simp
next
  case False
  then have q1: "q < 1" by simp
  let ?r = "1 / q"
  let ?n = "nat \<lfloor>?r\<rfloor>"
  let ?b = "bits ?n"
  have r1: "1 < ?r" using assms q1 by simp
  then have fl: "1 \<le> \<lfloor>?r\<rfloor>" by simp
  then have n: "0 < ?n" by simp
  from bits_bounds [OF n] have lo: "2 ^ (?b - 1) \<le> ?n" and hi: "?n < 2 ^ ?b" by auto
  have bpos: "0 < ?b" using n by (subst bits.simps) simp
  have "(2::rat) ^ (?b - 1) \<le> of_nat ?n"
    using lo by (metis of_nat_le_iff of_nat_numeral of_nat_power)
  also have "of_nat ?n = (of_int \<lfloor>?r\<rfloor> :: rat)"
  proof -
    from fl have "0 \<le> \<lfloor>?r\<rfloor>" by linarith
    then show ?thesis by (rule of_nat_nat)
  qed
  also have "\<dots> \<le> ?r" by simp
  finally have rlo: "2 ^ (?b - 1) \<le> ?r" .
  have "\<lfloor>?r\<rfloor> < 2 ^ ?b"
    using hi fl by (metis nat_less_iff of_nat_numeral of_nat_power zero_le_one order_trans)
  then have "\<lfloor>?r\<rfloor> + 1 \<le> 2 ^ ?b" by simp
  then have "(of_int (\<lfloor>?r\<rfloor> + 1) :: rat) \<le> of_int (2 ^ ?b)" by (simp only: of_int_le_iff)
  then have rhi: "?r < 2 ^ ?b" using floor_correct [of ?r] by simp
  have qinv: "q = 1 / ?r" using assms by simp
  show ?thesis
  proof (cases "?r = 2 ^ (?b - 1)")
    case True
    then have e: "binade q = - int (?b - 1)" using q1 bpos by (simp add: binade_def Let_def)
    have "q = 1 / 2 ^ (?b - 1)" using True qinv by simp
    then have eq: "q = pow2 (binade q)" unfolding e pow2_neg .
    have "pow2 (binade q) < pow2 (binade q + 1)" using pow2_pos [of "binade q"] by (simp add: pow2_Suc)
    with eq show ?thesis by simp
  next
    case ne: False
    then have e: "binade q = - int ?b" using q1 by (simp add: binade_def Let_def)
    from rlo ne have rlo': "2 ^ (?b - 1) < ?r" by simp
    have a: "pow2 (binade q) \<le> q"
    proof -
      have "1 / 2 ^ ?b < q" using rhi assms by (simp add: field_simps)
      then show ?thesis unfolding e pow2_neg by simp
    qed
    have "binade q + 1 = - int (?b - 1)" using e bpos by simp
    then have p: "pow2 (binade q + 1) = 1 / 2 ^ (?b - 1)" by (simp only: pow2_neg)
    have "q < 1 / 2 ^ (?b - 1)" using rlo' assms by (simp add: field_simps)
    then have "q < pow2 (binade q + 1)" unfolding p .
    with a show ?thesis by simp
  qed
qed

lemma roundEven_near: "\<bar>of_int (roundEven r) - r\<bar> \<le> 1 / 2"
proof -
  have a: "of_int \<lfloor>r\<rfloor> \<le> r" and b: "r < of_int \<lfloor>r\<rfloor> + 1" by linarith+
  consider "r - of_int \<lfloor>r\<rfloor> < 1 / 2" | "r - of_int \<lfloor>r\<rfloor> > 1 / 2" | "r - of_int \<lfloor>r\<rfloor> = 1 / 2"
    by linarith
  then show ?thesis
  proof cases
    case 1
    then have "roundEven r = \<lfloor>r\<rfloor>" by (simp add: roundEven_def Let_def)
    then have "of_int (roundEven r) = (of_int \<lfloor>r\<rfloor> :: rat)" by simp
    with 1 a show ?thesis unfolding abs_le_iff by linarith
  next
    case 2
    then have "roundEven r = \<lfloor>r\<rfloor> + 1" by (simp add: roundEven_def Let_def)
    then have "of_int (roundEven r) = (of_int \<lfloor>r\<rfloor> :: rat) + 1" by simp
    with 2 b show ?thesis unfolding abs_le_iff by linarith
  next
    case 3
    then have "roundEven r = \<lfloor>r\<rfloor> \<or> roundEven r = \<lfloor>r\<rfloor> + 1"
      by (simp add: roundEven_def Let_def)
    then have "of_int (roundEven r) = (of_int \<lfloor>r\<rfloor> :: rat)
               \<or> of_int (roundEven r) = (of_int \<lfloor>r\<rfloor> :: rat) + 1"
      by auto
    with 3 show ?thesis unfolding abs_le_iff by linarith
  qed
qed

lemma double_near:
  "\<bar>double q - q\<bar> \<le> pow2 (max (binade \<bar>q\<bar> - 52) (- 1074)) / 2"
proof (cases "q = 0")
  case True
  then show ?thesis using pow2_pos [of "max (binade \<bar>q\<bar> - 52) (- 1074)"] by (simp add: double_def)
next
  case False
  let ?u = "pow2 (max (binade \<bar>q\<bar> - 52) (- 1074))"
  have u: "0 < ?u" by (rule pow2_pos)
  have "double q - q = (of_int (roundEven (q / ?u)) - q / ?u) * ?u"
    using False u by (simp add: double_def Let_def field_simps)
  then have "\<bar>double q - q\<bar> = \<bar>of_int (roundEven (q / ?u)) - q / ?u\<bar> * ?u"
    using u by (simp add: abs_mult)
  also have "\<dots> \<le> (1 / 2) * ?u"
    using roundEven_near [of "q / ?u"] u by (intro mult_right_mono) simp_all
  finally show ?thesis by simp
qed

subsection \<open>External augmentation\<close>

text \<open>
  The doubles of the examples: \<open>0.9\<close>, \<open>0.05\<close> and \<open>0.95\<close> are not binary fractions, and the
  sum of the first two, rounded, is the double above \<open>0.95\<close>.  Likewise \<open>0.1 + 0.2\<close> is
  \<open>0.30000000000000004\<close>.
\<close>

lemma double_values:
  "double 0 = 0"
  "double (1 / 2) = 1 / 2"
  "double (5 / 100) = 3602879701896397 / 2 ^ 56"
  "double (9 / 10) = 8106479329266893 / 2 ^ 53"
  "double (95 / 100) = 8556839292003942 / 2 ^ 53"
  "double (double (9 / 10) + double (5 / 100)) = 8556839292003943 / 2 ^ 53"
  "double (double (95 / 100)) = double (95 / 100)"
  "double (double (1 / 10) + double (2 / 10)) = 5404319552844596 / 2 ^ 54"
  "double (1 / 3) = 6004799503160661 / 2 ^ 54"
  "double (- (1 / 3)) = - (6004799503160661 / 2 ^ 54)"
  by code_simp+

lemma readRule_quotes:
  "readRule ''syntax.quotes'' (inferProfile_rules aggregate m c) = Some (quotes aggregate m c)"
  by (simp add: readRule_def sectionAndName_def inferProfile_rules_def)

lemma quotes_empty:
  "quotes createSignals 30 (3 / 4) =
     \<lparr>rvalue = None, rstatus = Undetermined, confidence = 0, evidenceCount = 0,
      provenance = Deterministic, autoFixSafe = False\<rparr>"
  by (simp add: quotes_def createSignals_def binaryRule_def)

lemma quotes_nine:
  "quotes nineOfTen 30 (3 / 4) =
     \<lparr>rvalue = None, rstatus = Undetermined, confidence = 9 / 10, evidenceCount = 9,
      provenance = Deterministic, autoFixSafe = False\<rparr>"
  by (simp add: quotes_def nineOfTen_def createSignals_def binaryRule_def)

lemma known_quotes:
  "knownRule ''syntax.quotes'' = Known \<lparr>dvalues = [JStr ''single'', JStr ''double''], dautoFixSafe = False\<rparr>"
  "map_of KNOWN_RULES ''syntax.quotes''
     = Some \<lparr>dvalues = [JStr ''single'', JStr ''double''], dautoFixSafe = False\<rparr>"
  by (simp_all add: knownRule_def KNOWN_RULES_def)

lemma next_demo:
  "nextRule demoSuggestion (JStr ''single'') \<lparr>dvalues = [JStr ''single'', JStr ''double''], dautoFixSafe = False\<rparr> 2 30 (3 / 4)
    = \<lparr>rvalue = None, rstatus = Undetermined, confidence = 1 / 2, evidenceCount = 1,
      provenance = LlmAugmented, autoFixSafe = False\<rparr>"
  by (simp add: nextRule_def demoSuggestion_def clamp01_def suggestedEvidence_def)

lemma next_near:
  "nextRule nearSuggestion (JStr ''single'') \<lparr>dvalues = [JStr ''single'', JStr ''double''], dautoFixSafe = False\<rparr> 2 30 (3 / 4)
    = \<lparr>rvalue = None, rstatus = Undetermined, confidence = 19 / 20, evidenceCount = 1,
      provenance = LlmAugmented, autoFixSafe = False\<rparr>"
  by (simp add: nextRule_def nearSuggestion_def clamp01_def suggestedEvidence_def)

lemma confidence_steps:
  "double (1 / 2) \<ge> double (double 0 + double (5 / 100))"
  "\<not> double (19 / 20) \<ge> double (double (9 / 10) + double (5 / 100))"
  by code_simp+

lemma replace_demo:
  assumes "rstatus e = Undetermined" and "rstatus n = Undetermined"
    and "confidence e = 0" and "confidence n = 1 / 2"
  shows "shouldReplace (Some e) n"
proof -
  have "double (confidence n) \<ge> double (double (confidence e) + double (5 / 100))"
    unfolding assms(3,4) by (rule confidence_steps(1))
  with assms(1,2) show ?thesis
    unfolding shouldReplace_def by simp
qed

lemma accepted_single:
  "normalizeValue (svalue demoSuggestion) \<lparr>dvalues = [JStr ''single'', JStr ''double''], dautoFixSafe = False\<rparr>
     = Some (JStr ''single'')"
  "normalizeValue (svalue nearSuggestion) \<lparr>dvalues = [JStr ''single'', JStr ''double''], dautoFixSafe = False\<rparr>
     = Some (JStr ''single'')"
  by (simp_all add: normalizeValue_def demoSuggestion_def nearSuggestion_def)

lemma augmentEntry_demo:
  "augmentEntry 2 30 (3 / 4) (inferProfile_rules createSignals 30 (3 / 4), 0)
        (''syntax.quotes'', Some demoSuggestion)
      = Inr (writeRule ''syntax.quotes'' (inferProfile_rules createSignals 30 (3 / 4))
               (nextRule demoSuggestion (JStr ''single'')
                  \<lparr>dvalues = [JStr ''single'', JStr ''double''], dautoFixSafe = False\<rparr> 2 30 (3 / 4)), 1)"
  by (simp add: augmentEntry_def known_quotes accepted_single readRule_quotes quotes_empty
      next_demo replace_demo Let_def)

text \<open>
  C7, as stated, fails.  Every rule of the profile inferred from no observations is
  undetermined; a suggestion for \<open>syntax.quotes\<close> with confidence 1/2 and one item of
  evidence is undetermined as well (the floor is 30); still the loop replaces the rule,
  since both statuses are equal and the confidence grows by at least 0.05.  And the
  numeric suggestion \<open>-3\<close> is not rejected: it is accepted as 0.
\<close>

theorem augmentation_counterexample:
  "rstatus (quotes createSignals 30 (3 / 4)) = Undetermined
   \<and> rstatus (nextRule demoSuggestion (JStr ''single'')
         \<lparr>dvalues = [JStr ''single'', JStr ''double''], dautoFixSafe = False\<rparr> 2 30 (3 / 4)) = Undetermined
   \<and> augmentEntry 2 30 (3 / 4) (inferProfile_rules createSignals 30 (3 / 4), 0)
        (''syntax.quotes'', Some demoSuggestion)
      = Inr (writeRule ''syntax.quotes'' (inferProfile_rules createSignals 30 (3 / 4))
               (nextRule demoSuggestion (JStr ''single'')
                  \<lparr>dvalues = [JStr ''single'', JStr ''double''], dautoFixSafe = False\<rparr> 2 30 (3 / 4)), 1)
   \<and> normalizeValue (JNum (Finite (- 3))) \<lparr>dvalues = [], dautoFixSafe = True\<rparr> = Some (JNum (Finite 0))"
  using augmentEntry_demo
  by (simp add: quotes_empty next_demo normalizeValue_def js_round_def)

lemma shouldReplace_iff:
  "shouldReplace existing next \<longleftrightarrow>
     (case existing of
        None \<Rightarrow> True
      | Some e \<Rightarrow> (rstatus e = Undetermined \<and> rstatus next = Enforced)
                \<or> (rstatus e = rstatus next
                    \<and> double (confidence next) \<ge> double (double (confidence e) + double (5 / 100))))"
  unfolding shouldReplace_def
  by (cases existing) (auto intro: status.exhaust)

lemma augmentEntry_known:
  assumes "map_of KNOWN_RULES path = Some d" and "normalizeValue (svalue s) d = Some v"
  shows "augmentEntry sampled m c (rs, applied) (path, Some s) =
           (if shouldReplace (readRule path rs) (nextRule s v d sampled m c)
            then Inr (writeRule path rs (nextRule s v d sampled m c), applied + 1)
            else Inr (rs, applied))"
  using assms by (simp add: augmentEntry_def knownRule_def Let_def)

lemma augmentEntry_rejected:
  assumes "map_of KNOWN_RULES path = Some d" and "normalizeValue (svalue s) d = None"
  shows "augmentEntry sampled m c st (path, Some s) = Inr st"
  using assms by (simp add: augmentEntry_def knownRule_def)

lemma augmentEntry_unknown:
  "map_of KNOWN_RULES path = None \<Longrightarrow> path \<notin> set inheritedNames
     \<Longrightarrow> augmentEntry sampled m c st (path, sugg) = Inr st"
  unfolding augmentEntry_def knownRule_def by simp

lemma map_of_obj_set: "map_of (obj_set k v m) k = Some v"
  by (induction m) auto

lemma readRule_writeRule:
  "readRule path rs = Some e \<Longrightarrow> readRule path (writeRule path rs r) = Some r"
  by (auto simp: readRule_def writeRule_def map_of_obj_set split: option.splits prod.splits)

lemma single_entry:
  "0 < sampled \<Longrightarrow>
     maybeAugmentProfileWithLlm rs sampled m c (Some [entry]) = augmentEntry sampled m c (rs, 0) entry"
  by (cases "augmentEntry sampled m c (rs, 0) entry")
     (simp_all add: maybeAugmentProfileWithLlm_def)

lemma normalizeValue_enum:
  "dvalues d \<noteq> [] \<Longrightarrow> normalizeValue v d = (if v \<in> set (dvalues d) then Some v else None)"
  unfolding normalizeValue_def by simp

lemma normalizeValue_numeric:
  "dvalues d = [] \<Longrightarrow> normalizeValue v d =
     (case v of
        JNum (Finite r) \<Rightarrow> Some (JNum (Finite (of_int (max 0 \<lfloor>r + 1 / 2\<rfloor>))))
      | _ \<Rightarrow> None)"
  unfolding normalizeValue_def js_round_def by simp

text \<open>
  C7, amended.  A turn of the loop on a suggestion for a known dimension whose value was
  accepted writes the suggested rule and counts it exactly when there is no current rule,
  or the current rule is undetermined and the suggested rule is enforced, or both have
  the same status (both enforced or both undetermined) and the suggested confidence is at
  least the sum, in double precision, of the current confidence and 0.05; otherwise it
  leaves the state as it is.  After the write the suggested rule is the rule that is read
  for the dimension, if there was one before.  A suggestion whose value is rejected, and
  one for a name that is neither known nor an inherited property name of objects, leave
  the state as it is.  A value outside a non-empty enumerated set is rejected.  For a
  numeric dimension every value that is not a finite number is rejected, and a finite
  number is rounded and clamped below at 0.  With one suggestion and a sampled file,
  \<open>maybeAugmentProfileWithLlm\<close> is that one turn from the counter 0.
\<close>

theorem augmentation_replacement:
  "(map_of KNOWN_RULES path = Some d \<and> normalizeValue (svalue s) d = Some v \<longrightarrow>
      augmentEntry sampled m c (rs, applied) (path, Some s) =
        (if (case readRule path rs of
               None \<Rightarrow> True
             | Some e \<Rightarrow>
                 (rstatus e = Undetermined \<and> rstatus (nextRule s v d sampled m c) = Enforced)
                 \<or> (rstatus e = rstatus (nextRule s v d sampled m c)
                     \<and> double (confidence (nextRule s v d sampled m c))
                         \<ge> double (double (confidence e) + double (5 / 100))))
         then Inr (writeRule path rs (nextRule s v d sampled m c), applied + 1)
         else Inr (rs, applied)))
   \<and> (readRule path rs = Some e \<longrightarrow> readRule path (writeRule path rs r) = Some r)
   \<and> (map_of KNOWN_RULES path = Some d \<and> normalizeValue (svalue s) d = None \<longrightarrow>
        augmentEntry sampled m c st (path, Some s) = Inr st)
   \<and> (map_of KNOWN_RULES path = None \<and> path \<notin> set inheritedNames \<longrightarrow>
        augmentEntry sampled m c st (path, sugg) = Inr st)
   \<and> (0 < sampled \<longrightarrow>
        maybeAugmentProfileWithLlm rs sampled m c (Some [entry])
          = augmentEntry sampled m c (rs, 0) entry)
   \<and> (dvalues d \<noteq> [] \<longrightarrow>
        normalizeValue w d = (if w \<in> set (dvalues d) then Some w else None))
   \<and> (dvalues d = [] \<longrightarrow>
        normalizeValue w d =
          (case w of
             JNum (Finite q) \<Rightarrow> Some (JNum (Finite (of_int (max 0 \<lfloor>q + 1 / 2\<rfloor>))))
           | _ \<Rightarrow> None))"
proof -
  have a: "map_of KNOWN_RULES path = Some d \<and> normalizeValue (svalue s) d = Some v \<longrightarrow>
      augmentEntry sampled m c (rs, applied) (path, Some s) =
        (if (case readRule path rs of
               None \<Rightarrow> True
             | Some e \<Rightarrow>
                 (rstatus e = Undetermined \<and> rstatus (nextRule s v d sampled m c) = Enforced)
                 \<or> (rstatus e = rstatus (nextRule s v d sampled m c)
                     \<and> double (confidence (nextRule s v d sampled m c))
                         \<ge> double (double (confidence e) + double (5 / 100))))
         then Inr (writeRule path rs (nextRule s v d sampled m c), applied + 1)
         else Inr (rs, applied))"
    using augmentEntry_known [of path d s v sampled m c rs applied]
      shouldReplace_iff [of "readRule path rs" "nextRule s v d sampled m c"]
    by simp
  show ?thesis
    using a readRule_writeRule [of path rs e r]
      augmentEntry_rejected [of path d s sampled m c st]
      augmentEntry_unknown [of path sampled m c st sugg]
      single_entry [of sampled rs m c entry]
      normalizeValue_enum [of d w] normalizeValue_numeric [of d w]
    by blast
qed

text \<open>
  A replacement: the undetermined suggestion of confidence 1/2 replaces the undetermined
  rule of confidence 0.  No replacement: the current confidence is \<open>0.9\<close> and the suggested
  one \<open>0.95\<close>; the sum \<open>0.9 + 0.05\<close> is the double above \<open>0.95\<close>, and the rule is kept.
\<close>

theorem augmentation_replacement_witness:
  "augmentEntry 2 30 (3 / 4) (inferProfile_rules createSignals 30 (3 / 4), 0)
        (''syntax.quotes'', Some demoSuggestion)
      = Inr (writeRule ''syntax.quotes'' (inferProfile_rules createSignals 30 (3 / 4))
               \<lparr>rvalue = None, rstatus = Undetermined, confidence = 1 / 2, evidenceCount = 1,
                provenance = LlmAugmented, autoFixSafe = False\<rparr>, 1)
   \<and> readRule ''syntax.quotes'' (inferProfile_rules createSignals 30 (3 / 4))
      = Some \<lparr>rvalue = None, rstatus = Undetermined, confidence = 0, evidenceCount = 0,
               provenance = Deterministic, autoFixSafe = False\<rparr>
   \<and> readRule ''syntax.quotes''
        (writeRule ''syntax.quotes'' (inferProfile_rules createSignals 30 (3 / 4))
           \<lparr>rvalue = None, rstatus = Undetermined, confidence = 1 / 2, evidenceCount = 1,
            provenance = LlmAugmented, autoFixSafe = False\<rparr>)
      = Some \<lparr>rvalue = None, rstatus = Undetermined, confidence = 1 / 2, evidenceCount = 1,
               provenance = LlmAugmented, autoFixSafe = False\<rparr>
   \<and> augmentEntry 2 30 (3 / 4) (inferProfile_rules nineOfTen 30 (3 / 4), 0)
        (''syntax.quotes'', Some nearSuggestion)
      = Inr (inferProfile_rules nineOfTen 30 (3 / 4), 0)
   \<and> (9 / 10 + 5 / 100 :: rat) \<le> 95 / 100
   \<and> augmentEntry 2 30 (3 / 4) (inferProfile_rules createSignals 30 (3 / 4), 0)
        (''syntax.tabs'', Some demoSuggestion)
      = Inr (inferProfile_rules createSignals 30 (3 / 4), 0)
   \<and> augmentEntry 2 30 (3 / 4) (inferProfile_rules createSignals 30 (3 / 4), 0)
        (''syntax.quotes'', Some (demoSuggestion\<lparr>svalue := JStr ''backtick''\<rparr>))
      = Inr (inferProfile_rules createSignals 30 (3 / 4), 0)
   \<and> maybeAugmentProfileWithLlm (inferProfile_rules nineOfTen 30 (3 / 4)) 2 30 (3 / 4)
        (Some [(''syntax.quotes'', Some nearSuggestion)])
      = Inr (inferProfile_rules nineOfTen 30 (3 / 4), 0)
   \<and> normalizeValue (JStr ''backtick'')
        \<lparr>dvalues = [JStr ''single'', JStr ''double''], dautoFixSafe = False\<rparr> = None
   \<and> normalizeValue (JNum PosInfinity) \<lparr>dvalues = [], dautoFixSafe = False\<rparr> = None"
proof -
  let ?d = "\<lparr>dvalues = [JStr ''single'', JStr ''double''], dautoFixSafe = False\<rparr>"
  let ?n = "\<lparr>dvalues = [], dautoFixSafe = False\<rparr>"
  let ?empty = "inferProfile_rules createSignals 30 (3 / 4)"
  let ?nine = "inferProfile_rules nineOfTen 30 (3 / 4)"
  have tabs: "''syntax.tabs'' \<notin> set inheritedNames" "map_of KNOWN_RULES ''syntax.tabs'' = None"
    by (simp_all add: inheritedNames_def KNOWN_RULES_def)
  have backtick: "normalizeValue (svalue (demoSuggestion\<lparr>svalue := JStr ''backtick''\<rparr>)) ?d = None"
    by (simp add: normalizeValue_def)
  note cond_demo = confidence_steps
  note one = augmentation_replacement [of "''syntax.quotes''" ?d demoSuggestion "JStr ''single''"
      2 30 "3 / 4" ?empty 0 "quotes createSignals 30 (3 / 4)"
      "\<lparr>rvalue = None, rstatus = Undetermined, confidence = 1 / 2, evidenceCount = 1,
        provenance = LlmAugmented, autoFixSafe = False\<rparr>"
      "(?empty, 0)" "Some demoSuggestion" "(''syntax.quotes'', Some nearSuggestion)" "JNum PosInfinity"]
  note two = augmentation_replacement [of "''syntax.quotes''" ?d nearSuggestion "JStr ''single''"
      2 30 "3 / 4" ?nine 0 "quotes nineOfTen 30 (3 / 4)"
      "\<lparr>rvalue = None, rstatus = Undetermined, confidence = 1 / 2, evidenceCount = 1,
        provenance = LlmAugmented, autoFixSafe = False\<rparr>"
      "(?nine, 0)" "Some nearSuggestion" "(''syntax.quotes'', Some nearSuggestion)" "JNum PosInfinity"]
  note three = augmentation_replacement [of "''syntax.tabs''" ?n "demoSuggestion\<lparr>svalue := JStr ''backtick''\<rparr>"
      "JStr ''single''" 2 30 "3 / 4" ?empty 0 "quotes createSignals 30 (3 / 4)"
      "\<lparr>rvalue = None, rstatus = Undetermined, confidence = 1 / 2, evidenceCount = 1,
        provenance = LlmAugmented, autoFixSafe = False\<rparr>"
      "(?empty, 0)" "Some demoSuggestion" "(''syntax.quotes'', Some nearSuggestion)" "JNum PosInfinity"]
  note four = augmentation_replacement [of "''syntax.quotes''" ?d "demoSuggestion\<lparr>svalue := JStr ''backtick''\<rparr>"
      "JStr ''single''" 2 30 "3 / 4" ?empty 0 "quotes createSignals 30 (3 / 4)"
      "\<lparr>rvalue = None, rstatus = Undetermined, confidence = 1 / 2, evidenceCount = 1,
        provenance = LlmAugmented, autoFixSafe = False\<rparr>"
      "(?empty, 0)" "Some demoSuggestion" "(''syntax.quotes'', Some nearSuggestion)" "JStr ''backtick''"]
  have c1: "augmentEntry 2 30 (3 / 4) (?empty, 0) (''syntax.quotes'', Some demoSuggestion)
      = Inr (writeRule ''syntax.quotes'' ?empty
               \<lparr>rvalue = None, rstatus = Undetermined, confidence = 1 / 2, evidenceCount = 1,
                provenance = LlmAugmented, autoFixSafe = False\<rparr>, 1)"
    using one cond_demo(1)
    by (simp add: known_quotes accepted_single readRule_quotes quotes_empty next_demo)
  have c2: "readRule ''syntax.quotes''
        (writeRule ''syntax.quotes'' ?empty
           \<lparr>rvalue = None, rstatus = Undetermined, confidence = 1 / 2, evidenceCount = 1,
            provenance = LlmAugmented, autoFixSafe = False\<rparr>)
      = Some \<lparr>rvalue = None, rstatus = Undetermined, confidence = 1 / 2, evidenceCount = 1,
               provenance = LlmAugmented, autoFixSafe = False\<rparr>"
    using one by (simp add: readRule_quotes)
  have c3: "augmentEntry 2 30 (3 / 4) (?nine, 0) (''syntax.quotes'', Some nearSuggestion)
      = Inr (?nine, 0)"
    using two cond_demo(2)
    by (simp add: known_quotes accepted_single readRule_quotes quotes_nine next_near)
  have c4: "augmentEntry 2 30 (3 / 4) (?empty, 0) (''syntax.tabs'', Some demoSuggestion)
      = Inr (?empty, 0)"
    using three tabs by blast
  have c5: "augmentEntry 2 30 (3 / 4) (?empty, 0)
        (''syntax.quotes'', Some (demoSuggestion\<lparr>svalue := JStr ''backtick''\<rparr>)) = Inr (?empty, 0)"
    using four known_quotes(2) backtick by blast
  have c6: "maybeAugmentProfileWithLlm ?nine 2 30 (3 / 4) (Some [(''syntax.quotes'', Some nearSuggestion)])
      = Inr (?nine, 0)"
    using two c3 by simp
  have c7: "normalizeValue (JNum PosInfinity) ?n = None"
    using three by simp
  have c8: "normalizeValue (JStr ''backtick'') ?d = None"
    using four by simp
  show ?thesis
    using c1 c2 c3 c4 c5 c6 c7 c8 by (simp add: readRule_quotes quotes_empty)
qed

text \<open>
  C2.  Every rule produced by the inference engine (a binary rule, the density rule, the
  line-width rule, the indentation-size rule, hence every rule of the inferred profile)
  and every rule built or written by the augmentation path has a null value exactly when
  its status is undetermined.
\<close>

theorem inferred_rules_invariant:
  "rule_inv (binaryRule yes no yesValue noValue minEvidence minConfidence autoFix prov)
   \<and> rule_inv (densityRule blankCount lineCount minEvidence minConfidence)
   \<and> rule_inv (inferLineWidth width nonBlank minEvidence minConfidence)
   \<and> rule_inv (indentationSize aggregate minEvidence minConfidence)
   \<and> rule_inv (nextRule suggestion v d sampled minEvidence minConfidence)
   \<and> rules_inv (inferProfile_rules aggregate minEvidence minConfidence)
   \<and> (\<forall>rs applied.
        maybeAugmentProfileWithLlm (inferProfile_rules aggregate minEvidence minConfidence)
          sampled minEvidence minConfidence suggestions = Inr (rs, applied)
        \<longrightarrow> rules_inv rs)"
  using binaryRule_inv densityRule_inv inferLineWidth_inv indentationSize_inv nextRule_inv
    inferProfile_rules_inv
    maybeAugment_inv [OF inferProfile_rules_inv, of aggregate minEvidence minConfidence sampled
      minEvidence minConfidence suggestions]
  by auto

theorem inferred_rules_invariant_witness:
  "rules_inv (writeRule ''syntax.quotes'' (inferProfile_rules createSignals 30 (3 / 4))
               (nextRule demoSuggestion (JStr ''single'')
                  \<lparr>dvalues = [JStr ''single'', JStr ''double''], dautoFixSafe = False\<rparr> 2 30 (3 / 4)))"
proof -
  have "maybeAugmentProfileWithLlm (inferProfile_rules createSignals 30 (3 / 4)) 2 30 (3 / 4)
          (Some [(''syntax.quotes'', Some demoSuggestion)])
        = Inr (writeRule ''syntax.quotes'' (inferProfile_rules createSignals 30 (3 / 4))
               (nextRule demoSuggestion (JStr ''single'')
                  \<lparr>dvalues = [JStr ''single'', JStr ''double''], dautoFixSafe = False\<rparr> 2 30 (3 / 4)), 1)"
    using augmentEntry_demo by (simp add: maybeAugmentProfileWithLlm_def)
  then show ?thesis
    using inferred_rules_invariant [of 0 0 "()" "()" 30 "3 / 4" False Deterministic 0 0 0 0
        createSignals demoSuggestion JNull undefined 2 "Some [(''syntax.quotes'', Some demoSuggestion)]"]
    by blast
qed

subsection \<open>Evidence tiers\<close>

text \<open>
  C6, as stated, fails.  With \<open>minEvidence = 30\<close> the sparse tier is 10 and the
  ultra-sparse tier is 6, yet three leading multiline ternaries and no trailing one are
  enough to enforce the multiline-ternary rule.
\<close>

theorem ternary_floor_counterexample:
  "rstatus (multilineTernaryOperatorPlacement (createSignals\<lparr>ternaryMultilineLeading := 3\<rparr>) 30 (3 / 4))
     = Enforced
   \<and> evidenceCount (multilineTernaryOperatorPlacement (createSignals\<lparr>ternaryMultilineLeading := 3\<rparr>) 30 (3 / 4))
     = 3
   \<and> sparseEvidence 30 = 10 \<and> ultraSparseEvidence 30 = 6"
  by (simp add: multilineTernaryOperatorPlacement_def createSignals_def binaryRule_def
      ternaryEvidence_def sparseEvidence_def ultraSparseEvidence_def)

lemma binaryRule_enforced:
  "rstatus (binaryRule yes no yesValue noValue least minConfidence autoFix prov) = Enforced \<longleftrightarrow>
     yes + no \<noteq> 0 \<and> least \<le> max yes no
     \<and> minConfidence \<le> confidence (binaryRule yes no yesValue noValue least minConfidence autoFix prov)"
  unfolding binaryRule_def Let_def by (auto simp: max_def)

lemma jsdoc_rule:
  "rstatus (jsdoc agg m c) = Enforced \<longleftrightarrow>
     functionsWithJsdoc agg + (functionsTotal agg - functionsWithJsdoc agg) \<noteq> 0
     \<and> sparseEvidence m \<le> max (functionsWithJsdoc agg) (functionsTotal agg - functionsWithJsdoc agg)
     \<and> c \<le> confidence (jsdoc agg m c)"
proof -
  have "nat (max (int (functionsTotal agg) - int (functionsWithJsdoc agg)) 0)
          = functionsTotal agg - functionsWithJsdoc agg"
    by simp
  then show ?thesis
    unfolding jsdoc_def by (simp only: binaryRule_enforced)
qed

lemma sparse_rules:
  "rstatus (commentBlockFraming agg m c) = Enforced \<longleftrightarrow>
     commentFramedBlocks agg + commentPlainBlocks agg \<noteq> 0
     \<and> sparseEvidence m \<le> max (commentFramedBlocks agg) (commentPlainBlocks agg)
     \<and> c \<le> confidence (commentBlockFraming agg m c)"
  "rstatus (fnExpressionNaming agg m c) = Enforced \<longleftrightarrow>
     functionExprNamed agg + functionExprAnonymous agg \<noteq> 0
     \<and> sparseEvidence m \<le> max (functionExprNamed agg) (functionExprAnonymous agg)
     \<and> c \<le> confidence (fnExpressionNaming agg m c)"
  "rstatus (guardClauses agg m c) = Enforced \<longleftrightarrow>
     guardClauseFunctions agg + nonGuardClauseFunctions agg \<noteq> 0
     \<and> sparseEvidence m \<le> max (guardClauseFunctions agg) (nonGuardClauseFunctions agg)
     \<and> c \<le> confidence (guardClauses agg m c)"
  "rstatus (variableDeclarationCommaPlacement agg m c) = Enforced \<longleftrightarrow>
     variableDeclarationCommaLeading agg + variableDeclarationCommaTrailing agg \<noteq> 0
     \<and> sparseEvidence m
          \<le> max (variableDeclarationCommaLeading agg) (variableDeclarationCommaTrailing agg)
     \<and> c \<le> confidence (variableDeclarationCommaPlacement agg m c)"
  "rstatus (yodaConditions agg m c) = Enforced \<longleftrightarrow>
     yodaConditionsYes agg + yodaConditionsNo agg \<noteq> 0
     \<and> sparseEvidence m \<le> max (yodaConditionsYes agg) (yodaConditionsNo agg)
     \<and> c \<le> confidence (yodaConditions agg m c)"
  "rstatus (multilineCallArgumentLayout agg m c) = Enforced \<longleftrightarrow>
     multilineCallArgumentCompact agg + multilineCallArgumentExpanded agg \<noteq> 0
     \<and> sparseEvidence m
          \<le> max (multilineCallArgumentCompact agg) (multilineCallArgumentExpanded agg)
     \<and> c \<le> confidence (multilineCallArgumentLayout agg m c)"
  "rstatus (blankLineBeforeReturn agg m c) = Enforced \<longleftrightarrow>
     blankLineBeforeReturnYes agg + blankLineBeforeReturnNo agg \<noteq> 0
     \<and> sparseEvidence m \<le> max (blankLineBeforeReturnYes agg) (blankLineBeforeReturnNo agg)
     \<and> c \<le> confidence (blankLineBeforeReturn agg m c)"
  "rstatus (blankLineBeforeIf agg m c) = Enforced \<longleftrightarrow>
     blankLineBeforeIfYes agg + blankLineBeforeIfNo agg \<noteq> 0
     \<and> sparseEvidence m \<le> max (blankLineBeforeIfYes agg) (blankLineBeforeIfNo agg)
     \<and> c \<le> confidence (blankLineBeforeIf agg m c)"
  unfolding commentBlockFraming_def fnExpressionNaming_def guardClauses_def
    variableDeclarationCommaPlacement_def yodaConditions_def multilineCallArgumentLayout_def
    blankLineBeforeReturn_def blankLineBeforeIf_def
  by (simp_all only: binaryRule_enforced)

lemma other_floors:
  "rstatus (trailingInlineCommentAlignment agg m c) = Enforced \<longleftrightarrow>
     trailingInlineCommentAlignedPairs agg + trailingInlineCommentUnalignedPairs agg \<noteq> 0
     \<and> ultraSparseEvidence m
          \<le> max (trailingInlineCommentAlignedPairs agg) (trailingInlineCommentUnalignedPairs agg)
     \<and> c \<le> confidence (trailingInlineCommentAlignment agg m c)"
  "rstatus (multilineTernaryOperatorPlacement agg m c) = Enforced \<longleftrightarrow>
     ternaryMultilineLeading agg + ternaryMultilineTrailing agg \<noteq> 0
     \<and> max 2 (m div 10) \<le> max (ternaryMultilineLeading agg) (ternaryMultilineTrailing agg)
     \<and> c \<le> confidence (multilineTernaryOperatorPlacement agg m c)"
  "rstatus (switchCaseIndentation agg m c) = Enforced \<longleftrightarrow>
     switchCaseIndented agg + switchCaseFlat agg \<noteq> 0
     \<and> max 2 (m div 4) \<le> max (switchCaseIndented agg) (switchCaseFlat agg)
     \<and> c \<le> confidence (switchCaseIndentation agg m c)"
  "rstatus (importsOrdering agg m c) = Enforced \<longleftrightarrow>
     importSortedGroups agg + importUnsortedGroups agg \<noteq> 0
     \<and> max 2 (m div 4) \<le> max (importSortedGroups agg) (importUnsortedGroups agg)
     \<and> c \<le> confidence (importsOrdering agg m c)"
  unfolding trailingInlineCommentAlignment_def multilineTernaryOperatorPlacement_def
    switchCaseIndentation_def importsOrdering_def ternaryEvidence_def
  by (simp_all only: binaryRule_enforced)

lemma floor_order:
  "max 2 (m div 10) \<le> max 2 (m div 5)"
  "max 2 (m div 5) \<le> max 2 (m div 4)"
  "max 2 (m div 4) \<le> max 2 (m div 3)"
  "max 2 (m div 10) = max 2 (m div 5) \<longleftrightarrow> m < (15 :: nat)"
  "max 2 (m div 10) = max 2 (m div 3) \<longleftrightarrow> m < (9 :: nat)"
  by (auto simp: max_def intro: div_le_mono2 le_trans)

text \<open>
  C6, amended.  The engine uses more than two reduced floors.  The sparse tier
  \<open>max 2 (minEvidence div 3)\<close> is the floor of nine rules (JSDoc, comment framing, naming of
  function expressions, guard clauses, comma placement in declarations, yoda conditions,
  call-argument layout, blank line before \<open>return\<close> and before \<open>if\<close>), the ultra-sparse tier
  \<open>max 2 (minEvidence div 5)\<close> is the floor of the rule for trailing inline comments, and
  each of these rules is enforced exactly when there is an observation, the winner
  reaches the floor and the confidence of the rule reaches \<open>minConfidence\<close>.  The
  multiline-ternary rule has a floor of its own, \<open>max 2 (minEvidence div 10)\<close>, with the
  same condition.  Another floor, \<open>max 2 (minEvidence div 4)\<close>, is that of switch-case
  indentation and import ordering, again with the same condition.  The ternary floor
  never exceeds the ultra-sparse tier, equals it exactly when \<open>minEvidence < 15\<close>, and
  equals the sparse tier exactly when \<open>minEvidence < 9\<close>.
\<close>

theorem evidence_floors:
  "(rstatus (jsdoc agg m c) = Enforced \<longleftrightarrow>
      functionsWithJsdoc agg + (functionsTotal agg - functionsWithJsdoc agg) \<noteq> 0
      \<and> sparseEvidence m \<le> max (functionsWithJsdoc agg) (functionsTotal agg - functionsWithJsdoc agg)
      \<and> c \<le> confidence (jsdoc agg m c))
   \<and> (rstatus (commentBlockFraming agg m c) = Enforced \<longleftrightarrow>
      commentFramedBlocks agg + commentPlainBlocks agg \<noteq> 0
      \<and> sparseEvidence m \<le> max (commentFramedBlocks agg) (commentPlainBlocks agg)
      \<and> c \<le> confidence (commentBlockFraming agg m c))
   \<and> (rstatus (fnExpressionNaming agg m c) = Enforced \<longleftrightarrow>
      functionExprNamed agg + functionExprAnonymous agg \<noteq> 0
      \<and> sparseEvidence m \<le> max (functionExprNamed agg) (functionExprAnonymous agg)
      \<and> c \<le> confidence (fnExpressionNaming agg m c))
   \<and> (rstatus (guardClauses agg m c) = Enforced \<longleftrightarrow>
      guardClauseFunctions agg + nonGuardClauseFunctions agg \<noteq> 0
      \<and> sparseEvidence m \<le> max (guardClauseFunctions agg) (nonGuardClauseFunctions agg)
      \<and> c \<le> confidence (guardClauses agg m c))
   \<and> (rstatus (variableDeclarationCommaPlacement agg m c) = Enforced \<longleftrightarrow>
      variableDeclarationCommaLeading agg + variableDeclarationCommaTrailing agg \<noteq> 0
      \<and> sparseEvidence m
           \<le> max (variableDeclarationCommaLeading agg) (variableDeclarationCommaTrailing agg)
      \<and> c \<le> confidence (variableDeclarationCommaPlacement agg m c))
   \<and> (rstatus (yodaConditions agg m c) = Enforced \<longleftrightarrow>
      yodaConditionsYes agg + yodaConditionsNo agg \<noteq> 0
      \<and> sparseEvidence m \<le> max (yodaConditionsYes agg) (yodaConditionsNo agg)
      \<and> c \<le> confidence (yodaConditions agg m c))
   \<and> (rstatus (multilineCallArgumentLayout agg m c) = Enforced \<longleftrightarrow>
      multilineCallArgumentCompact agg + multilineCallArgumentExpanded agg \<noteq> 0
      \<and> sparseEvidence m
           \<le> max (multilineCallArgumentCompact agg) (multilineCallArgumentExpanded agg)
      \<and> c \<le> confidence (multilineCallArgumentLayout agg m c))
   \<and> (rstatus (blankLineBeforeReturn agg m c) = Enforced \<longleftrightarrow>
      blankLineBeforeReturnYes agg + blankLineBeforeReturnNo agg \<noteq> 0
      \<and> sparseEvidence m \<le> max (blankLineBeforeReturnYes agg) (blankLineBeforeReturnNo agg)
      \<and> c \<le> confidence (blankLineBeforeReturn agg m c))
   \<and> (rstatus (blankLineBeforeIf agg m c) = Enforced \<longleftrightarrow>
      blankLineBeforeIfYes agg + blankLineBeforeIfNo agg \<noteq> 0
      \<and> sparseEvidence m \<le> max (blankLineBeforeIfYes agg) (blankLineBeforeIfNo agg)
      \<and> c \<le> confidence (blankLineBeforeIf agg m c))
   \<and> (rstatus (trailingInlineCommentAlignment agg m c) = Enforced \<longleftrightarrow>
      trailingInlineCommentAlignedPairs agg + trailingInlineCommentUnalignedPairs agg \<noteq> 0
      \<and> ultraSparseEvidence m
           \<le> max (trailingInlineCommentAlignedPairs agg) (trailingInlineCommentUnalignedPairs agg)
      \<and> c \<le> confidence (trailingInlineCommentAlignment agg m c))
   \<and> (rstatus (multilineTernaryOperatorPlacement agg m c) = Enforced \<longleftrightarrow>
      ternaryMultilineLeading agg + ternaryMultilineTrailing agg \<noteq> 0
      \<and> max 2 (m div 10) \<le> max (ternaryMultilineLeading agg) (ternaryMultilineTrailing agg)
      \<and> c \<le> confidence (multilineTernaryOperatorPlacement agg m c))
   \<and> (rstatus (switchCaseIndentation agg m c) = Enforced \<longleftrightarrow>
      switchCaseIndented agg + switchCaseFlat agg \<noteq> 0
      \<and> max 2 (m div 4) \<le> max (switchCaseIndented agg) (switchCaseFlat agg)
      \<and> c \<le> confidence (switchCaseIndentation agg m c))
   \<and> (rstatus (importsOrdering agg m c) = Enforced \<longleftrightarrow>
      importSortedGroups agg + importUnsortedGroups agg \<noteq> 0
      \<and> max 2 (m div 4) \<le> max (importSortedGroups agg) (importUnsortedGroups agg)
      \<and> c \<le> confidence (importsOrdering agg m c))
   \<and> sparseEvidence m = max 2 (m div 3)
   \<and> ultraSparseEvidence m = max 2 (m div 5)
   \<and> max 2 (m div 10) \<le> ultraSparseEvidence m
   \<and> ultraSparseEvidence m \<le> max 2 (m div 4)
   \<and> max 2 (m div 4) \<le> sparseEvidence m
   \<and> (max 2 (m div 10) = ultraSparseEvidence m \<longleftrightarrow> m < 15)
   \<and> (max 2 (m div 10) = sparseEvidence m \<longleftrightarrow> m < 9)"
  unfolding jsdoc_rule sparse_rules other_floors
  using floor_order [of m]
  by (simp add: sparseEvidence_def ultraSparseEvidence_def)

text \<open>
  With \<open>minEvidence = 30\<close> the four floors are 10, 6, 7 and 3.  Ten framed comment blocks
  enforce the framing rule and nine do not; six aligned pairs enforce the rule for inline
  comments and five do not; three leading ternaries enforce the ternary rule; seven sorted
  groups of imports enforce the ordering rule and six do not.
\<close>

theorem evidence_floors_witness:
  "rstatus (commentBlockFraming (createSignals\<lparr>commentFramedBlocks := 10\<rparr>) 30 (3 / 4)) = Enforced
   \<and> rstatus (commentBlockFraming (createSignals\<lparr>commentFramedBlocks := 9\<rparr>) 30 (3 / 4))
       = Undetermined
   \<and> rstatus (trailingInlineCommentAlignment
         (createSignals\<lparr>trailingInlineCommentAlignedPairs := 6\<rparr>) 30 (3 / 4)) = Enforced
   \<and> rstatus (trailingInlineCommentAlignment
         (createSignals\<lparr>trailingInlineCommentAlignedPairs := 5\<rparr>) 30 (3 / 4)) = Undetermined
   \<and> rstatus (multilineTernaryOperatorPlacement
         (createSignals\<lparr>ternaryMultilineLeading := 3\<rparr>) 30 (3 / 4)) = Enforced
   \<and> rstatus (importsOrdering (createSignals\<lparr>importSortedGroups := 7\<rparr>) 30 (3 / 4)) = Enforced
   \<and> rstatus (importsOrdering (createSignals\<lparr>importSortedGroups := 6\<rparr>) 30 (3 / 4))
       = Undetermined
   \<and> sparseEvidence 30 = 10 \<and> ultraSparseEvidence 30 = 6
   \<and> max 2 (30 div 4) = (7 :: nat) \<and> max 2 (30 div 10) = (3 :: nat)"
proof -
  have sure:
    "confidence (commentBlockFraming (createSignals\<lparr>commentFramedBlocks := 10\<rparr>) 30 (3 / 4)) = 1"
    "confidence (trailingInlineCommentAlignment
       (createSignals\<lparr>trailingInlineCommentAlignedPairs := 6\<rparr>) 30 (3 / 4)) = 1"
    "confidence (multilineTernaryOperatorPlacement
       (createSignals\<lparr>ternaryMultilineLeading := 3\<rparr>) 30 (3 / 4)) = 1"
    "confidence (importsOrdering (createSignals\<lparr>importSortedGroups := 7\<rparr>) 30 (3 / 4)) = 1"
    by (simp_all add: commentBlockFraming_def trailingInlineCommentAlignment_def
        multilineTernaryOperatorPlacement_def importsOrdering_def binaryRule_def createSignals_def
        sparseEvidence_def ultraSparseEvidence_def ternaryEvidence_def)
  have a: "rstatus (commentBlockFraming (createSignals\<lparr>commentFramedBlocks := 10\<rparr>) 30 (3 / 4))
      = Enforced"
    using evidence_floors [of "createSignals\<lparr>commentFramedBlocks := 10\<rparr>" 30 "3 / 4"] sure(1)
    by (simp add: createSignals_def)
  have b: "rstatus (commentBlockFraming (createSignals\<lparr>commentFramedBlocks := 9\<rparr>) 30 (3 / 4))
      = Undetermined"
    using evidence_floors [of "createSignals\<lparr>commentFramedBlocks := 9\<rparr>" 30 "3 / 4"]
    by (cases "rstatus (commentBlockFraming (createSignals\<lparr>commentFramedBlocks := 9\<rparr>) 30 (3 / 4))")
       (simp_all add: createSignals_def)
  have c: "rstatus (trailingInlineCommentAlignment
         (createSignals\<lparr>trailingInlineCommentAlignedPairs := 6\<rparr>) 30 (3 / 4)) = Enforced"
    using evidence_floors [of "createSignals\<lparr>trailingInlineCommentAlignedPairs := 6\<rparr>" 30 "3 / 4"]
      sure(2)
    by (simp add: createSignals_def)
  have c': "rstatus (trailingInlineCommentAlignment
         (createSignals\<lparr>trailingInlineCommentAlignedPairs := 5\<rparr>) 30 (3 / 4)) = Undetermined"
    using evidence_floors [of "createSignals\<lparr>trailingInlineCommentAlignedPairs := 5\<rparr>" 30 "3 / 4"]
    by (cases "rstatus (trailingInlineCommentAlignment
         (createSignals\<lparr>trailingInlineCommentAlignedPairs := 5\<rparr>) 30 (3 / 4))")
       (simp_all add: createSignals_def)
  have d: "rstatus (multilineTernaryOperatorPlacement
         (createSignals\<lparr>ternaryMultilineLeading := 3\<rparr>) 30 (3 / 4)) = Enforced"
    using evidence_floors [of "createSignals\<lparr>ternaryMultilineLeading := 3\<rparr>" 30 "3 / 4"] sure(3)
    by (simp add: createSignals_def)
  have e: "rstatus (importsOrdering (createSignals\<lparr>importSortedGroups := 7\<rparr>) 30 (3 / 4)) = Enforced"
    using evidence_floors [of "createSignals\<lparr>importSortedGroups := 7\<rparr>" 30 "3 / 4"] sure(4)
    by (simp add: createSignals_def)
  have e': "rstatus (importsOrdering (createSignals\<lparr>importSortedGroups := 6\<rparr>) 30 (3 / 4))
      = Undetermined"
    using evidence_floors [of "createSignals\<lparr>importSortedGroups := 6\<rparr>" 30 "3 / 4"]
    by (cases "rstatus (importsOrdering (createSignals\<lparr>importSortedGroups := 6\<rparr>) 30 (3 / 4))")
       (simp_all add: createSignals_def)
  show ?thesis
    using a b c c' d e e' evidence_floors [of createSignals 30 "3 / 4"]
    by simp
qed

subsection \<open>The replacement applier\<close>

lemma foldl_applyOne_filter:
  "foldl applyOne s rs = foldl applyOne s (filter (\<lambda>r. \<not> skipped r) rs)"
  by (induction rs arbitrary: s) (auto simp: applyOne_def)

lemma applyReplacements_kept:
  "applyReplacements s rs =
     foldl applyOne s (sort_key (\<lambda>r. - rstart r) (filter (\<lambda>r. \<not> skipped r) rs))"
proof -
  have "foldl applyOne s (sort_key (\<lambda>r. - rstart r) rs) =
        foldl applyOne s (filter (\<lambda>r. \<not> skipped r) (sort_key (\<lambda>r. - rstart r) rs))"
    by (rule foldl_applyOne_filter)
  then show ?thesis
    by (simp add: applyReplacements_def filter_sort)
qed

lemma filter_key_singleton:
  "distinct (map f xs) \<Longrightarrow> k \<in> set xs \<Longrightarrow> filter (\<lambda>x. f k = f x) xs = [k]"
proof (induction xs)
  case Nil
  then show ?case by simp
next
  case (Cons x xs)
  show ?case
  proof (cases "k = x")
    case True
    with Cons.prems have "\<forall>y\<in>set xs. f x \<noteq> f y" by auto
    then have "filter (\<lambda>y. f x = f y) xs = []" by (simp add: filter_empty_conv)
    with True show ?thesis by simp
  next
    case False
    with Cons.prems have k: "k \<in> set xs" and d: "distinct (map f xs)" by auto
    from Cons.prems k have "f k \<noteq> f x" by (metis distinct.simps(2) image_eqI list.simps(9) set_map)
    with Cons.IH [OF d k] show ?thesis by simp
  qed
qed

lemma sort_key_unique:
  assumes m: "mset ys = mset xs" and s: "sorted (map f ys)" and d: "distinct (map f xs)"
  shows "sort_key f xs = ys"
proof (rule properties_for_sort_key [OF m _ s])
  fix k assume k: "k \<in> set ys"
  from m have "mset (map f ys) = mset (map f xs)" by simp
  with d have dy: "distinct (map f ys)" by (metis mset_eq_imp_distinct_iff)
  from m k have kx: "k \<in> set xs" by (metis mset_eq_setD)
  show "filter (\<lambda>x. f k = f x) ys = filter (\<lambda>x. f k = f x) xs"
    by (simp add: filter_key_singleton [OF dy k] filter_key_singleton [OF d kx])
qed

lemma sort_key_mset_cong:
  assumes "mset xs = mset ys" "distinct (map f xs)"
  shows "sort_key f xs = sort_key f ys"
  by (rule sort_key_unique) (use assms in simp_all)

lemma sorted_wrt_apart_distinct:
  "sorted_wrt apart xs \<Longrightarrow> distinct (map rstart xs)"
  by (induction xs) (auto simp: apart_def)

lemma separated_distinct:
  "separated rs \<Longrightarrow> distinct (map rstart (filter (\<lambda>r. \<not> skipped r) rs))"
  unfolding separated_def by (rule sorted_wrt_apart_distinct)

lemma applyReplacements_mset:
  assumes "mset rs = mset rs'" "separated rs"
  shows "applyReplacements s rs = applyReplacements s rs'"
proof -
  let ?v = "filter (\<lambda>r. \<not> skipped r) rs" and ?v' = "filter (\<lambda>r. \<not> skipped r) rs'"
  from assms(1) have m: "mset ?v = mset ?v'" by simp
  have d: "distinct (map (\<lambda>r. - rstart r) ?v)"
    using separated_distinct [OF assms(2)]
    by (simp add: distinct_map inj_on_def)
  show ?thesis
    by (simp only: applyReplacements_kept sort_key_mset_cong [OF m d])
qed

lemma take_slice: "p \<le> q \<Longrightarrow> take p s @ slice s p q = take q s"
  unfolding slice_def
  by (metis le_add_diff_inverse take_add)

lemma foldl_rev_splice:
  assumes "sorted_wrt (\<lambda>a b. rend a \<le> rstart b) A" "list_all (fits s) A"
    and "A \<noteq> [] \<Longrightarrow> int p \<le> rstart (hd A)" "p \<le> length s"
  shows "foldl applyOne s (rev A) = take p s @ spliceFrom s p A"
  using assms
proof (induction A arbitrary: p)
  case Nil
  then show ?case by simp
next
  case (Cons r A)
  let ?e = "nat (rend r)" and ?b = "nat (rstart r)"
  from Cons.prems have fr: "fits s r" and fA: "list_all (fits s) A"
    and ch: "sorted_wrt (\<lambda>a b. rend a \<le> rstart b) A"
    and nx: "\<forall>b\<in>set A. rend r \<le> rstart b" and pb: "int p \<le> rstart r"
    by auto
  from fr have be: "?b \<le> ?e" and el: "?e \<le> length s" and ns: "\<not> skipped r"
    by (auto simp: fits_def skipped_def)
  have hdA: "A \<noteq> [] \<Longrightarrow> int ?e \<le> rstart (hd A)"
    using nx fr by (cases A) (auto simp: fits_def)
  have X: "foldl applyOne s (rev A) = take ?e s @ spliceFrom s ?e A"
    by (rule Cons.IH [OF ch fA hdA el])
  have t: "take ?b (take ?e s @ spliceFrom s ?e A) = take ?b s"
    using be el by (simp add: min_def)
  have d: "drop ?e (take ?e s @ spliceFrom s ?e A) = spliceFrom s ?e A"
    using el by simp
  have pb': "p \<le> ?b" using pb by simp
  have "foldl applyOne s (rev (r # A)) = applyOne (foldl applyOne s (rev A)) r"
    by simp
  also have "\<dots> = take ?b s @ rtext r @ spliceFrom s ?e A"
    unfolding X applyOne_def using ns t d by simp
  also have "\<dots> = take p s @ spliceFrom s p (r # A)"
    using take_slice [OF pb', of s] by simp
  finally show ?case .
qed

lemma sorted_wrt_sym_pairwise:
  assumes "sorted_wrt P xs" "\<And>a b. P a b \<Longrightarrow> P b a" "a \<in> set xs" "b \<in> set xs" "a \<noteq> b"
  shows "P a b"
  using assms by (induction xs) auto

lemma kept_chain:
  assumes sep: "sorted_wrt apart vs" and ok: "list_all (\<lambda>r. \<not> skipped r) vs"
  shows "sorted_wrt (\<lambda>a b. rend a \<le> rstart b) (sort_key rstart vs)"
proof -
  have sym: "\<And>a b. apart a b \<Longrightarrow> apart b a" by (auto simp: apart_def)
  have pw: "\<forall>a\<in>set vs. \<forall>b\<in>set vs. rstart a < rstart b \<longrightarrow> rend a \<le> rstart b"
  proof (intro ballI impI)
    fix a b assume a: "a \<in> set vs" and b: "b \<in> set vs" and lt: "rstart a < rstart b"
    then have "a \<noteq> b" by auto
    with sep sym a b have ap: "apart a b"
      by (rule_tac sorted_wrt_sym_pairwise [of apart vs]) auto
    from ok b have "rstart b \<le> rend b" by (auto simp: list_all_iff skipped_def)
    with ap lt show "rend a \<le> rstart b" by (auto simp: apart_def)
  qed
  have d: "distinct (map rstart vs)" using sep by (rule sorted_wrt_apart_distinct)
  have s: "sorted (map rstart (sort_key rstart vs))" by simp
  have d': "distinct (map rstart (sort_key rstart vs))"
    using d by (metis distinct_map distinct_sort set_sort)
  have "sorted_wrt (<) (map rstart (sort_key rstart vs))"
    using s d' by (simp only: strict_sorted_iff)
  then have "sorted_wrt (\<lambda>a b. rstart a < rstart b) (sort_key rstart vs)"
    by (simp only: sorted_wrt_map)
  then show ?thesis
    by (rule sorted_wrt_mono_rel [rotated]) (use pw in auto)
qed

lemma desc_is_rev_asc:
  assumes "distinct (map rstart vs)"
  shows "sort_key (\<lambda>r. - rstart r) vs = rev (sort_key rstart vs)"
proof (rule sort_key_unique)
  show "mset (rev (sort_key rstart vs)) = mset vs" by simp
  have "sorted (map rstart (sort_key rstart vs))" by simp
  then have "sorted (rev (map (\<lambda>r. - rstart r) (sort_key rstart vs)))"
    by (simp add: sorted_wrt_rev sorted_wrt_map sorted_map)
  then show "sorted (map (\<lambda>r. - rstart r) (rev (sort_key rstart vs)))"
    by (simp add: rev_map)
  show "distinct (map (\<lambda>r. - rstart r) vs)"
    using assms by (simp add: distinct_map inj_on_def)
qed

lemma applyReplacements_original:
  assumes sep: "separated rs" and inb: "inBounds s rs"
  shows "applyReplacements s rs = applyAgainstOriginal s rs"
proof -
  let ?v = "filter (\<lambda>r. \<not> skipped r) rs"
  let ?A = "sort_key rstart ?v"
  have ok: "list_all (\<lambda>r. \<not> skipped r) ?v" by (simp add: list_all_iff)
  have ch: "sorted_wrt (\<lambda>a b. rend a \<le> rstart b) ?A"
    using sep ok unfolding separated_def by (rule kept_chain)
  have ft: "list_all (fits s) ?A"
    using inb by (auto simp: list_all_iff inBounds_def fits_def skipped_def)
  have hd: "?A \<noteq> [] \<Longrightarrow> int 0 \<le> rstart (hd ?A)"
    using ft by (cases ?A) (auto simp: fits_def)
  have "applyReplacements s rs = foldl applyOne s (rev ?A)"
    by (simp only: applyReplacements_kept desc_is_rev_asc [OF separated_distinct [OF sep]])
  also have "\<dots> = take 0 s @ spliceFrom s 0 ?A"
    by (rule foldl_rev_splice [OF ch ft hd]) simp_all
  finally show ?thesis by (simp add: applyAgainstOriginal_def)
qed

lemma applyReplacements_drop_skipped:
  "applyReplacements s (filter (\<lambda>r. \<not> skipped r) rs) = applyReplacements s rs"
  by (simp add: applyReplacements_kept)

text \<open>
  C4, as stated, fails: a zero-length range is not dropped, it inserts its text.  Two
  insertions at the same offset are mutually disjoint, and the result depends on their
  order in the input list.
\<close>

theorem applyReplacements_counterexample:
  "applyReplacements ''abc'' [\<lparr>rstart = 1, rend = 1, rtext = ''X''\<rparr>] = ''aXbc''
   \<and> applyReplacements ''abc''
        [\<lparr>rstart = 1, rend = 1, rtext = ''X''\<rparr>, \<lparr>rstart = 1, rend = 1, rtext = ''Y''\<rparr>] = ''aYXbc''
   \<and> applyReplacements ''abc''
        [\<lparr>rstart = 1, rend = 1, rtext = ''Y''\<rparr>, \<lparr>rstart = 1, rend = 1, rtext = ''X''\<rparr>] = ''aXYbc''"
  by (simp add: applyReplacements_def applyOne_def skipped_def)

text \<open>
  C4, amended.  The applier goes through the replacements by descending start offset and
  skips those with a negative start or an end before the start; a zero-length range is
  applied as an insertion.  For replacements that are pairwise apart (different starts,
  one ending no later than the other starts) and do not end beyond the source, the
  result is the text assembled from the original string; and for replacements that are
  pairwise apart the result is the same for every order of the input list.
\<close>

theorem applyReplacements_spec:
  "applyReplacements s rs =
     foldl applyOne s (sort_key (\<lambda>r. - rstart r) (filter (\<lambda>r. \<not> skipped r) rs))
   \<and> applyReplacements s (filter (\<lambda>r. \<not> skipped r) rs) = applyReplacements s rs
   \<and> (separated rs \<and> inBounds s rs \<longrightarrow> applyReplacements s rs = applyAgainstOriginal s rs)
   \<and> (separated rs \<and> mset rs' = mset rs \<longrightarrow> applyReplacements s rs' = applyReplacements s rs)"
  using applyReplacements_kept [of s rs] applyReplacements_drop_skipped [of s rs]
    applyReplacements_original [of rs s] applyReplacements_mset [of rs rs' s]
  by simp

theorem applyReplacements_spec_witness:
  "separated [\<lparr>rstart = 1, rend = 2, rtext = ''X''\<rparr>, \<lparr>rstart = 4, rend = 5, rtext = ''YY''\<rparr>,
              \<lparr>rstart = 3, rend = 2, rtext = ''Z''\<rparr>]
   \<and> inBounds ''abcdef'' [\<lparr>rstart = 1, rend = 2, rtext = ''X''\<rparr>, \<lparr>rstart = 4, rend = 5, rtext = ''YY''\<rparr>,
              \<lparr>rstart = 3, rend = 2, rtext = ''Z''\<rparr>]
   \<and> applyReplacements ''abcdef''
        [\<lparr>rstart = 1, rend = 2, rtext = ''X''\<rparr>, \<lparr>rstart = 4, rend = 5, rtext = ''YY''\<rparr>,
         \<lparr>rstart = 3, rend = 2, rtext = ''Z''\<rparr>] = ''aXcdYYf''
   \<and> applyReplacements ''abcdef''
        [\<lparr>rstart = 3, rend = 2, rtext = ''Z''\<rparr>, \<lparr>rstart = 4, rend = 5, rtext = ''YY''\<rparr>,
         \<lparr>rstart = 1, rend = 2, rtext = ''X''\<rparr>] = ''aXcdYYf''"
proof -
  let ?a = "\<lparr>rstart = 1, rend = 2, rtext = ''X''\<rparr>"
  let ?b = "\<lparr>rstart = 4, rend = 5, rtext = ''YY''\<rparr>"
  let ?c = "\<lparr>rstart = 3, rend = 2, rtext = ''Z''\<rparr>"
  have sep: "separated [?a, ?b, ?c]"
    by (simp add: separated_def skipped_def apart_def)
  have inb: "inBounds ''abcdef'' [?a, ?b, ?c]"
    by (simp add: inBounds_def skipped_def)
  have perm: "mset [?c, ?b, ?a] = mset [?a, ?b, ?c]"
    by (simp add: add_mset_commute)
  have orig: "applyAgainstOriginal ''abcdef'' [?a, ?b, ?c] = ''aXcdYYf''"
    by (simp add: applyAgainstOriginal_def skipped_def slice_def)
  note spec = applyReplacements_spec [of "''abcdef''" "[?a, ?b, ?c]" "[?c, ?b, ?a]"]
  have e1: "applyReplacements ''abcdef'' [?a, ?b, ?c] = applyAgainstOriginal ''abcdef'' [?a, ?b, ?c]"
    using spec sep inb by blast
  have e2: "applyReplacements ''abcdef'' [?c, ?b, ?a] = applyReplacements ''abcdef'' [?a, ?b, ?c]"
    using spec sep perm by blast
  show ?thesis
    by (simp only: sep inb e2 e1 orig simp_thms)
qed

subsection \<open>Member-chain continuations in signal extraction\<close>

text \<open>
  C8, as stated, fails: a continuation line at column 0 under an object that starts at
  column 2 is counted as aligned, although the columns differ.
\<close>

theorem member_chain_counterexample:
  "visitMemberExpression [''  foo'', ''.bar''] createSignals
      \<lparr>objectStartLine = Some 1, objectStartColumn = Some 2, memberLine = Some 2\<rparr>
     = createSignals\<lparr>memberExprAligned := 1\<rparr>
   \<and> leadingSpace ''.bar'' = 0 \<and> (0::nat) \<noteq> 2"
  by (simp add: visitMemberExpression_def line_at_def leadingSpace_def js_space_def createSignals_def)

text \<open>
  C8, amended.  A member-chain continuation (the property starts on a line below the
  start of its object, and that line begins, after white space, with a dot) is counted as
  aligned exactly when the column of the continuation is at most the start column of the
  object, and as indented otherwise.
\<close>

theorem member_chain_classification:
  assumes "objectStartLine node = Some oLine" and "objectStartColumn node = Some oColumn"
    and "memberLine node = Some mLine" and "oLine < mLine"
    and "line_at lines (mLine - 1) = Some continuation"
    and "prefix ''.'' (dropWhile js_space continuation)"
  shows "visitMemberExpression lines signals node =
     (if leadingSpace continuation \<le> oColumn
      then signals\<lparr>memberExprAligned := memberExprAligned signals + 1\<rparr>
      else signals\<lparr>memberExprIndented := memberExprIndented signals + 1\<rparr>)"
proof -
  from assms(6) have "continuation \<noteq> []" by auto
  with assms show ?thesis
    by (simp add: visitMemberExpression_def)
qed

theorem member_chain_classification_witness:
  "visitMemberExpression [''foo'', ''  .bar''] createSignals
      \<lparr>objectStartLine = Some 1, objectStartColumn = Some 0, memberLine = Some 2\<rparr>
     = createSignals\<lparr>memberExprIndented := memberExprIndented createSignals + 1\<rparr>"
proof -
  have l: "line_at [''foo'', ''  .bar''] (2 - 1) = Some ''  .bar''"
    by (simp add: line_at_def)
  have p: "prefix ''.'' (dropWhile js_space ''  .bar'')"
    by (simp add: js_space_def)
  have c: "\<not> leadingSpace ''  .bar'' \<le> 0"
    by (simp add: leadingSpace_def js_space_def)
  show ?thesis
    using member_chain_classification [of
        "\<lparr>objectStartLine = Some 1, objectStartColumn = Some 0, memberLine = Some 2\<rparr>"
        1 0 2 "[''foo'', ''  .bar'']" "''  .bar''" createSignals, OF _ _ _ _ l p] c
    by simp
qed

subsection \<open>The example chain under the parser of the examples\<close>

lemma nodeType_member [simp]: "nodeType (memberNode s e l obj prop) = ''MemberExpression''"
  by (simp add: nodeType_def memberNode_def)

lemma nodeType_identifier [simp]: "nodeType (identifierNode name s e l) = ''Identifier''"
  by (simp add: nodeType_def identifierNode_def)

lemma nodeType_chain [simp]:
  "nodeType (chainProgram w) = ''Program''"
  "nodeType (chainStatement w) = ''ExpressionStatement''"
  "nodeType (chainOuter w) = ''MemberExpression''"
  "nodeType (chainInner w) = ''MemberExpression''"
  "nodeType chainX = ''Identifier''"
  "nodeType (chainA w) = ''Identifier''"
  "nodeType (chainB w) = ''Identifier''"
  by (simp_all add: chainOuter_def chainInner_def chainX_def chainA_def chainB_def)
     (simp_all add: nodeType_def chainProgram_def chainStatement_def)

lemma member_visits:
  "filter (\<lambda>p. nodeType (fst p) \<in> set [''MemberExpression'']) (chainVisits w)
     = [(chainOuter w, chainStatement w), (chainInner w, chainOuter w)]"
  by (simp add: chainVisits_def)

lemma memberLoc_outer:
  "memberLocOf (chainOuter w) = \<lparr>objectStartLine = Some 1, objectStartColumn = Some 0, memberLine = Some 2\<rparr>"
  by (simp add: memberLocOf_def numAt_def pathGet_def chainOuter_def chainInner_def chainB_def
      memberNode_def identifierNode_def locOf_def)

lemma memberLoc_inner:
  "memberLocOf (chainInner w) = \<lparr>objectStartLine = Some 1, objectStartColumn = Some 0, memberLine = Some 2\<rparr>"
  by (simp add: memberLocOf_def numAt_def pathGet_def chainInner_def chainA_def chainX_def
      memberNode_def identifierNode_def locOf_def)

lemma chainSource_0: "chainSource 0 = [CHR ''x'', CHR 0x0A, CHR ''.'', CHR ''a'', CHR ''.'', CHR ''b'', CHR '';'']"
  by (simp add: chainSource_def)

lemma chainSource_4:
  "chainSource 4 = [CHR ''x'', CHR 0x0A, CHR '' '', CHR '' '', CHR '' '', CHR '' '',
     CHR ''.'', CHR ''a'', CHR ''.'', CHR ''b'', CHR '';'']"
  by (simp add: chainSource_def eval_nat_numeral)

lemma chainFile_4_0: "chainFile 4 \<noteq> chainFile 0"
  by (simp add: chainFile_def)

lemma demo_parse:
  "parseAst demoBabel (chainSource 0) = Some (chainFile 0)"
  "parseAst demoBabel (chainSource 4) = Some (chainFile 4)"
  "parseAst demoBabel ''('' = None"
  "parseAst demoBabel redeclaredSource = Some redeclaredFile"
  by (simp_all add: parseAst_def demoBabel_def chainSource_0 chainSource_4 redeclaredSource_def)

lemma demo_traverse:
  "babelTraverse demoBabel (chainFile 0) = Some (chainVisits 0)"
  "babelTraverse demoBabel (chainFile 4) = Some (chainVisits 4)"
  by (simp_all add: demoBabel_def chainFile_4_0)


lemma demo_members:
  "visit demoBabel (chainFile 0) [''MemberExpression'']
     = Inr [(chainOuter 0, chainStatement 0), (chainInner 0, chainOuter 0)]"
  "visit demoBabel (chainFile 4) [''MemberExpression'']
     = Inr [(chainOuter 4, chainStatement 4), (chainInner 4, chainOuter 4)]"
  unfolding visit_def demo_traverse by (simp_all only: option.case member_visits)

lemma lines_0: "split_lines (chainSource 0) = [''x'', ''.a.b;'']"
  by (simp add: chainSource_0)

lemma lines_4: "split_lines (chainSource 4) = [''x'', ''    .a.b;'']"
  by (simp add: chainSource_4)

lemma offsets_0: "lineOffsets (chainSource 0) = [0, 2]"
  by (simp add: chainSource_0 lineOffsets_def)

lemma offsets_4: "lineOffsets (chainSource 4) = [0, 2]"
  by (simp add: chainSource_4 lineOffsets_def)

lemma chain_replacement_0:
  "chainReplacement [''x'', ''.a.b;''] [0, 2] Indented SpaceIndent 2
     \<lparr>objectStartLine = Some 1, objectStartColumn = Some 0, memberLine = Some 2\<rparr>
   = [\<lparr>rstart = 2, rend = 2, rtext = ''  ''\<rparr>]"
  by (simp add: chainReplacement_def line_at_def leadingSpace_def js_space_def indentStepOf_def
      indentForColumn_def eval_nat_numeral)

lemma chain_replacement_4:
  "chainReplacement [''x'', ''    .a.b;''] [0, 2] Indented SpaceIndent 2
     \<lparr>objectStartLine = Some 1, objectStartColumn = Some 0, memberLine = Some 2\<rparr>
   = [\<lparr>rstart = 2, rend = 6, rtext = ''  ''\<rparr>]"
  by (simp add: chainReplacement_def line_at_def leadingSpace_def js_space_def indentStepOf_def
      indentForColumn_def eval_nat_numeral)

subsection \<open>Member-chain normalization is not idempotent\<close>

lemma insert_twice_at_2:
  "applyReplacements [CHR ''x'', CHR 0x0A, CHR ''.'', CHR ''a'', CHR ''.'', CHR ''b'', CHR '';'']
     [\<lparr>rstart = 2, rend = 2, rtext = ''  ''\<rparr>, \<lparr>rstart = 2, rend = 2, rtext = ''  ''\<rparr>]
   = [CHR ''x'', CHR 0x0A, CHR '' '', CHR '' '', CHR '' '', CHR '' '',
      CHR ''.'', CHR ''a'', CHR ''.'', CHR ''b'', CHR '';'']"
  by (simp add: applyReplacements_def applyOne_def skipped_def eval_nat_numeral)

lemma replace_twice_at_2:
  "applyReplacements [CHR ''x'', CHR 0x0A, CHR '' '', CHR '' '', CHR '' '', CHR '' '',
      CHR ''.'', CHR ''a'', CHR ''.'', CHR ''b'', CHR '';'']
     [\<lparr>rstart = 2, rend = 6, rtext = ''  ''\<rparr>, \<lparr>rstart = 2, rend = 6, rtext = ''  ''\<rparr>]
   = [CHR ''x'', CHR 0x0A, CHR '' '', CHR '' '', CHR ''.'', CHR ''b'', CHR '';'']"
  by (simp add: applyReplacements_def applyOne_def skipped_def eval_nat_numeral)

lemma apply_twice_at_2:
  "applyReplacements (chainSource 0)
     [\<lparr>rstart = 2, rend = 2, rtext = ''  ''\<rparr>, \<lparr>rstart = 2, rend = 2, rtext = ''  ''\<rparr>]
   = chainSource 4"
  by (simp only: chainSource_0 chainSource_4 insert_twice_at_2)

lemma apply_twice_at_2_6:
  "applyReplacements (chainSource 4)
     [\<lparr>rstart = 2, rend = 6, rtext = ''  ''\<rparr>, \<lparr>rstart = 2, rend = 6, rtext = ''  ''\<rparr>]
   = [CHR ''x'', CHR 0x0A, CHR '' '', CHR '' '', CHR ''.'', CHR ''b'', CHR '';'']"
  by (simp only: chainSource_4 replace_twice_at_2)

lemma fallback_0:
  "applyMemberChainIndentation demoBabel (chainSource 0) Indented SpaceIndent 2
     = Inr (chainSource 4)"
  unfolding applyMemberChainIndentation_def
  by (simp only: demo_parse option.case sum.case demo_members lines_0 offsets_0
      list.map fst_conv memberLoc_outer memberLoc_inner chain_replacement_0 concat.simps append.simps
      apply_twice_at_2)

lemma fallback_4:
  "applyMemberChainIndentation demoBabel (chainSource 4) Indented SpaceIndent 2
     = Inr [CHR ''x'', CHR 0x0A, CHR '' '', CHR '' '', CHR ''.'', CHR ''b'', CHR '';'']"
  unfolding applyMemberChainIndentation_def
  by (simp only: demo_parse option.case sum.case demo_members lines_4 offsets_4
      list.map fst_conv memberLoc_outer memberLoc_inner chain_replacement_4 concat.simps append.simps
      apply_twice_at_2_6)

lemma damaged_differs:
  "[CHR ''x'', CHR 0x0A, CHR '' '', CHR '' '', CHR ''.'', CHR ''b'', CHR '';''] \<noteq> chainSource 4"
  by (simp add: chainSource_4)


text \<open>
  C3 fails on the code.  With style \<open>indented\<close>, spaces and indentation size 2, the
  member-chain normalizer turns the chain at indentation 0 into the chain at indentation
  4 (both member expressions of the continuation line push the same insertion of two
  spaces, and both are applied); run on its own output it pushes the same replacement of
  offsets 2 to 6 twice, and the second application removes \<open>.a\<close> from the program.  So
  \<open>N (N src)\<close> differs from \<open>N src\<close>.
\<close>

theorem member_chain_not_idempotent:
  "applyMemberExpressionIndentation demoBabel (chainSource 0) (Some Indented) SpaceIndent 2 None
     = Inr (chainSource 4)
   \<and> applyMemberExpressionIndentation demoBabel (chainSource 4) (Some Indented) SpaceIndent 2 None
     = Inr [CHR ''x'', CHR 0x0A, CHR '' '', CHR '' '', CHR ''.'', CHR ''b'', CHR '';'']
   \<and> [CHR ''x'', CHR 0x0A, CHR '' '', CHR '' '', CHR ''.'', CHR ''b'', CHR '';''] \<noteq> chainSource 4"
  unfolding applyMemberExpressionIndentation_def
  by (simp only: option.case sum.case fallback_0 fallback_4 damaged_differs simp_thms)





subsection \<open>Normalizers that leave the source alone\<close>
















subsection \<open>Node signatures\<close>

text \<open>Having the same shape is having the same tree once the dropped properties are gone.\<close>

lemma shapeEq_sanitize:
  "shapeEq (a :: 'n jv) b \<longleftrightarrow> sanitizeForSignature a = sanitizeForSignature b"
  "shapeEqElems (xs :: 'n jv list) ys \<longleftrightarrow> sanitizeElems xs = sanitizeElems ys"
  "shapeEqEntries (fs :: (string \<times> 'n jv) list) gs \<longleftrightarrow> sanitizeEntries fs = sanitizeEntries gs"
proof (induction a b and xs ys and fs gs rule: shapeEq_shapeEqElems_shapeEqEntries.induct)
  case (3 w)
  then show ?case by (cases w) auto
next
  case (4 w)
  then show ?case by (cases w) auto
next
  case (5 b w)
  then show ?case by (cases w) auto
next
  case (6 n w)
  then show ?case by (cases w) auto
next
  case (7 s w)
  then show ?case by (cases w) auto
next
  case (10 ys)
  then show ?case by (cases ys) auto
qed (auto)

text \<open>
  \<open>QuoteJSONString\<close> can be read back: the escapes of two characters are never a prefix of
  one another, so a quoted string followed by any text determines the string and the text.
\<close>

lemma hexDigit_inj:
  assumes "a < 16" "b < 16" "hexDigit a = hexDigit b"
  shows "a = b"
proof -
  have d: "distinct ''0123456789abcdef''" by simp
  have l: "length ''0123456789abcdef'' = 16" by simp
  from assms show ?thesis
    unfolding hexDigit_def using d l
    by (metis mod_less nth_eq_iff_index_eq)
qed

lemma escapeChar_cases:
  "escapeChar c = [c] \<and> c \<noteq> CHR 0x22 \<and> c \<noteq> CHR 0x5C
   \<or> (\<exists>x. escapeChar c = [CHR 0x5C, x] \<and> x \<in> set ''btnfr'' \<union> {CHR 0x22, CHR 0x5C})
   \<or> (escapeChar c = [CHR 0x5C, CHR ''u'', CHR ''0'', CHR ''0'',
         hexDigit (of_char c div 16), hexDigit (of_char c mod 16)] \<and> of_char c < (32::nat))"
  unfolding escapeChar_def by auto

lemma div_mod_16_eq:
  fixes a b :: nat
  assumes "a div 16 = b div 16" "a mod 16 = b mod 16"
  shows "a = b"
  by (metis assms div_mult_mod_eq)

lemma escape_six_inj:
  assumes "hexDigit (of_char c div 16) = hexDigit (of_char c' div 16)"
    and "hexDigit (of_char c mod 16) = hexDigit (of_char c' mod 16)"
    and "of_char c < (32::nat)" "of_char c' < (32::nat)"
  shows "c = c'"
proof -
  have "(of_char c :: nat) div 16 = of_char c' div 16"
    using assms by (intro hexDigit_inj) auto
  moreover have "(of_char c :: nat) mod 16 = of_char c' mod 16"
    using assms by (intro hexDigit_inj) auto
  ultimately have "(of_char c :: nat) = of_char c'" by (rule div_mod_16_eq)
  then show ?thesis by simp
qed

lemma escapeChar_prefix_free:
  assumes "escapeChar c @ A = escapeChar c' @ B"
  shows "c = c' \<and> A = B"
proof -
  consider (lit) "escapeChar c = [c]" "c \<noteq> CHR 0x22" "c \<noteq> CHR 0x5C"
    | (two) x where "escapeChar c = [CHR 0x5C, x]" "x \<in> set ''btnfr'' \<union> {CHR 0x22, CHR 0x5C}"
    | (six) "escapeChar c = [CHR 0x5C, CHR ''u'', CHR ''0'', CHR ''0'',
         hexDigit (of_char c div 16), hexDigit (of_char c mod 16)]" "of_char c < (32::nat)"
    using escapeChar_cases [of c] by blast
  then show ?thesis
  proof cases
    case lit
    consider (lit') "escapeChar c' = [c']" "c' \<noteq> CHR 0x22" "c' \<noteq> CHR 0x5C"
      | (two') x where "escapeChar c' = [CHR 0x5C, x]"
      | (six') "escapeChar c' = [CHR 0x5C, CHR ''u'', CHR ''0'', CHR ''0'',
           hexDigit (of_char c' div 16), hexDigit (of_char c' mod 16)]"
      using escapeChar_cases [of c'] by blast
    then show ?thesis
      using assms lit by cases auto
  next
    case two
    consider (lit') "escapeChar c' = [c']" "c' \<noteq> CHR 0x22" "c' \<noteq> CHR 0x5C"
      | (two') x' where "escapeChar c' = [CHR 0x5C, x']"
      | (six') "escapeChar c' = [CHR 0x5C, CHR ''u'', CHR ''0'', CHR ''0'',
           hexDigit (of_char c' div 16), hexDigit (of_char c' mod 16)]"
      using escapeChar_cases [of c'] by blast
    then show ?thesis
    proof cases
      case lit'
      with assms two show ?thesis by auto
    next
      case two'
      with assms two have e: "escapeChar c = escapeChar c'" and ab: "A = B" by auto
      from e two(1) have "c = c'"
        by (auto simp: escapeChar_def split: if_splits)
      with ab show ?thesis by simp
    next
      case six'
      with assms two show ?thesis by auto
    qed
  next
    case six
    consider (lit') "escapeChar c' = [c']" "c' \<noteq> CHR 0x22" "c' \<noteq> CHR 0x5C"
      | (two') x' where "escapeChar c' = [CHR 0x5C, x']" "x' \<in> set ''btnfr'' \<union> {CHR 0x22, CHR 0x5C}"
      | (six') "escapeChar c' = [CHR 0x5C, CHR ''u'', CHR ''0'', CHR ''0'',
           hexDigit (of_char c' div 16), hexDigit (of_char c' mod 16)]" "of_char c' < (32::nat)"
      using escapeChar_cases [of c'] by blast
    then show ?thesis
    proof cases
      case lit'
      with assms six show ?thesis by auto
    next
      case two'
      with assms six show ?thesis by auto
    next
      case six'
      with assms six have "hexDigit (of_char c div 16) = hexDigit (of_char c' div 16)"
        "hexDigit (of_char c mod 16) = hexDigit (of_char c' mod 16)" "A = B"
        by auto
      with six(2) six'(2) show ?thesis
        using escape_six_inj by blast
    qed
  qed
qed

lemma escapeChar_head:
  "escapeChar c \<noteq> [] \<and> hd (escapeChar c) \<noteq> CHR 0x22"
  using escapeChar_cases [of c] by auto

lemma escaped_decode:
  "concat (map escapeChar s) @ CHR 0x22 # r = concat (map escapeChar s') @ CHR 0x22 # r'
     \<Longrightarrow> s = s' \<and> r = r'"
proof (induction s arbitrary: s')
  case Nil
  show ?case
  proof (cases s')
    case Nil
    with Nil.prems show ?thesis by simp
  next
    case (Cons c cs)
    with Nil.prems escapeChar_head [of c] show ?thesis
      by (cases "escapeChar c") auto
  qed
next
  case (Cons c cs)
  show ?case
  proof (cases s')
    case Nil
    with Cons.prems escapeChar_head [of c] show ?thesis
      by (cases "escapeChar c") auto
  next
    case (Cons c' cs')
    with Cons.prems have
      "escapeChar c @ (concat (map escapeChar cs) @ CHR 0x22 # r)
         = escapeChar c' @ (concat (map escapeChar cs') @ CHR 0x22 # r')"
      by simp
    then have "c = c'" and
      "concat (map escapeChar cs) @ CHR 0x22 # r = concat (map escapeChar cs') @ CHR 0x22 # r'"
      using escapeChar_prefix_free by blast+
    with Cons.IH Cons show ?thesis by blast
  qed
qed

lemma quote_decode:
  "quoteJSONString s @ r = quoteJSONString s' @ r' \<Longrightarrow> s = s' \<and> r = r'"
  unfolding quoteJSONString_def using escaped_decode [of s r s' r'] by simp

text \<open>The text of data, and where the text of a number ends.\<close>

lemma stringify_data: "jsonData v \<Longrightarrow> stringify num v = Some (jsonText num v)"
  by (cases v) (simp_all add: jsonText_def)

lemma elems_text: "stringifyElems num xs = map (jsonText num) xs"
  by (induction xs) (simp_all add: jsonText_def)

lemma entries_text: "jsonDataEntries fs \<Longrightarrow> stringifyEntries num fs = map (entryText num) fs"
  by (induction fs) (simp_all add: entryText_def stringify_data)

lemma joinComma_Cons:
  "joinComma (x # xs) = x @ (if xs = [] then [] else CHR '','' # joinComma xs)"
  by (cases xs) simp_all

lemma jsonText_simps:
  "jsonText num JNull = ''null''"
  "jsonText num (JBool b) = (if b then ''true'' else ''false'')"
  "jsonText num (JNum n) = num n"
  "jsonText num (JStr s) = quoteJSONString s"
  "jsonText num (JArr xs) = CHR ''['' # joinComma (map (jsonText num) xs) @ '']''"
  "jsonDataEntries fs \<Longrightarrow> jsonText num (JObj fs) = CHR ''{'' # joinComma (map (entryText num) fs) @ ''}''"
  by (simp_all add: jsonText_def elems_text entries_text)

lemma numeric_split:
  assumes "numericText a" "numericText b" "atDelimiter r" "atDelimiter r'" "a @ r = b @ r'"
  shows "a = b \<and> r = r'"
proof -
  let ?P = "\<lambda>c. c \<in> set ''0123456789+-.eE''"
  have ta: "takeWhile ?P (a @ r) = a"
    using assms(1,3) by (cases r) (auto simp: numericText_def atDelimiter_def takeWhile_append2 subset_iff)
  have tb: "takeWhile ?P (b @ r') = b"
    using assms(2,4) by (cases r') (auto simp: numericText_def atDelimiter_def takeWhile_append2 subset_iff)
  from ta tb assms(5) have "a = b" by simp
  with assms(5) show ?thesis by simp
qed

text \<open>
  The text of a value can be read back: followed by a delimiter or by nothing, it
  determines the value and what follows.
\<close>

lemma numeric_head:
  "numericText s \<Longrightarrow> \<exists>c cs. s = c # cs \<and> c \<in> set ''0123456789+-.eE''"
  by (cases s) (auto simp: numericText_def)

lemma text_head:
  assumes "\<forall>n. numericText (num n)" "jsonData v"
  shows "\<exists>c cs. jsonText num v = c # cs \<and> c \<notin> {CHR '','', CHR '']'', CHR ''}''}"
proof (cases v)
  case (JNum n)
  with numeric_head [of "num n"] assms(1) show ?thesis
    by (auto simp: jsonText_simps)
next
  case (JObj fs)
  with assms(2) show ?thesis by (simp add: jsonText_simps)
qed (use assms(2) in \<open>auto simp: jsonText_simps quoteJSONString_def\<close>)

lemma entry_head: "\<exists>cs. entryText num e = CHR 0x22 # cs"
  by (simp add: entryText_def quoteJSONString_def)

lemma json_decode:
  assumes inj: "inj num" and numa: "\<forall>n. numericText (num n)"
  shows "jsonData (v :: 'n jv) \<Longrightarrow>
           (\<And>w r r'. jsonData w \<Longrightarrow> atDelimiter r \<Longrightarrow> atDelimiter r' \<Longrightarrow>
              jsonText num v @ r = jsonText num w @ r' \<Longrightarrow> v = w \<and> r = r')"
    and "jsonDataElems (xs :: 'n jv list) \<Longrightarrow>
           (\<And>ys r r'. jsonDataElems ys \<Longrightarrow>
              joinComma (map (jsonText num) xs) @ CHR '']'' # r
                = joinComma (map (jsonText num) ys) @ CHR '']'' # r' \<Longrightarrow> xs = ys \<and> r = r')"
    and "jsonDataEntries (fs :: (string \<times> 'n jv) list) \<Longrightarrow>
           (\<And>gs r r'. jsonDataEntries gs \<Longrightarrow>
              joinComma (map (entryText num) fs) @ CHR ''}'' # r
                = joinComma (map (entryText num) gs) @ CHR ''}'' # r' \<Longrightarrow> fs = gs \<and> r = r')"
proof (induction v and xs and fs rule: jsonData_jsonDataElems_jsonDataEntries.induct)
  case 1
  then show ?case by simp
next
  case 2
  have nh: "\<And>m. \<exists>c cs. num m = c # cs \<and> c \<in> set ''0123456789+-.eE''"
    using numeric_head numa by blast
  from 2 show ?case
  proof (cases w)
    case (JNum m)
    with 2 nh [of m] show ?thesis by (auto simp: jsonText_simps)
  qed (auto simp: jsonText_simps quoteJSONString_def split: if_splits)
next
  case (3 b)
  have nh: "\<And>m. \<exists>c cs. num m = c # cs \<and> c \<in> set ''0123456789+-.eE''"
    using numeric_head numa by blast
  from 3 show ?case
  proof (cases w)
    case (JNum m)
    with 3 nh [of m] show ?thesis by (auto simp: jsonText_simps split: if_splits)
  qed (auto simp: jsonText_simps quoteJSONString_def split: if_splits)
next
  case (4 n)
  have nh: "\<exists>c cs. num n = c # cs \<and> c \<in> set ''0123456789+-.eE''"
    using numeric_head numa by blast
  from 4 show ?case
  proof (cases w)
    case (JNum m)
    with 4 have "num n @ r = num m @ r'" by (simp add: jsonText_simps)
    with numeric_split [of "num n" "num m" r r'] numa 4(3,4) have "num n = num m" "r = r'" by blast+
    with inj JNum show ?thesis by (auto dest: injD)
  qed (use 4 nh in \<open>auto simp: jsonText_simps quoteJSONString_def split: if_splits\<close>)
next
  case (5 s)
  have nh: "\<And>m. \<exists>c cs. num m = c # cs \<and> c \<in> set ''0123456789+-.eE''"
    using numeric_head numa by blast
  from 5 show ?case
  proof (cases w)
    case (JNum m)
    with 5 nh [of m] show ?thesis by (auto simp: jsonText_simps quoteJSONString_def)
  next
    case (JStr s')
    with 5 quote_decode [of s r s' r'] show ?thesis by (simp add: jsonText_simps)
  qed (auto simp: jsonText_simps quoteJSONString_def split: if_splits)
next
  case (6 xs)
  have nh: "\<And>m. \<exists>c cs. num m = c # cs \<and> c \<in> set ''0123456789+-.eE''"
    using numeric_head numa by blast
  from 6(2) have dx: "jsonDataElems xs" by simp
  from 6(3-) show ?case
  proof (cases w)
    case (JNum m)
    with 6(3-) nh [of m] show ?thesis by (auto simp: jsonText_simps)
  next
    case (JArr ys)
    with 6(3-) have "jsonDataElems ys"
      "joinComma (map (jsonText num) xs) @ CHR '']'' # r
         = joinComma (map (jsonText num) ys) @ CHR '']'' # r'"
      by (simp_all add: jsonText_simps)
    with 6(1) [OF dx] JArr show ?thesis by blast
  qed (auto simp: jsonText_simps quoteJSONString_def split: if_splits)
next
  case (7 fs)
  have nh: "\<And>m. \<exists>c cs. num m = c # cs \<and> c \<in> set ''0123456789+-.eE''"
    using numeric_head numa by blast
  from 7(2) have df: "jsonDataEntries fs" by simp
  from 7(3-) show ?case
  proof (cases w)
    case (JNum m)
    with 7(3-) df nh [of m] show ?thesis by (auto simp: jsonText_simps)
  next
    case (JObj gs)
    with 7(3-) df have "jsonDataEntries gs"
      "joinComma (map (entryText num) fs) @ CHR ''}'' # r
         = joinComma (map (entryText num) gs) @ CHR ''}'' # r'"
      by (simp_all add: jsonText_simps)
    with 7(1) [OF df] JObj show ?thesis by blast
  qed (use df in \<open>auto simp: jsonText_simps quoteJSONString_def split: if_splits\<close>)
next
  case 8
  show ?case
  proof (cases ys)
    case Nil
    with 8 show ?thesis by simp
  next
    case (Cons y ys')
    with 8 have "jsonData y" by simp
    from text_head [OF numa this] obtain c cs where "jsonText num y = c # cs" "c \<noteq> CHR '']''"
      by auto
    with 8 Cons show ?thesis by (simp add: joinComma_Cons)
  qed
next
  case (9 x xs)
  from 9(3) have dx: "jsonData x" and dxs: "jsonDataElems xs" by simp_all
  from text_head [OF numa dx] obtain c cs where hx: "jsonText num x = c # cs" "c \<noteq> CHR '']''"
    by auto
  show ?case
  proof (cases ys)
    case Nil
    with 9(5) hx show ?thesis by (simp add: joinComma_Cons)
  next
    case (Cons y ys')
    with 9(4) have dy: "jsonData y" and dys: "jsonDataElems ys'" by simp_all
    let ?R = "(if xs = [] then [] else CHR '','' # joinComma (map (jsonText num) xs)) @ CHR '']'' # r"
    let ?R' = "(if ys' = [] then [] else CHR '','' # joinComma (map (jsonText num) ys')) @ CHR '']'' # r'"
    have eq: "jsonText num x @ ?R = jsonText num y @ ?R'"
      using 9(5) Cons by (simp add: joinComma_Cons)
    have "atDelimiter ?R" "atDelimiter ?R'" by (simp_all add: atDelimiter_def)
    from 9(1) [OF dx dy this eq] have xy: "x = y" and rr: "?R = ?R'" by blast+
    show ?thesis
    proof (cases "xs = []")
      case True
      with rr xy Cons show ?thesis by (cases "ys' = []") auto
    next
      case False
      with rr have ne: "ys' \<noteq> []" by (cases "ys' = []") auto
      with rr False have
        "joinComma (map (jsonText num) xs) @ CHR '']'' # r
           = joinComma (map (jsonText num) ys') @ CHR '']'' # r'"
        by simp
      from 9(2) [OF dxs dys this] xy Cons show ?thesis by simp
    qed
  qed
next
  case 10
  show ?case
  proof (cases gs)
    case Nil
    with 10 show ?thesis by simp
  next
    case (Cons g gs')
    from entry_head [of num g] obtain cs where "entryText num g = CHR 0x22 # cs" by blast
    with 10 Cons show ?thesis by (simp add: joinComma_Cons)
  qed
next
  case (11 e es)
  from 11(3) have de: "jsonData (snd e)" and des: "jsonDataEntries es" by simp_all
  from entry_head [of num e] obtain cs where he: "entryText num e = CHR 0x22 # cs" by blast
  show ?case
  proof (cases gs)
    case Nil
    with 11(5) he show ?thesis by (simp add: joinComma_Cons)
  next
    case (Cons g gs')
    with 11(4) have dg: "jsonData (snd g)" and dgs: "jsonDataEntries gs'" by simp_all
    let ?R = "(if es = [] then [] else CHR '','' # joinComma (map (entryText num) es)) @ CHR ''}'' # r"
    let ?R' = "(if gs' = [] then [] else CHR '','' # joinComma (map (entryText num) gs')) @ CHR ''}'' # r'"
    have "entryText num e @ ?R = entryText num g @ ?R'"
      using 11(5) Cons by (simp add: joinComma_Cons)
    then have eq: "quoteJSONString (fst e) @ (CHR '':'' # jsonText num (snd e) @ ?R)
              = quoteJSONString (fst g) @ (CHR '':'' # jsonText num (snd g) @ ?R')"
      by (simp add: entryText_def [of num e] entryText_def [of num g])
    from quote_decode [OF eq] have k: "fst e = fst g"
      and eq2: "jsonText num (snd e) @ ?R = jsonText num (snd g) @ ?R'"
      by simp_all
    have "atDelimiter ?R" "atDelimiter ?R'" by (simp_all add: atDelimiter_def)
    from 11(1) [OF de dg this eq2] have v: "snd e = snd g" and rr: "?R = ?R'" by blast+
    from k v have eg: "e = g" by (simp add: prod_eq_iff)
    show ?thesis
    proof (cases "es = []")
      case True
      with rr eg Cons show ?thesis by (cases "gs' = []") auto
    next
      case False
      with rr have ne: "gs' \<noteq> []" by (cases "gs' = []") auto
      with rr False have
        "joinComma (map (entryText num) es) @ CHR ''}'' # r
           = joinComma (map (entryText num) gs') @ CHR ''}'' # r'"
        by simp
      from 11(2) [OF des dgs this] eg Cons show ?thesis by simp
    qed
  qed
qed

lemma signature_injective:
  assumes "inj num" "\<forall>n. numericText (num n)"
    and "jsonData (sanitizeForSignature a)" "jsonData (sanitizeForSignature b)"
    and "nodeSignature num a = nodeSignature num b"
  shows "shapeEq a b"
proof -
  from assms(3,4,5) have
    "jsonText num (sanitizeForSignature a) @ [] = jsonText num (sanitizeForSignature b) @ []"
    by (simp add: nodeSignature_def stringify_data)
  moreover have "atDelimiter []" by (simp add: atDelimiter_def)
  ultimately have "sanitizeForSignature a = sanitizeForSignature b"
    using json_decode(1) [OF assms(1,2) assms(3) assms(4)] by blast
  then show ?thesis by (simp add: shapeEq_sanitize(1))
qed

lemma hexDigit_decimal: "d < 10 \<Longrightarrow> hexDigit d \<in> set ''0123456789''"
proof -
  assume "d < 10"
  then have "d \<in> {0, 1, 2, 3, 4, 5, 6, 7, 8, 9}" by auto
  then show ?thesis unfolding hexDigit_def by auto
qed

lemma natText_numeric: "numericText (natText n)"
proof (induction n rule: natText.induct)
  case (1 n)
  have m: "n mod 10 < 10" by simp
  show ?case
  proof (cases "n < 10")
    case True
    with hexDigit_decimal [of n] show ?thesis
      by (subst natText.simps) (auto simp: numericText_def)
  next
    case False
    with 1 hexDigit_decimal [OF m] show ?thesis
      by (subst natText.simps) (auto simp: numericText_def)
  qed
qed

lemma natText_nonempty: "natText n \<noteq> []"
  using natText_numeric [of n] by (simp add: numericText_def)

lemma natText_inj: "inj natText"
proof (rule injI)
  fix n m
  show "natText n = natText m \<Longrightarrow> n = m"
  proof (induction n arbitrary: m rule: natText.induct)
    case (1 n)
    show ?case
    proof (cases "n < 10")
      case True
      then have n: "natText n = [hexDigit n]" by (subst natText.simps) simp
      show ?thesis
      proof (cases "m < 10")
        case True
        then have "natText m = [hexDigit m]" by (subst natText.simps) simp
        with n 1(2) have "hexDigit n = hexDigit m" by simp
        with \<open>n < 10\<close> True show ?thesis by (intro hexDigit_inj) simp_all
      next
        case False
        then have "natText m = natText (m div 10) @ [hexDigit (m mod 10)]"
          by (subst natText.simps) simp
        with n 1(2) natText_nonempty [of "m div 10"] show ?thesis by (cases "natText (m div 10)") simp_all
      qed
    next
      case False
      then have n: "natText n = natText (n div 10) @ [hexDigit (n mod 10)]"
        by (subst natText.simps) simp
      show ?thesis
      proof (cases "m < 10")
        case True
        then have "natText m = [hexDigit m]" by (subst natText.simps) simp
        with n 1(2) natText_nonempty [of "n div 10"] show ?thesis by (cases "natText (n div 10)") simp_all
      next
        case m: False
        then have "natText m = natText (m div 10) @ [hexDigit (m mod 10)]"
          by (subst natText.simps) simp
        with n 1(2) have t: "natText (n div 10) = natText (m div 10)"
          and h: "hexDigit (n mod 10) = hexDigit (m mod 10)" by simp_all
        from 1(1) [OF False t] have d: "n div 10 = m div 10" .
        have "n mod 10 < 16" "m mod 10 < 16"
          by (rule less_trans [OF mod_less_divisor], simp, simp)+
        from hexDigit_inj [OF this h] have "n mod 10 = m mod 10" .
        with d show ?thesis by (metis div_mult_mod_eq)
      qed
    qed
  qed
qed

text \<open>
  C5.  Two nodes of the same shape (the same tree once positions, ranges, raw text and
  attached comments are left out) have the same signature, however numbers are printed.
  Two nodes of different shapes, for instance after a change of a literal value or of an
  operator, have different signatures, provided that distinct numbers are printed as
  distinct numeric texts and that no property or array element kept in the signature is
  \<open>undefined\<close>.
\<close>

theorem nodeSignature_shape:
  "(shapeEq a b \<longrightarrow> nodeSignature num a = nodeSignature num b) \<and>
   (inj num \<and> (\<forall>n. numericText (num n)) \<and>
    jsonData (sanitizeForSignature a) \<and> jsonData (sanitizeForSignature b) \<and>
    \<not> shapeEq a b \<longrightarrow> nodeSignature num a \<noteq> nodeSignature num b)"
  using signature_injective [of num a b]
  by (auto simp: nodeSignature_def shapeEq_sanitize(1))

text \<open>
  With numbers printed in decimal: a binary expression read at another position and with
  a comment attached keeps its signature; changing the operator or a literal changes it.
\<close>

theorem nodeSignature_shape_witness:
  "shapeEq (binaryNode 0 ''+'' 1 2 False) (binaryNode 7 ''+'' 1 2 True) \<and>
   nodeSignature natText (binaryNode 0 ''+'' 1 2 False)
     = nodeSignature natText (binaryNode 7 ''+'' 1 2 True) \<and>
   \<not> shapeEq (binaryNode 0 ''+'' 1 2 False) (binaryNode 0 ''-'' 1 2 False) \<and>
   nodeSignature natText (binaryNode 0 ''+'' 1 2 False)
     \<noteq> nodeSignature natText (binaryNode 0 ''-'' 1 2 False) \<and>
   \<not> shapeEq (binaryNode 0 ''+'' 1 2 False) (binaryNode 0 ''+'' 1 3 False) \<and>
   nodeSignature natText (binaryNode 0 ''+'' 1 2 False)
     \<noteq> nodeSignature natText (binaryNode 0 ''+'' 1 3 False)"
  using nodeSignature_shape [of "binaryNode 0 ''+'' 1 2 False" "binaryNode 7 ''+'' 1 2 True" natText]
    nodeSignature_shape [of "binaryNode 0 ''+'' 1 2 False" "binaryNode 0 ''-'' 1 2 False" natText]
    nodeSignature_shape [of "binaryNode 0 ''+'' 1 2 False" "binaryNode 0 ''+'' 1 3 False" natText]
    natText_inj natText_numeric
  by (simp add: binaryNode_def literalNode_def droppedKey_def)

end
